(* ===== verification/Prelude.thy ===== *)
theory Prelude
  imports "HOL-Library.DAList" "HOL-Library.Word"
begin

unbundle bit_operations_syntax

text \<open>
  Shared vocabulary of the development: machine integers, the wall clock, the concurrent
  hash map (the \<open>DashMap\<close> of the relay and the \<open>HashMap\<close> of the wake runtime), the result
  types, and the lemma collections the component theories extend.

  A \<open>DashMap\<close> or \<open>HashMap\<close> is a duplicate-free association list: the list order stands for the
  iteration order, which the Rust maps leave unspecified.  Every theorem quantifies over the whole
  map, so it holds for every iteration order of the initial contents.
\<close>

section \<open>Types\<close>

type_synonym u8 = "8 word"
type_synonym u16 = "16 word"
type_synonym u32 = "32 word"
type_synonym u64 = "64 word"
type_synonym bytes = "u8 list"

text \<open>
  Milliseconds since the epoch, as read by \<open>now_ms\<close> (a \<open>u64\<close>).  The program only ever adds
  constants of at most 30 days to a reading of the clock and subtracts with \<open>saturating_sub\<close> or
  under a guard, so natural numbers, whose subtraction saturates at 0, are exact for clock
  readings below \<open>2 ^ 63\<close>.
\<close>

type_synonym ms = nat

type_synonym ('k, 'v) hmap = "('k, 'v) alist"

lemma u8_bound: "unat (b :: u8) < 256"
proof -
  have "unat b < 2 ^ LENGTH(8)" by (rule unsigned_less)
  then show ?thesis by simp
qed

section \<open>Lemma collections\<close>

named_theorems hmap_simps \<open>lookups after an operation on a map\<close>
named_theorems handler_defs \<open>definitions of the small guards used by the handlers\<close>

section \<open>The hash map\<close>

abbreviation hempty :: "('k, 'v) hmap" where "hempty \<equiv> DAList.empty"
abbreviation hget :: "('k, 'v) hmap \<Rightarrow> 'k \<Rightarrow> 'v option" where "hget \<equiv> DAList.lookup"
abbreviation hput :: "'k \<Rightarrow> 'v \<Rightarrow> ('k, 'v) hmap \<Rightarrow> ('k, 'v) hmap" where "hput \<equiv> DAList.update"
abbreviation hrem :: "'k \<Rightarrow> ('k, 'v) hmap \<Rightarrow> ('k, 'v) hmap" where "hrem \<equiv> DAList.delete"
abbreviation hlist :: "('k, 'v) hmap \<Rightarrow> ('k \<times> 'v) list" where "hlist \<equiv> DAList.impl_of"

lift_definition hretain :: "('k \<Rightarrow> 'v \<Rightarrow> bool) \<Rightarrow> ('k, 'v) hmap \<Rightarrow> ('k, 'v) hmap"
  is "\<lambda>P xs. filter (\<lambda>(k, v). P k v) xs"
  by (simp add: distinct_map_fst_filter)

lift_definition hmap_values :: "('v \<Rightarrow> 'v) \<Rightarrow> ('k, 'v) hmap \<Rightarrow> ('k, 'v) hmap"
  is "\<lambda>f xs. map (\<lambda>(k, v). (k, f v)) xs"
  by (simp add: comp_def case_prod_beta)

definition hhas :: "('k, 'v) hmap \<Rightarrow> 'k \<Rightarrow> bool" where
  "hhas m k \<longleftrightarrow> hget m k \<noteq> None"

definition hor_default :: "'v \<Rightarrow> 'k \<Rightarrow> ('k, 'v) hmap \<Rightarrow> 'v" where
  "hor_default d k m = (case hget m k of None \<Rightarrow> d | Some v \<Rightarrow> v)"

definition hvalues :: "('k, 'v) hmap \<Rightarrow> 'v list" where
  "hvalues m = map snd (hlist m)"

lemma map_of_filter_distinct:
  "distinct (map fst xs) \<Longrightarrow>
   map_of (filter (\<lambda>(k, v). P k v) xs) k =
     (case map_of xs k of None \<Rightarrow> None | Some v \<Rightarrow> if P k v then Some v else None)"
proof (induction xs)
  case (Cons x xs)
  then show ?case
    by (cases x) (auto split: option.splits simp: map_of_eq_None_iff rev_image_eqI)
qed simp

lemma hget_hretain [simp, hmap_simps]:
  "hget (hretain P m) k =
     (case hget m k of None \<Rightarrow> None | Some v \<Rightarrow> if P k v then Some v else None)"
  by transfer (simp add: map_of_filter_distinct)

lemma map_of_map_value: "map_of (map (\<lambda>(k, v). (k, f v)) xs) k = map_option f (map_of xs k)"
  by (induction xs) auto

lemma hget_hmap_values [simp, hmap_simps]:
  "hget (hmap_values f m) k = map_option f (hget m k)"
  by transfer (simp add: map_of_map_value)

lemma hget_hput [simp, hmap_simps]:
  "hget (hput k v m) k' = (if k = k' then Some v else hget m k')"
  by (simp add: DAList.lookup_update)

lemma hget_hrem [simp, hmap_simps]:
  "hget (hrem k m) k' = (if k = k' then None else hget m k')"
  by simp

lemma hhas_simps [simp, hmap_simps]:
  "\<not> hhas hempty k"
  "hhas (hput k v m) k' \<longleftrightarrow> k = k' \<or> hhas m k'"
  "hhas (hrem k m) k' \<longleftrightarrow> k \<noteq> k' \<and> hhas m k'"
  by (auto simp: hhas_def)

lemma hor_default_simps [simp, hmap_simps]:
  "hor_default d k hempty = d"
  "hor_default d k (hput k' v m) = (if k = k' then v else hor_default d k m)"
  by (auto simp: hor_default_def)

lemma hlist_hget: "(k, v) \<in> set (hlist m) \<longleftrightarrow> hget m k = Some v"
  by transfer (auto simp: map_of_eq_Some_iff)

lemma hvalues_hget: "v \<in> set (hvalues m) \<longleftrightarrow> (\<exists>k. hget m k = Some v)"
proof -
  have "v \<in> set (hvalues m) \<longleftrightarrow> (\<exists>k. (k, v) \<in> set (hlist m))"
    unfolding hvalues_def by force
  then show ?thesis by (simp add: hlist_hget)
qed

lemma hlist_simps [simp]:
  "hlist hempty = []"
  "hlist (hput k v m) = AList.update k v (hlist m)"
  "hlist (hrem k m) = AList.delete k (hlist m)"
  "hlist (hretain P m) = filter (\<lambda>(k, v). P k v) (hlist m)"
  "hlist (hmap_values f m) = map (\<lambda>(k, v). (k, f v)) (hlist m)"
  by (simp_all add: DAList.empty.rep_eq DAList.update.rep_eq DAList.delete.rep_eq hretain.rep_eq
      hmap_values.rep_eq)

text \<open>
  The relay sweeps a map in two passes: it collects the stale keys, then removes them one by one.
\<close>

definition hkeys_where :: "('k \<Rightarrow> 'v \<Rightarrow> bool) \<Rightarrow> ('k, 'v) hmap \<Rightarrow> 'k list" where
  "hkeys_where P m = map fst (filter (\<lambda>(k, v). P k v) (hlist m))"

lemma set_hkeys_where: "k \<in> set (hkeys_where P m) \<longleftrightarrow> (\<exists>v. hget m k = Some v \<and> P k v)"
  unfolding hkeys_where_def hlist_hget [symmetric] by force

lemma hget_fold_hrem: "hget (fold hrem ks m) k = (if k \<in> set ks then None else hget m k)"
  by (induction ks arbitrary: m) auto

lemma hget_sweep [simp, hmap_simps]:
  "hget (fold hrem (hkeys_where P m) m) k =
     (case hget m k of None \<Rightarrow> None | Some v \<Rightarrow> if P k v then None else Some v)"
  by (auto simp: hget_fold_hrem set_hkeys_where split: option.splits)

lemma hlist_any: "(\<exists>(k, v) \<in> set (hlist m). P k v) \<longleftrightarrow> (\<exists>k v. hget m k = Some v \<and> P k v)"
  by (auto simp: hlist_hget [symmetric])

section \<open>Sums over a map\<close>

definition hkeys :: "('k, 'v) hmap \<Rightarrow> 'k set" where
  "hkeys m = {k. hget m k \<noteq> None}"

definition hsum :: "('v \<Rightarrow> nat) \<Rightarrow> ('k, 'v) hmap \<Rightarrow> nat" where
  "hsum f m = (\<Sum>k \<in> hkeys m. f (the (hget m k)))"

lemma hkeys_list: "hkeys m = set (map fst (hlist m))"
  by (auto simp: hkeys_def hlist_hget [symmetric] image_iff) force

lemma finite_hkeys [simp]: "finite (hkeys m)"
  by (simp add: hkeys_list)

lemma hkeys_simps [simp]:
  "hkeys hempty = {}" "hkeys (hput k v m) = insert k (hkeys m)" "hkeys (hrem k m) = hkeys m - {k}"
  by (auto simp: hkeys_def)

lemma hsum_empty [simp]: "hsum f hempty = 0"
  by (simp add: hsum_def)

lemma hsum_rem: "hget m k = Some v \<Longrightarrow> hsum f m = f v + hsum f (hrem k m)"
proof -
  assume v: "hget m k = Some v"
  then have "k \<in> hkeys m" by (simp add: hkeys_def)
  then have "hsum f m = f v + (\<Sum>k' \<in> hkeys m - {k}. f (the (hget m k')))"
    using v by (simp add: hsum_def sum.remove)
  then show ?thesis by (simp add: hsum_def)
qed

lemma hsum_put_new: "hget m k = None \<Longrightarrow> hsum f (hput k v m) = f v + hsum f m"
proof -
  assume n: "hget m k = None"
  then have "k \<notin> hkeys m" by (simp add: hkeys_def)
  then have "(\<Sum>k' \<in> hkeys m. f (the (if k = k' then Some v else hget m k'))) = hsum f m"
    unfolding hsum_def by (intro sum.cong) auto
  with \<open>k \<notin> hkeys m\<close> show ?thesis by (simp add: hsum_def)
qed

lemma hsum_put_same: "hget m k = Some v \<Longrightarrow> f v' = f v \<Longrightarrow> hsum f (hput k v' m) = hsum f m"
proof -
  assume v: "hget m k = Some v" and f: "f v' = f v"
  then have "hkeys (hput k v' m) = hkeys m" by (auto simp: hkeys_def)
  then show ?thesis
    unfolding hsum_def using v f by (intro sum.cong) auto
qed

lemma hsum_le:
  assumes "\<And>k v. hget m k = Some v \<Longrightarrow> \<exists>v'. hget m' k = Some v' \<and> f v \<le> f' v'"
  shows "hsum f m \<le> hsum f' m'"
proof -
  have sub: "hkeys m \<subseteq> hkeys m'"
    using assms by (fastforce simp: hkeys_def)
  have "hsum f m \<le> (\<Sum>k \<in> hkeys m. f' (the (hget m' k)))"
    unfolding hsum_def using assms by (intro sum_mono) (fastforce simp: hkeys_def)
  also have "\<dots> \<le> hsum f' m'"
    unfolding hsum_def by (rule sum_mono2) (use sub in auto)
  finally show ?thesis .
qed

section \<open>The contract of the map, and of a map whose entries expire\<close>

text \<open>
  Every handler reads and writes its state through these four operations.  The second locale adds
  what five of the relay's maps share: each entry carries a time stamp, and a sweep at time
  \<open>now\<close> removes the entries older than a time to live.
\<close>

locale hash_map =
  fixes get :: "'m \<Rightarrow> 'k \<Rightarrow> 'v option"
    and put :: "'k \<Rightarrow> 'v \<Rightarrow> 'm \<Rightarrow> 'm"
    and rem :: "'k \<Rightarrow> 'm \<Rightarrow> 'm"
    and sweep :: "('k \<Rightarrow> 'v \<Rightarrow> bool) \<Rightarrow> 'm \<Rightarrow> 'm"
  assumes get_put: "get (put k v m) k' = (if k = k' then Some v else get m k')"
    and get_rem: "get (rem k m) k' = (if k = k' then None else get m k')"
    and get_sweep: "get (sweep P m) k = (if \<exists>v. get m k = Some v \<and> P k v then None else get m k)"
begin

lemma put_frame: "k \<noteq> k' \<Longrightarrow> get (put k v m) k' = get m k'"
  by (simp add: get_put)

lemma rem_sweep_commute: "get (rem k (sweep P m)) k' = get (sweep P (rem k m)) k'"
  by (auto simp: get_rem get_sweep)

end

locale expiring_map = hash_map get put rem sweep
  for get :: "'m \<Rightarrow> 'k \<Rightarrow> 'v option" and put rem sweep +
  fixes stamp :: "'v \<Rightarrow> nat" and ttl :: nat
begin

lemma sweep_only_fresh:
  "get (sweep (\<lambda>_ v. ttl < now - stamp v) m) k = Some v \<Longrightarrow> now - stamp v \<le> ttl"
  by (auto simp: get_sweep split: if_splits)

lemma sweep_keeps_fresh:
  "get m k = Some v \<Longrightarrow> now - stamp v \<le> ttl \<Longrightarrow> get (sweep (\<lambda>_ v. ttl < now - stamp v) m) k = Some v"
  by (simp add: get_sweep)

lemma sweep_subset: "get (sweep P m) k = Some v \<Longrightarrow> get m k = Some v"
  by (auto simp: get_sweep split: if_splits)

lemma sweep_later:
  "t \<le> t' \<Longrightarrow>
   get (sweep (\<lambda>_ v. ttl < t' - stamp v) (sweep (\<lambda>_ v. ttl < t - stamp v) m)) k =
   get (sweep (\<lambda>_ v. ttl < t' - stamp v) m) k"
  by (auto simp: get_sweep)

end

definition hsweep :: "('k \<Rightarrow> 'v \<Rightarrow> bool) \<Rightarrow> ('k, 'v) hmap \<Rightarrow> ('k, 'v) hmap" where
  "hsweep P m = fold hrem (hkeys_where P m) m"

lemma hget_hsweep [simp, hmap_simps]:
  "hget (hsweep P m) k =
     (case hget m k of None \<Rightarrow> None | Some v \<Rightarrow> if P k v then None else Some v)"
  by (simp add: hsweep_def)

interpretation hm: hash_map hget hput hrem hsweep
  by unfold_locales (auto split: option.splits)

end
