(* ===== verification/Rust_Str.thy ===== *)
theory Rust_Str
  imports Prelude "HOL-Library.Sublist"
begin

text \<open>
  The part of Rust's \<open>str\<close> and \<open>u8\<close> the program uses.  A Rust \<open>String\<close> is valid UTF-8; here it is
  the list of its bytes (Isabelle's \<open>char\<close>), so \<open>length\<close> is \<open>str::len\<close>.  \<open>chars\<close> groups the bytes
  into encoded scalar values, which is what \<open>str::chars\<close>, \<open>trim\<close> and \<open>is_control\<close> work on.
\<close>

abbreviation ord :: "char \<Rightarrow> nat" where "ord c \<equiv> of_char c"

definition cont_byte :: "char \<Rightarrow> bool" where
  "cont_byte c \<longleftrightarrow> 128 \<le> ord c \<and> ord c < 192"

fun chars :: "string \<Rightarrow> string list" where
  "chars [] = []"
| "chars (c # cs) =
     (case chars cs of
        [] \<Rightarrow> [[c]]
      | g # gs \<Rightarrow> if cont_byte (hd g) then (c # g) # gs else [c] # g # gs)"

text \<open>The encodings of the scalar values with the Unicode property \<open>White_Space\<close>.\<close>

definition white_space :: "nat list list" where
  "white_space =
     [[9], [10], [11], [12], [13], [32], [194, 133], [194, 160], [225, 154, 128],
      [226, 128, 128], [226, 128, 129], [226, 128, 130], [226, 128, 131], [226, 128, 132],
      [226, 128, 133], [226, 128, 134], [226, 128, 135], [226, 128, 136], [226, 128, 137],
      [226, 128, 138], [226, 128, 168], [226, 128, 169], [226, 128, 175], [226, 129, 159],
      [227, 128, 128]]"

definition is_whitespace :: "string \<Rightarrow> bool" where
  "is_whitespace g \<longleftrightarrow> map ord g \<in> set white_space"

text \<open>\<open>char::is_control\<close>: the general category Cc, U+0000 to U+001F and U+007F to U+009F.\<close>

definition is_control :: "string \<Rightarrow> bool" where
  "is_control g \<longleftrightarrow>
     (case g of
        [c] \<Rightarrow> ord c < 32 \<or> ord c = 127
      | [c, d] \<Rightarrow> ord c = 194 \<and> ord d < 160
      | _ \<Rightarrow> False)"

definition trim_groups :: "string list \<Rightarrow> string list" where
  "trim_groups gs = rev (dropWhile is_whitespace (rev (dropWhile is_whitespace gs)))"

definition trim :: "string \<Rightarrow> string" where
  "trim s = concat (trim_groups (chars s))"

text \<open>\<open>s.rsplit(seps).next()\<close> for ASCII separators: the text after the last separator.\<close>

definition after_last :: "(char \<Rightarrow> bool) \<Rightarrow> string \<Rightarrow> string" where
  "after_last sep s = rev (takeWhile (\<lambda>c. \<not> sep c) (rev s))"

definition strip_prefix :: "string \<Rightarrow> string \<Rightarrow> string option" where
  "strip_prefix p s = (if take (length p) s = p then Some (drop (length p) s) else None)"

fun split_on :: "char \<Rightarrow> string \<Rightarrow> string list" where
  "split_on c [] = [[]]"
| "split_on c (x # xs) =
     (if x = c then [] # split_on c xs
      else case split_on c xs of [] \<Rightarrow> [[x]] | p # ps \<Rightarrow> (x # p) # ps)"

definition is_ascii_digit :: "char \<Rightarrow> bool" where
  "is_ascii_digit c \<longleftrightarrow> 48 \<le> ord c \<and> ord c \<le> 57"

definition is_ascii_lower :: "char \<Rightarrow> bool" where
  "is_ascii_lower c \<longleftrightarrow> 97 \<le> ord c \<and> ord c \<le> 122"

definition is_ascii_hexdigit :: "char \<Rightarrow> bool" where
  "is_ascii_hexdigit c \<longleftrightarrow>
     is_ascii_digit c \<or> (97 \<le> ord c \<and> ord c \<le> 102) \<or> (65 \<le> ord c \<and> ord c \<le> 70)"

definition to_ascii_upper :: "char \<Rightarrow> char" where
  "to_ascii_upper c = (if is_ascii_lower c then char_of (ord c - 32) else c)"

definition to_ascii_lower :: "char \<Rightarrow> char" where
  "to_ascii_lower c = (if 65 \<le> ord c \<and> ord c \<le> 90 then char_of (ord c + 32) else c)"

text \<open>\<open>char::to_digit(16)\<close> and \<open>u8::from_str_radix(_, 16)\<close>, which accepts a leading \<open>+\<close>.\<close>

definition hex_val :: "char \<Rightarrow> nat option" where
  "hex_val c =
     (if is_ascii_digit c then Some (ord c - 48)
      else if 97 \<le> ord c \<and> ord c \<le> 102 then Some (ord c - 87)
      else if 65 \<le> ord c \<and> ord c \<le> 70 then Some (ord c - 55)
      else None)"

fun radix16_digits :: "nat \<Rightarrow> string \<Rightarrow> nat option" where
  "radix16_digits acc [] = Some acc"
| "radix16_digits acc (c # cs) =
     (case hex_val c of
        None \<Rightarrow> None
      | Some d \<Rightarrow> if 255 < 16 * acc + d then None else radix16_digits (16 * acc + d) cs)"

definition u8_from_hex :: "string \<Rightarrow> u8 option" where
  "u8_from_hex s =
     (case s of
        [] \<Rightarrow> None
      | [c] \<Rightarrow> if c = CHR ''+'' \<or> c = CHR ''-'' then None
               else map_option of_nat (radix16_digits 0 [c])
      | c # cs \<Rightarrow> map_option of_nat
                   (radix16_digits 0 (if c = CHR ''+'' then cs else c # cs)))"

definition hex_char :: "bool \<Rightarrow> nat \<Rightarrow> char" where
  "hex_char up n = char_of (if n < 10 then 48 + n else if up then 55 + n else 87 + n)"

text \<open>\<open>format!("{b:02x}")\<close> and \<open>format!("{b:02X}")\<close>.\<close>

definition fmt_hex :: "bool \<Rightarrow> u8 \<Rightarrow> string" where
  "fmt_hex up b = [hex_char up (unat b div 16), hex_char up (unat b mod 16)]"

text \<open>\<open>to_string()\<close> of an unsigned integer.\<close>

fun to_decimal :: "nat \<Rightarrow> string" where
  "to_decimal n =
     (if n < 10 then [char_of (48 + n)] else to_decimal (n div 10) @ [char_of (48 + n mod 10)])"

declare to_decimal.simps [simp del]

text \<open>\<open>str::parse::<usize>()\<close> on a 64-bit target: decimal digits after an optional \<open>+\<close>.\<close>

fun decimal_digits :: "nat \<Rightarrow> string \<Rightarrow> nat option" where
  "decimal_digits acc [] = Some acc"
| "decimal_digits acc (c # cs) =
     (if \<not> is_ascii_digit c \<or> 2 ^ 64 \<le> 10 * acc + (ord c - 48) then None
      else decimal_digits (10 * acc + (ord c - 48)) cs)"

definition parse_usize :: "string \<Rightarrow> nat option" where
  "parse_usize s =
     (case s of
        [] \<Rightarrow> None
      | c # cs \<Rightarrow>
          if c = CHR ''+'' then (if cs = [] then None else decimal_digits 0 cs)
          else decimal_digits 0 s)"

section \<open>Splitting into characters and back\<close>

lemma concat_chars [simp]: "concat (chars s) = s"
proof (induction s)
  case (Cons c cs)
  then show ?case by (cases "chars cs") auto
qed simp

definition good_groups :: "string list \<Rightarrow> bool" where
  "good_groups gs \<longleftrightarrow>
     (\<forall>g \<in> set gs. g \<noteq> [] \<and> (\<forall>c \<in> set (tl g). cont_byte c)) \<and>
     (\<forall>g \<in> set (tl gs). \<not> cont_byte (hd g))"

lemma good_groups_chars: "good_groups (chars s)"
proof (induction s)
  case (Cons c cs)
  show ?case
  proof (cases "chars cs")
    case (Cons g gs)
    with Cons.IH have g: "g \<noteq> []" "\<forall>c \<in> set (tl g). cont_byte c" and gs: "good_groups (g # gs)"
      by (auto simp: good_groups_def)
    then show ?thesis
      using Cons by (cases g) (auto simp: good_groups_def)
  qed (simp add: good_groups_def)
qed (simp add: good_groups_def)

lemma good_groups_Cons:
  "good_groups (g # gs) \<longleftrightarrow>
     g \<noteq> [] \<and> (\<forall>c \<in> set (tl g). cont_byte c) \<and> good_groups gs \<and>
     (gs \<noteq> [] \<longrightarrow> \<not> cont_byte (hd (hd gs)))"
  by (cases gs) (auto simp: good_groups_def)

lemma chars_hd: "r \<noteq> [] \<Longrightarrow> chars r \<noteq> [] \<and> hd (hd (chars r)) = hd r"
  by (cases r) (auto split: list.splits)

lemma chars_append_group:
  "g \<noteq> [] \<Longrightarrow> \<forall>c \<in> set (tl g). cont_byte c \<Longrightarrow> r = [] \<or> \<not> cont_byte (hd r) \<Longrightarrow>
   chars (g @ r) = g # chars r"
proof (induction g)
  case (Cons c g)
  show ?case
  proof (cases "g = []")
    case True
    with Cons.prems chars_hd [of r] show ?thesis
      by (cases "r = []") (auto split: list.splits)
  next
    case False
    with Cons.prems have "\<forall>c \<in> set (tl g). cont_byte c" "cont_byte (hd g)"
      by (cases g; auto)+
    with False Cons show ?thesis by simp
  qed
qed simp

lemma chars_concat: "good_groups gs \<Longrightarrow> chars (concat gs) = gs"
proof (induction gs)
  case (Cons g gs)
  then have "concat gs = [] \<or> \<not> cont_byte (hd (concat gs))"
    by (cases gs) (auto simp: good_groups_Cons)
  with Cons show ?case
    by (simp add: good_groups_Cons chars_append_group)
qed simp

lemma subseq_set: "subseq xs ys \<Longrightarrow> set xs \<subseteq> set ys"
  by (induction rule: list_emb.induct) auto

lemma set_tl_subseq: "subseq xs ys \<Longrightarrow> set (tl xs) \<subseteq> set (tl ys)"
proof (induction rule: list_emb.induct)
  case (list_emb_Cons xs ys y)
  have "set (tl xs) \<subseteq> set xs" by (cases xs) auto
  with subseq_set [OF list_emb_Cons.hyps] show ?case by simp
next
  case (list_emb_Cons2 x y xs ys)
  with subseq_set [OF list_emb_Cons2.hyps(2)] show ?case by simp
qed simp

lemma good_groups_subseq:
  assumes "subseq xs ys" and "good_groups ys"
  shows "good_groups xs"
  using assms(2) subseq_set [OF assms(1)] set_tl_subseq [OF assms(1)]
  unfolding good_groups_def by blast

section \<open>Trimming\<close>

lemma subseq_trim_groups: "subseq (trim_groups gs) gs"
proof -
  have drop: "subseq (dropWhile P xs) xs" for P and xs :: "string list"
    by (simp add: suffix_dropWhile suffix_imp_subseq)
  have "subseq (rev (dropWhile is_whitespace (rev xs))) xs" for xs
    using suffix_dropWhile [of is_whitespace "rev xs"]
    by (simp add: suffix_to_prefix prefix_imp_subseq)
  then show ?thesis
    unfolding trim_groups_def using drop subseq_order.trans by blast
qed

lemma trim_groups_idem: "trim_groups (trim_groups gs) = trim_groups gs"
proof -
  let ?xs = "dropWhile is_whitespace gs"
  let ?ys = "rev (dropWhile is_whitespace (rev ?xs))"
  have "dropWhile is_whitespace ?ys = ?ys"
  proof (cases ?ys)
    case (Cons y ys)
    obtain zs where xs: "?xs = ?ys @ zs"
      by (metis rev_append rev_rev_ident takeWhile_dropWhile_id)
    then have "?xs \<noteq> []" and "hd ?xs = hd ?ys"
      using Cons by auto
    then have "\<not> is_whitespace (hd ?ys)"
      using hd_dropWhile by metis
    with Cons show ?thesis by (simp only: list.sel dropWhile.simps if_False)
  next
    case Nil
    then show ?thesis by (simp only: dropWhile.simps)
  qed
  then show ?thesis by (simp add: trim_groups_def dropWhile_idem)
qed

lemma chars_concat_sub: "subseq gs (chars s) \<Longrightarrow> chars (concat gs) = gs"
  by (rule chars_concat) (rule good_groups_subseq [OF _ good_groups_chars])

lemma chars_trim: "chars (trim s) = trim_groups (chars s)"
  unfolding trim_def by (rule chars_concat_sub) (rule subseq_trim_groups)

lemma trim_trim [simp]: "trim (trim s) = trim s"
  unfolding trim_def [of "trim s"] by (simp add: chars_trim trim_groups_idem) (simp add: trim_def)

lemma trim_set: "set (trim s) \<subseteq> set s"
proof -
  have "set (trim_groups (chars s)) \<subseteq> set (chars s)"
    by (rule subseq_set) (rule subseq_trim_groups)
  then have "set (concat (trim_groups (chars s))) \<subseteq> set (concat (chars s))"
    by (auto simp only: set_concat)
  then show ?thesis by (simp add: trim_def)
qed

section \<open>The text after the last separator\<close>

lemma after_last_no_sep: "c \<in> set (after_last sep s) \<Longrightarrow> \<not> sep c"
  by (auto simp: after_last_def dest: set_takeWhileD)

lemma after_last_id: "\<forall>c \<in> set s. \<not> sep c \<Longrightarrow> after_last sep s = s"
  by (simp add: after_last_def takeWhile_eq_all_conv [THEN iffD2])

lemma strip_prefix_append [simp]: "strip_prefix p (p @ s) = Some s"
  by (simp add: strip_prefix_def)

lemma strip_prefix_Some: "strip_prefix p s = Some r \<longleftrightarrow> s = p @ r"
  by (auto simp: strip_prefix_def) (metis append_take_drop_id)

section \<open>Hexadecimal digits\<close>

lemma ord_hex_char:
  "n < 16 \<Longrightarrow> ord (hex_char up n) = (if n < 10 then 48 + n else if up then 55 + n else 87 + n)"
  by (auto simp: hex_char_def)

lemma hex_val_hex_char [simp]: "n < 16 \<Longrightarrow> hex_val (hex_char up n) = Some n"
  by (auto simp: hex_val_def is_ascii_digit_def ord_hex_char)

lemma hex_char_not_sign: "n < 16 \<Longrightarrow> hex_char up n \<noteq> CHR ''+''"
  using ord_hex_char [of n up] by (auto split: if_splits)

lemma u8_from_hex_fmt_hex [simp]: "u8_from_hex (fmt_hex up b) = Some b"
proof -
  have b: "unat b < 256" by (rule u8_bound)
  then have "unat b div 16 < 16" and "unat b mod 16 < 16" by auto
  with b show ?thesis
    by (auto simp: u8_from_hex_def fmt_hex_def hex_char_not_sign)
qed

lemma fmt_hex_hexdigit: "c \<in> set (fmt_hex up b) \<Longrightarrow> is_ascii_hexdigit c"
proof -
  have "is_ascii_hexdigit (hex_char up n)" if "n < 16" for n
    using that by (auto simp: is_ascii_hexdigit_def is_ascii_digit_def ord_hex_char)
  moreover have "unat b div 16 < 16"
    using u8_bound [of b] by simp
  ultimately show "c \<in> set (fmt_hex up b) \<Longrightarrow> is_ascii_hexdigit c"
    by (auto simp: fmt_hex_def)
qed

lemma length_fmt_hex [simp]: "length (fmt_hex up b) = 2"
  by (simp add: fmt_hex_def)

section \<open>Decimal numbers\<close>

lemma decimal_digits_append:
  "decimal_digits acc (xs @ ys) = Option.bind (decimal_digits acc xs) (\<lambda>a. decimal_digits a ys)"
  by (induction xs arbitrary: acc) auto

lemma ord_digit: "n < 10 \<Longrightarrow> ord (char_of (48 + n) :: char) = 48 + n"
  by simp

lemma decimal_to_decimal: "n < 2 ^ 64 \<Longrightarrow> decimal_digits 0 (to_decimal n) = Some n"
proof (induction n rule: to_decimal.induct)
  case (1 n)
  show ?case
  proof (cases "n < 10")
    case True
    then show ?thesis by (simp add: to_decimal.simps [of n] is_ascii_digit_def)
  next
    case False
    then have "decimal_digits 0 (to_decimal (n div 10)) = Some (n div 10)"
      using 1 by auto
    moreover have "10 * (n div 10) + n mod 10 = n" by simp
    ultimately show ?thesis
      using False 1(2)
      by (simp add: to_decimal.simps [of n] decimal_digits_append is_ascii_digit_def)
  qed
qed

lemma to_decimal_digits: "c \<in> set (to_decimal n) \<Longrightarrow> is_ascii_digit c"
proof (induction n rule: to_decimal.induct)
  case (1 n)
  then show ?case
    by (cases "n < 10") (auto simp: to_decimal.simps [of n] is_ascii_digit_def)
qed

lemma to_decimal_nonempty [simp]: "to_decimal n \<noteq> []"
  by (simp add: to_decimal.simps [of n])

lemma parse_to_decimal: "n < 2 ^ 64 \<Longrightarrow> parse_usize (to_decimal n) = Some n"
proof -
  assume n: "n < 2 ^ 64"
  have "hd (to_decimal n) \<noteq> CHR ''+''"
    using to_decimal_digits [of "hd (to_decimal n)" n] by (auto simp: is_ascii_digit_def)
  then show "parse_usize (to_decimal n) = Some n"
    using decimal_to_decimal [OF n] by (cases "to_decimal n") (auto simp: parse_usize_def)
qed

section \<open>Strings as bytes\<close>

text \<open>\<open>as_bytes()\<close>: a string is kept as the characters of its UTF-8 encoding.\<close>

definition str_bytes :: "string \<Rightarrow> bytes" where
  "str_bytes = map (\<lambda>c. word_of_nat (ord c))"

lemma unat_char_byte [simp]: "unat (word_of_nat (ord c) :: u8) = ord c"
  by (simp add: unat_of_nat)

lemma char_byte_inj: "(word_of_nat (ord c) :: u8) = word_of_nat (ord d) \<Longrightarrow> c = d"
  by (metis unat_char_byte of_char_eq_iff)

lemma str_bytes_eq [simp]: "str_bytes a = str_bytes b \<longleftrightarrow> a = b"
  unfolding str_bytes_def by (rule inj_map_eq_map) (auto intro: injI char_byte_inj)

lemma length_str_bytes [simp]: "length (str_bytes a) = length a"
  by (simp add: str_bytes_def)

end
