(* ===== verification/Wake_Model.thy ===== *)
theory Wake_Model
  imports Rust_Str
begin

text \<open>
  \<open>crates/rdesk_server/src/wake/model.rs\<close>: MAC addresses, the remote-wake data an account owns
  (targets, agents, requests) and the life cycle of one wake request.
\<close>

section \<open>Errors\<close>

text \<open>
  \<open>WakeError\<close> wraps a static string, the machine-readable code.  The message shown to the user is a
  Chinese sentence per code; it is represented by a constructor named after its meaning.
\<close>

type_synonym wake_error = string
type_synonym 'a wake_result = "wake_error + 'a"

datatype wake_message =
  MsgCredentialInvalid | MsgNoConfig | MsgAgentOffline | MsgTargetOnline | MsgSetupIncomplete
| MsgConflict | MsgExpired | MsgRateLimited | MsgStorage | MsgBadParameter

definition wake_error_response :: "wake_error \<Rightarrow> nat \<times> wake_error \<times> wake_message" where
  "wake_error_response e =
     (let (status, message) =
        (if e = ''unauthorized'' then (401, MsgCredentialInvalid)
         else if e = ''not_found'' then (404, MsgNoConfig)
         else if e = ''agent_offline'' then (409, MsgAgentOffline)
         else if e = ''target_online'' then (409, MsgTargetOnline)
         else if e = ''setup_incomplete'' then (409, MsgSetupIncomplete)
         else if e = ''conflict'' then (409, MsgConflict)
         else if e = ''expired'' then (410, MsgExpired)
         else if e = ''rate_limited'' then (429, MsgRateLimited)
         else if e = ''storage'' then (503, MsgStorage)
         else (400, MsgBadParameter))
      in (status, e, message))"

section \<open>MAC addresses\<close>

datatype mac_address = MacAddress (mac_bytes: bytes)

definition all_zero :: "bytes \<Rightarrow> bool" where
  "all_zero bs \<longleftrightarrow> (\<forall>b \<in> set bs. b = 0)"

definition replace_char :: "char \<Rightarrow> char \<Rightarrow> string \<Rightarrow> string" where
  "replace_char a b = map (\<lambda>c. if c = a then b else c)"

definition mac_parse :: "string \<Rightarrow> mac_address wake_result" where
  "mac_parse raw0 =
     (let raw = replace_char (CHR ''-'') (CHR '':'') (trim raw0);
          parts = split_on (CHR '':'') raw
      in if length parts \<noteq> 6 \<or> (\<exists>p \<in> set parts. length p \<noteq> 2) then Inl ''invalid_mac''
         else case those (map u8_from_hex parts) of
                None \<Rightarrow> Inl ''invalid_mac''
              | Some bs \<Rightarrow>
                  if all_zero bs \<or> hd bs AND 1 \<noteq> 0 then Inl ''invalid_mac''
                  else Inr (MacAddress bs))"

fun join :: "string \<Rightarrow> string list \<Rightarrow> string" where
  "join sep [] = []"
| "join sep [p] = p"
| "join sep (p # q # ps) = p @ sep @ join sep (q # ps)"

definition mac_normalized :: "mac_address \<Rightarrow> string" where
  "mac_normalized m = join '':'' (map (fmt_hex True) (mac_bytes m))"

definition mac_valid :: "mac_address \<Rightarrow> bool" where
  "mac_valid m \<longleftrightarrow>
     length (mac_bytes m) = 6 \<and> \<not> all_zero (mac_bytes m) \<and> hd (mac_bytes m) AND 1 = 0"

section \<open>Targets, agents and requests\<close>

record wake_target =
  wt_setup_complete :: bool
  wt_id :: string
  wt_name :: string
  wt_device_id :: string
  wt_mac :: string
  wt_agent_id :: string
  wt_revision :: nat
  wt_token_hash :: string
  wt_created_at_ms :: ms

record wake_agent =
  wa_id :: string
  wa_name :: string
  wa_token_hash :: string
  wa_enabled :: bool

datatype wake_phase =
  Queued | Claimed | Sent | Online | Unconfirmed | Expired | Failed | Cancelled | Interrupted

definition phase_active :: "wake_phase \<Rightarrow> bool" where
  "phase_active p \<longleftrightarrow> p = Queued \<or> p = Claimed \<or> p = Sent"

record wake_request =
  wr_id :: string
  wr_target_id :: string
  wr_agent_id :: string
  wr_target_revision :: nat
  wr_created_at_ms :: ms
  wr_expires_at_ms :: ms
  wr_observe_until_ms :: ms
  wr_phase :: wake_phase
  wr_claimed_at_ms :: "ms option"
  wr_authorized_at_ms :: "ms option"
  wr_sent_at_ms :: "ms option"
  wr_online_at_ms :: "ms option"
  wr_error_code :: "string option"

definition observed_online :: "ms \<Rightarrow> ms option \<Rightarrow> ms option \<Rightarrow> ms \<Rightarrow> bool" where
  "observed_online created sent heartbeat now \<longleftrightarrow>
     sent \<noteq> None \<and>
     (case heartbeat of
        None \<Rightarrow> False
      | Some seen \<Rightarrow> created < seen \<and> seen \<le> now \<and> now - seen < 30000)"

definition request_advance :: "ms \<Rightarrow> ms option \<Rightarrow> wake_request \<Rightarrow> wake_request" where
  "request_advance now heartbeat r =
     (if wr_phase r = Sent then
        if observed_online (wr_created_at_ms r) (wr_sent_at_ms r) heartbeat now
        then r\<lparr>wr_phase := Online, wr_online_at_ms := heartbeat\<rparr>
        else if wr_observe_until_ms r \<le> now then r\<lparr>wr_phase := Unconfirmed\<rparr>
        else r
      else if (wr_phase r = Queued \<or> wr_phase r = Claimed) \<and> wr_expires_at_ms r \<le> now
        then r\<lparr>wr_phase := Expired\<rparr>
      else r)"

record wake_account_data =
  wd_targets :: "wake_target list"
  wd_agents :: "wake_agent list"
  wd_requests :: "wake_request list"

definition wake_default :: wake_account_data where
  "wake_default = \<lparr>wd_targets = [], wd_agents = [], wd_requests = []\<rparr>"

text \<open>\<open>sort_by_key\<close> is stable; sorting by \<open>Reverse(created_at_ms)\<close> is sorting by the negation.\<close>

definition newest_first :: "wake_request list \<Rightarrow> wake_request list" where
  "newest_first = sort_key (\<lambda>r. - int (wr_created_at_ms r))"

definition wake_prune :: "ms \<Rightarrow> wake_account_data \<Rightarrow> wake_account_data" where
  "wake_prune now d =
     d\<lparr>wd_requests :=
        take 50 (newest_first (filter (\<lambda>r. now - wr_created_at_ms r < 604800000) (wd_requests d)))\<rparr>"

definition recover_after_restart :: "ms \<Rightarrow> wake_account_data \<Rightarrow> wake_account_data" where
  "recover_after_restart now d0 =
     (let d = wake_prune now d0
      in d\<lparr>wd_requests :=
            map (\<lambda>r. if phase_active (wr_phase r)
                     then r\<lparr>wr_phase := Interrupted, wr_error_code := Some ''server_restarted''\<rparr>
                     else r) (wd_requests d)\<rparr>)"

definition cancel_where :: "(wake_request \<Rightarrow> bool) \<Rightarrow> wake_request list \<Rightarrow> wake_request list" where
  "cancel_where P =
     map (\<lambda>r. if P r \<and> phase_active (wr_phase r) then r\<lparr>wr_phase := Cancelled\<rparr> else r)"

definition cancel_target :: "string \<Rightarrow> wake_account_data \<Rightarrow> wake_account_data" where
  "cancel_target i d = d\<lparr>wd_requests := cancel_where (\<lambda>r. wr_target_id r = i) (wd_requests d)\<rparr>"

section \<open>Parsing and printing MAC addresses\<close>

lemma split_on_append:
  "c \<notin> set p \<Longrightarrow> split_on c (p @ c # s) = p # split_on c s"
  by (induction p) auto

lemma split_on_no_sep: "c \<notin> set p \<Longrightarrow> split_on c p = [p]"
  by (induction p) auto

lemma split_on_join:
  "ps \<noteq> [] \<Longrightarrow> \<forall>p \<in> set ps. c \<notin> set p \<Longrightarrow> split_on c (join [c] ps) = ps"
  by (induction "[c]" ps rule: join.induct) (auto simp: split_on_append split_on_no_sep)

lemma set_join: "set (join sep ps) \<subseteq> \<Union> (set ` set ps) \<union> set sep"
  by (induction sep ps rule: join.induct) auto

lemma chars_ascii: "\<forall>c \<in> set s. ord c < 128 \<Longrightarrow> chars s = map (\<lambda>c. [c]) s"
  by (induction s) (auto simp: cont_byte_def split: list.splits)

lemma trim_ascii_id:
  assumes "\<forall>c \<in> set s. ord c < 128 \<and> \<not> is_whitespace [c]"
  shows "trim s = s"
proof -
  have "dropWhile is_whitespace (map (\<lambda>c. [c]) t) = map (\<lambda>c. [c]) t"
    if "\<forall>c \<in> set t. \<not> is_whitespace [c]" for t
    using that by (cases t) auto
  from this [of s] this [of "rev s"] assms show ?thesis
    by (simp add: trim_def trim_groups_def chars_ascii rev_map concat_map_singleton)
qed

lemma hexdigit_plain: "is_ascii_hexdigit c \<Longrightarrow> ord c < 128 \<and> \<not> is_whitespace [c]"
  by (auto simp: is_ascii_hexdigit_def is_ascii_digit_def is_whitespace_def white_space_def)

lemma hexdigit_not_sep: "is_ascii_hexdigit c \<Longrightarrow> c \<noteq> CHR '':'' \<and> c \<noteq> CHR ''-''"
  by (auto simp: is_ascii_hexdigit_def is_ascii_digit_def)

lemma normalized_char:
  "c \<in> set (mac_normalized m) \<Longrightarrow> is_ascii_hexdigit c \<or> c = CHR '':''"
  using set_join [of "'':''" "map (fmt_hex True) (mac_bytes m)"]
  by (auto simp: mac_normalized_def dest!: subsetD dest: fmt_hex_hexdigit)

lemma normalized_trim: "trim (mac_normalized m) = mac_normalized m"
proof (rule trim_ascii_id, rule ballI)
  fix c
  assume "c \<in> set (mac_normalized m)"
  then consider "is_ascii_hexdigit c" | "c = CHR '':''"
    using normalized_char by blast
  then show "ord c < 128 \<and> \<not> is_whitespace [c]"
    by cases (rule hexdigit_plain, simp_all add: is_whitespace_def white_space_def)
qed

lemma normalized_no_dash: "replace_char (CHR ''-'') (CHR '':'') (mac_normalized m) = mac_normalized m"
  unfolding replace_char_def
  by (rule map_idI) (use hexdigit_not_sep normalized_char in \<open>fastforce\<close>)

lemma split_normalized:
  "mac_bytes m \<noteq> [] \<Longrightarrow>
   split_on (CHR '':'') (mac_normalized m) = map (fmt_hex True) (mac_bytes m)"
  unfolding mac_normalized_def
  by (rule split_on_join) (use fmt_hex_hexdigit hexdigit_not_sep in \<open>fastforce\<close>)+

lemma those_map_Some: "those (map (\<lambda>x. Some (f x)) xs) = Some (map f xs)"
  by (induction xs) auto

lemma those_length: "those xs = Some ys \<Longrightarrow> length ys = length xs"
  by (induction xs arbitrary: ys) (auto split: option.splits)

lemma mac_parse_normalized:
  assumes "mac_valid m"
  shows "mac_parse (mac_normalized m) = Inr m"
proof -
  have "mac_bytes m \<noteq> []" using assms by (auto simp: mac_valid_def)
  moreover have "those (map u8_from_hex (map (fmt_hex True) (mac_bytes m))) = Some (mac_bytes m)"
    by (simp add: comp_def those_map_Some)
  ultimately show ?thesis
    using assms
    by (simp add: mac_parse_def normalized_trim normalized_no_dash split_normalized mac_valid_def
        Let_def)
qed

lemma mac_parse_valid: "mac_parse s = Inr m \<Longrightarrow> mac_valid m"
  by (auto simp: mac_parse_def mac_valid_def Let_def split: if_splits option.splits dest: those_length)

lemma length_join:
  "ps \<noteq> [] \<Longrightarrow> \<forall>p \<in> set ps. length p = 2 \<Longrightarrow> length (join [c] ps) = 3 * length ps - 1"
  by (induction "[c]" ps rule: join.induct) auto

lemma length_normalized: "length (mac_bytes m) = 6 \<Longrightarrow> length (mac_normalized m) = 17"
  by (subst mac_normalized_def, subst length_join) auto

section \<open>The life cycle of a request\<close>

text \<open>The transitions a request may make; every handler of \<open>routes.rs\<close> refines this relation.\<close>

inductive phase_step :: "wake_phase \<Rightarrow> wake_phase \<Rightarrow> bool" where
  claim: "phase_step Queued Claimed"
| send: "phase_step Claimed Sent"
| fail: "phase_step Claimed Failed"
| see: "phase_step Sent Online"
| give_up: "phase_step Sent Unconfirmed"
| expire: "p = Queued \<or> p = Claimed \<Longrightarrow> phase_step p Expired"
| cancel: "phase_active p \<Longrightarrow> phase_step p Cancelled"
| interrupt: "phase_active p \<Longrightarrow> phase_step p Interrupted"

inductive_cases phase_step_QueuedE: "phase_step Queued q"
inductive_simps phase_step_simps: "phase_step p q"

code_pred phase_step .

abbreviation phase_le :: "wake_phase \<Rightarrow> wake_phase \<Rightarrow> bool" where
  "phase_le \<equiv> phase_step\<^sup>*\<^sup>*"

definition phase_rank :: "wake_phase \<Rightarrow> nat" where
  "phase_rank p = (case p of Queued \<Rightarrow> 0 | Claimed \<Rightarrow> 1 | Sent \<Rightarrow> 2 | _ \<Rightarrow> 3)"

lemma phase_step_rank: "phase_step p q \<Longrightarrow> phase_rank p < phase_rank q"
  by (induction rule: phase_step.induct) (auto simp: phase_rank_def phase_active_def)

lemma terminal_no_step: "\<not> phase_active p \<Longrightarrow> \<not> phase_step p q"
  by (auto simp: phase_step_simps phase_active_def)

lemma terminal_stays: "phase_le p q \<Longrightarrow> \<not> phase_active p \<Longrightarrow> q = p"
  by (induction rule: converse_rtranclp_induct) (auto simp: terminal_no_step)

lemma phase_le_antisym: "phase_le p q \<Longrightarrow> phase_le q p \<Longrightarrow> p = q"
proof -
  have le: "phase_le a b \<Longrightarrow> a = b \<or> phase_rank a < phase_rank b" for a b
    by (induction rule: rtranclp_induct) (auto dest: phase_step_rank)
  assume "phase_le p q" and "phase_le q p"
  from le [OF this(1)] le [OF this(2)] show ?thesis by auto
qed

end
