(* ===== verification/Pairing_Model.thy ===== *)
theory Pairing_Model
  imports Wake_Model
begin

text \<open>
  The in-memory state of \<open>crates/rdesk_server/src/wake/pairing.rs\<close>: enrollment sessions keyed by
  id, and per-account counters that limit creations and failed proofs.
\<close>

definition TTL :: ms where "TTL = 300000"

definition ALPHABET :: string where
  "ALPHABET = ''ABCDEFGHJKLMNPQRSTUVWXYZ23456789''"

record limit =
  lm_since :: ms
  lm_creates :: u8
  lm_failures :: u8

record pairing =
  pg_owner :: string
  pg_creator :: string
  pg_name :: string
  pg_device_id :: string
  pg_mac :: string
  pg_qr_hash :: string
  pg_desktop_hash :: string
  pg_manual_hash :: string
  pg_expires :: ms
  pg_confirmed :: bool
  pg_cancelled :: bool
  pg_claimed :: "(string \<times> string) option"

record pairing_runtime =
  prt_sessions :: "(string, pairing) hmap"
  prt_limits :: "(string, limit) hmap"

definition pairing_default :: pairing_runtime where
  "pairing_default = \<lparr>prt_sessions = hempty, prt_limits = hempty\<rparr>"

definition limits_fresh :: "ms \<Rightarrow> (string, limit) hmap \<Rightarrow> (string, limit) hmap" where
  "limits_fresh now = hretain (\<lambda>_ l. now - lm_since l < TTL)"

definition pairing_prune :: "ms \<Rightarrow> pairing_runtime \<Rightarrow> pairing_runtime" where
  "pairing_prune now rt =
     rt\<lparr>prt_sessions := hretain (\<lambda>_ p. now < pg_expires p) (prt_sessions rt),
        prt_limits := limits_fresh now (prt_limits rt)\<rparr>"

text \<open>
  \<open>PairingRuntime::limit\<close> hands out a mutable reference to the owner's counters.  Here it returns
  the counters and the runtime in which they are stored; a caller writes them back with
  \<open>set_limit\<close>.  On error the stale counters have already been dropped.
\<close>

definition pairing_limit ::
  "string \<Rightarrow> ms \<Rightarrow> pairing_runtime \<Rightarrow> limit wake_result \<times> pairing_runtime" where
  "pairing_limit owner now rt =
     (let ls = limits_fresh now (prt_limits rt) in
      if \<not> hhas ls owner \<and> 2000 \<le> length (hlist ls)
      then (Inl ''rate_limited'', rt\<lparr>prt_limits := ls\<rparr>)
      else (let l = hor_default \<lparr>lm_since = now, lm_creates = 0, lm_failures = 0\<rparr> owner ls
            in (Inr l, rt\<lparr>prt_limits := hput owner l ls\<rparr>)))"

definition set_limit :: "string \<Rightarrow> limit \<Rightarrow> pairing_runtime \<Rightarrow> pairing_runtime" where
  "set_limit owner l rt = rt\<lparr>prt_limits := hput owner l (prt_limits rt)\<rparr>"

text \<open>\<open>equal\<close>: the comparison of hashes that looks at every byte.\<close>

fun or_of_xors :: "u8 \<Rightarrow> (u8 \<times> u8) list \<Rightarrow> u8" where
  "or_of_xors n [] = n"
| "or_of_xors n ((a, b) # ps) = or_of_xors (n OR (a XOR b)) ps"

definition ct_equal :: "string \<Rightarrow> string \<Rightarrow> bool" where
  "ct_equal a b \<longleftrightarrow> length a = length b \<and> or_of_xors 0 (zip (str_bytes a) (str_bytes b)) = 0"

definition valid_proof :: "string \<Rightarrow> bool" where
  "valid_proof p \<longleftrightarrow> length p = 64 \<and> (\<forall>c \<in> set p. is_ascii_hexdigit c)"

definition manual :: "string \<Rightarrow> string option" where
  "manual raw =
     (let code = map to_ascii_upper raw in
      if length code = 16 \<and> (\<forall>c \<in> set code. c \<in> set ALPHABET) then Some code else None)"

section \<open>The constant-time comparison is equality\<close>

lemma word_or_eq_0: "(a :: 'a::len word) OR b = 0 \<longleftrightarrow> a = 0 \<and> b = 0"
  by (simp add: or_eq_0_iff)

lemma word_xor_eq_0: "(a :: 'a::len word) XOR b = 0 \<longleftrightarrow> a = b"
  by (auto simp: bit_eq_iff bit_simps)

lemma or_of_xors_0: "or_of_xors n ps = 0 \<longleftrightarrow> n = 0 \<and> (\<forall>(a, b) \<in> set ps. a = b)"
  by (induction n ps rule: or_of_xors.induct) (auto simp: word_or_eq_0 word_xor_eq_0)

lemma zip_all_eq: "length xs = length ys \<Longrightarrow> (\<forall>(a, b) \<in> set (zip xs ys). a = b) \<longleftrightarrow> xs = ys"
  by (induction xs ys rule: list_induct2) auto

lemma ct_equal_iff [simp]: "ct_equal a b \<longleftrightarrow> a = b"
  unfolding ct_equal_def or_of_xors_0
  using zip_all_eq [of "str_bytes a" "str_bytes b"] by auto

section \<open>Limits\<close>

lemma pairing_limit_ok:
  assumes "pairing_limit owner now rt = (Inr l, rt')"
  shows "hget (prt_limits rt') owner = Some l"
    and "prt_sessions rt' = prt_sessions rt"
    and "now - lm_since l < TTL"
  using assms
  by (auto simp: pairing_limit_def Let_def limits_fresh_def hor_default_def hhas_def TTL_def
      split: if_splits option.splits)

end
