(* ===== verification/Relay_State.thy ===== *)
theory Relay_State
  imports Pairing_Model
begin

text \<open>
  The state of the relay server, \<open>crates/rdesk_server/src/main.rs\<close>: the records behind the shared
  maps of \<open>AppState\<close>, the requests, the responses, the constants and the three credential
  checks (viewer session, host token, account session) that every handler starts with.

  Conventions.  A handler takes the reading of the clock \<open>now\<close> and the fresh tokens it draws as
  arguments, and returns its response with the new state.  Code between two suspension points
  (\<open>await\<close>) is one step and reads one clock value.  Where a handler suspends, its definition
  is split at that point, or takes the interference of the other handlers as a function argument.
\<close>

section \<open>Constants\<close>

definition PREVIEW_TTL_MS :: ms where "PREVIEW_TTL_MS = 30000"
definition ACCOUNT_PRESENCE_TTL_MS :: ms where "ACCOUNT_PRESENCE_TTL_MS = 75000"
definition SCREEN_LEASE_MS :: ms where "SCREEN_LEASE_MS = 10000"
definition VIEWER_SESSION_TTL_MS :: ms where "VIEWER_SESSION_TTL_MS = 30 * 60 * 1000"
definition COMMAND_TTL_MS :: ms where "COMMAND_TTL_MS = 15000"
definition FILE_MAX_BYTES :: nat where "FILE_MAX_BYTES = 50 * 1024 * 1024"
definition FILE_STORE_MAX_BYTES :: nat where "FILE_STORE_MAX_BYTES = 150 * 1024 * 1024"
definition HOST_COMMAND_LONG_POLL :: ms where "HOST_COMMAND_LONG_POLL = 5000"
definition HOST_COMMAND_POLL_TICK :: ms where "HOST_COMMAND_POLL_TICK = 15"
definition AUTH_SESSION_TTL_MS :: ms where "AUTH_SESSION_TTL_MS = 30 * 24 * 60 * 60 * 1000"
definition MIN_PASSWORD_LEN :: nat where "MIN_PASSWORD_LEN = 6"
definition FILE_BLOB_TTL_MS :: ms where "FILE_BLOB_TTL_MS = 300000"

lemmas relay_constants =
  PREVIEW_TTL_MS_def ACCOUNT_PRESENCE_TTL_MS_def SCREEN_LEASE_MS_def VIEWER_SESSION_TTL_MS_def
  COMMAND_TTL_MS_def FILE_MAX_BYTES_def FILE_STORE_MAX_BYTES_def HOST_COMMAND_LONG_POLL_def
  HOST_COMMAND_POLL_TICK_def AUTH_SESSION_TTL_MS_def MIN_PASSWORD_LEN_def FILE_BLOB_TTL_MS_def

section \<open>JSON values, headers, responses\<close>

text \<open>A \<open>serde_json::Value\<close>; a float is its IEEE bit pattern.\<close>

datatype json =
  JNull | JBool bool | JInt int | JFloat u64 | JStr string
| JArr "json list" | JObj "(string \<times> json) list"

text \<open>The user-visible messages, Chinese sentences in the source, named after their meaning.\<close>

datatype message =
  MsgUsernameEmpty | MsgPasswordTooShort | MsgAccountExists | MsgPasswordProcessing
| MsgSaveAccountFailed | MsgBadCredentials | MsgSessionInvalid | MsgWrongPassword
| MsgDeleteFailed | MsgDeviceIdEmpty | MsgBadFileName | MsgMissingLength | MsgFileTooLarge
| MsgNoSpace | MsgIncompleteUpload | MsgNone

text \<open>A response: 200 with a body, a bare status, or a status with an \<open>ErrorResponse\<close>.\<close>

datatype 'b response = Ok_with 'b | Status nat | Error_msg nat message

fun response_status :: "'b response \<Rightarrow> nat" where
  "response_status (Ok_with _) = 200"
| "response_status (Status n) = n"
| "response_status (Error_msg n _) = n"

definition error_response :: "nat \<Rightarrow> message \<Rightarrow> 'b response" where
  "error_response status message = Error_msg status message"

text \<open>
  A header map holds bytes; \<open>HeaderValue::to_str\<close> succeeds on visible ASCII (and tab), and
  \<open>HeaderValue::from_str\<close> refuses control characters.
\<close>

type_synonym header_map = "(string, string) hmap"

definition header_to_str :: "string \<Rightarrow> string option" where
  "header_to_str v =
     (if \<forall>c \<in> set v. (32 \<le> ord c \<and> ord c < 127) \<or> ord c = 9 then Some v else None)"

definition insert_header :: "string \<Rightarrow> string \<Rightarrow> header_map \<Rightarrow> header_map" where
  "insert_header name v h =
     (if \<forall>c \<in> set v. (32 \<le> ord c \<and> ord c \<noteq> 127) \<or> ord c = 9 then hput name v h else h)"

definition header_str :: "header_map \<Rightarrow> string \<Rightarrow> string option" where
  "header_str h name = Option.bind (hget h name) header_to_str"

section \<open>Records\<close>

record ws_frame =
  wf_bytes :: bytes
  wf_width :: u32
  wf_height :: u32
  wf_captured_at_ms :: ms
  wf_relay_received_at_ms :: ms

record file_blob =
  fb_data :: bytes
  fb_filename :: string
  fb_created_at_ms :: ms
  fb_device_id :: string

record preview_registration =
  pr_device_id :: string
  pr_user_id :: "string option"
  pr_platform :: string
  pr_hostname :: string
  pr_password_hash :: string
  pr_auto_accept :: bool
  pr_trusted_viewers :: "string list"
  pr_host_token :: string
  pr_on_demand_capture :: bool
  pr_updated_at_ms :: ms

record account_presence_rec =
  ap_device_id :: string
  ap_user_id :: string
  ap_platform :: string
  ap_hostname :: string
  ap_can_host :: bool
  ap_updated_at_ms :: ms

record frame_snapshot =
  fs_bytes :: bytes
  fs_width :: u32
  fs_height :: u32
  fs_captured_at_ms :: ms
  fs_relay_received_at_ms :: ms
  fs_updated_at_ms :: ms

text \<open>A lease of the screen: the key names the transport, the value its token and expiry.\<close>

record screen_demand =
  sd_epoch :: nat
  sd_viewers :: "(string, string \<times> ms) hmap"

definition demand_default :: screen_demand where
  "demand_default = \<lparr>sd_epoch = 0, sd_viewers = hempty\<rparr>"

record viewer_session =
  vs_device_id :: string
  vs_last_seen_ms :: ms

record user_record =
  ur_user_id :: string
  ur_username :: string
  ur_display_name :: string
  ur_password_hash :: string
  ur_created_at_ms :: ms
  ur_wake :: wake_account_data

record auth_session =
  au_user_id :: string
  au_last_seen_ms :: ms

record pending_command =
  pc_command_id :: string
  pc_kind :: string
  pc_payload :: json
  pc_queued_at_ms :: ms

record command_result =
  cr_ok :: bool
  cr_text :: "string option"

section \<open>The shared state\<close>

record wake_runtime =
  wk_pairings :: pairing_runtime
  wk_agents :: "(string, ms) hmap"
  wk_targets :: "(string, ms) hmap"

text \<open>Files the server writes: a complete user or session snapshot, or a torn one.\<close>

datatype file_content =
  Users_file "user_record list" | Sessions_file "(string \<times> auth_session) list" | Torn

text \<open>
  \<open>AppState\<close>.  The sending half of a oneshot channel is an entry of \<open>command_waiters\<close>; what has
  been sent on it and not yet been received is in \<open>oneshots\<close>.  A broadcast channel is the list of
  the frames sent on it.  \<open>files\<close> is the part of the file system the server writes.
\<close>

record app_state =
  wake_rt :: wake_runtime
  previews :: "(string, preview_registration) hmap"
  account_presence :: "(string, account_presence_rec) hmap"
  frames :: "(string, frame_snapshot) hmap"
  viewer_sessions :: "(string, viewer_session) hmap"
  screen_demands :: "(string, screen_demand) hmap"
  command_queues :: "(string, pending_command list) hmap"
  command_waiters :: "(string, unit) hmap"
  oneshots :: "(string, command_result) hmap"
  users :: "(string, user_record) hmap"
  username_index :: "(string, string) hmap"
  auth_sessions :: "(string, auth_session) hmap"
  user_store_path :: string
  frame_broadcasters :: "(string, ws_frame list) hmap"
  ws_host_cmd_tx :: "(string, json list) hmap"
  file_store :: "(string, file_blob) hmap"
  file_bytes :: u64
  files :: "(string, file_content) hmap"

definition app_state_new :: "string \<Rightarrow> (string, file_content) hmap \<Rightarrow> app_state" where
  "app_state_new path fs =
     \<lparr>wake_rt = \<lparr>wk_pairings = pairing_default, wk_agents = hempty, wk_targets = hempty\<rparr>,
      previews = hempty, account_presence = hempty, frames = hempty, viewer_sessions = hempty,
      screen_demands = hempty, command_queues = hempty, command_waiters = hempty,
      oneshots = hempty, users = hempty, username_index = hempty, auth_sessions = hempty,
      user_store_path = path, frame_broadcasters = hempty, ws_host_cmd_tx = hempty,
      file_store = hempty, file_bytes = 0, files = fs\<rparr>"

definition get_or_create_broadcaster :: "string \<Rightarrow> app_state \<Rightarrow> ws_frame list \<times> app_state" where
  "get_or_create_broadcaster device_id s =
     (let b = hor_default [] device_id (frame_broadcasters s)
      in (b, s\<lparr>frame_broadcasters := hput device_id b (frame_broadcasters s)\<rparr>))"

end
