(* ===== verification/Relay_Auth.thy ===== *)
theory Relay_Auth
  imports Relay_State
begin

text \<open>
  The credential checks of \<open>main.rs\<close>: freshness, viewer sessions (bound to one device), host tokens,
  bearer tokens and account sessions.  A successful check of a session renews it.
\<close>

definition is_fresh :: "ms \<Rightarrow> ms \<Rightarrow> ms \<Rightarrow> bool" where
  "is_fresh now updated_at_ms ttl_ms \<longleftrightarrow> now - updated_at_ms \<le> ttl_ms"

definition validate_viewer :: "ms \<Rightarrow> string \<Rightarrow> string \<Rightarrow> app_state \<Rightarrow> bool \<times> app_state" where
  "validate_viewer now device_id token s =
     (case hget (viewer_sessions s) token of
        None \<Rightarrow> (False, s)
      | Some session \<Rightarrow>
          if vs_device_id session \<noteq> device_id
             \<or> \<not> is_fresh now (vs_last_seen_ms session) VIEWER_SESSION_TTL_MS
          then (False, s)
          else (True, s\<lparr>viewer_sessions :=
                 hput token (session\<lparr>vs_last_seen_ms := now\<rparr>) (viewer_sessions s)\<rparr>))"

definition validate_host :: "ms \<Rightarrow> string \<Rightarrow> string \<Rightarrow> app_state \<Rightarrow> bool" where
  "validate_host now device_id host_token s \<longleftrightarrow>
     (case hget (previews s) device_id of
        None \<Rightarrow> False
      | Some preview \<Rightarrow>
          pr_host_token preview = host_token \<and>
          is_fresh now (pr_updated_at_ms preview) PREVIEW_TTL_MS)"

definition parse_bearer_token :: "string \<Rightarrow> string option" where
  "parse_bearer_token value =
     (case (case strip_prefix ''Bearer '' value of
              Some t \<Rightarrow> Some t
            | None \<Rightarrow> strip_prefix ''bearer '' value) of
        None \<Rightarrow> None
      | Some token \<Rightarrow> if token = [] then None else Some token)"

definition validate_auth_session :: "ms \<Rightarrow> string \<Rightarrow> app_state \<Rightarrow> string option \<times> app_state" where
  "validate_auth_session now token s =
     (case hget (auth_sessions s) token of
        None \<Rightarrow> (None, s)
      | Some session \<Rightarrow>
          if \<not> is_fresh now (au_last_seen_ms session) AUTH_SESSION_TTL_MS then (None, s)
          else (Some (au_user_id session),
                s\<lparr>auth_sessions :=
                   hput token (session\<lparr>au_last_seen_ms := now\<rparr>) (auth_sessions s)\<rparr>))"

definition bearer_of :: "header_map \<Rightarrow> string option" where
  "bearer_of headers = Option.bind (header_str headers ''authorization'') parse_bearer_token"

definition authenticated_user ::
  "ms \<Rightarrow> header_map \<Rightarrow> app_state \<Rightarrow> user_record option \<times> app_state" where
  "authenticated_user now headers s =
     (case bearer_of headers of
        None \<Rightarrow> (None, s)
      | Some token \<Rightarrow>
          (case validate_auth_session now token s of
             (None, s1) \<Rightarrow> (None, s1)
           | (Some user_id, s1) \<Rightarrow> (hget (users s1) user_id, s1)))"

text \<open>\<open>request.auth_token.as_deref().and_then(|token| validate_auth_session(&state, token))\<close>\<close>

definition validate_auth_token :: "ms \<Rightarrow> string option \<Rightarrow> app_state \<Rightarrow> string option \<times> app_state" where
  "validate_auth_token now auth_token s =
     (case auth_token of None \<Rightarrow> (None, s) | Some t \<Rightarrow> validate_auth_session now t s)"

definition host_on_demand :: "string \<Rightarrow> app_state \<Rightarrow> bool" where
  "host_on_demand device_id s \<longleftrightarrow>
     (case hget (previews s) device_id of None \<Rightarrow> False | Some h \<Rightarrow> pr_on_demand_capture h)"

section \<open>What a check says about the state\<close>

text \<open>
  Each check is its verdict together with one updated table, so that the fields it leaves alone are
  read through it by simplification.
\<close>

definition viewer_ok :: "ms \<Rightarrow> string \<Rightarrow> string \<Rightarrow> app_state \<Rightarrow> bool" where
  "viewer_ok now d tok s \<longleftrightarrow>
     (\<exists>v. hget (viewer_sessions s) tok = Some v \<and> vs_device_id v = d \<and>
          now - vs_last_seen_ms v \<le> VIEWER_SESSION_TTL_MS)"

definition viewers_touched ::
  "ms \<Rightarrow> string \<Rightarrow> string \<Rightarrow> app_state \<Rightarrow> (string, viewer_session) hmap" where
  "viewers_touched now d tok s =
     (case hget (viewer_sessions s) tok of
        None \<Rightarrow> viewer_sessions s
      | Some v \<Rightarrow> if viewer_ok now d tok s then hput tok (v\<lparr>vs_last_seen_ms := now\<rparr>) (viewer_sessions s)
                  else viewer_sessions s)"

definition auth_ok :: "ms \<Rightarrow> string \<Rightarrow> app_state \<Rightarrow> string option" where
  "auth_ok now tok s =
     (case hget (auth_sessions s) tok of
        None \<Rightarrow> None
      | Some a \<Rightarrow> if now - au_last_seen_ms a \<le> AUTH_SESSION_TTL_MS then Some (au_user_id a) else None)"

definition auth_touched :: "ms \<Rightarrow> string \<Rightarrow> app_state \<Rightarrow> (string, auth_session) hmap" where
  "auth_touched now tok s =
     (case hget (auth_sessions s) tok of
        None \<Rightarrow> auth_sessions s
      | Some a \<Rightarrow> if auth_ok now tok s \<noteq> None then hput tok (a\<lparr>au_last_seen_ms := now\<rparr>) (auth_sessions s)
                  else auth_sessions s)"

lemma app_state_update_id [simp]:
  "s\<lparr>viewer_sessions := viewer_sessions s\<rparr> = (s :: app_state)"
  "s\<lparr>auth_sessions := auth_sessions s\<rparr> = (s :: app_state)"
  by simp_all

lemma validate_viewer_eq:
  "validate_viewer now d tok s =
     (viewer_ok now d tok s, s\<lparr>viewer_sessions := viewers_touched now d tok s\<rparr>)"
proof (cases "hget (viewer_sessions s) tok")
  case None
  then show ?thesis by (simp add: validate_viewer_def viewer_ok_def viewers_touched_def)
next
  case (Some v)
  then show ?thesis
    by (auto simp: validate_viewer_def viewer_ok_def viewers_touched_def is_fresh_def)
qed

lemma validate_auth_session_eq:
  "validate_auth_session now tok s =
     (auth_ok now tok s, s\<lparr>auth_sessions := auth_touched now tok s\<rparr>)"
proof (cases "hget (auth_sessions s) tok")
  case None
  then show ?thesis by (simp add: validate_auth_session_def auth_ok_def auth_touched_def)
next
  case (Some a)
  then show ?thesis
    by (auto simp: validate_auth_session_def auth_ok_def auth_touched_def is_fresh_def)
qed

definition auth_token_ok :: "ms \<Rightarrow> string option \<Rightarrow> app_state \<Rightarrow> string option" where
  "auth_token_ok now t s = Option.bind t (\<lambda>tok. auth_ok now tok s)"

definition auth_token_touched :: "ms \<Rightarrow> string option \<Rightarrow> app_state \<Rightarrow> (string, auth_session) hmap" where
  "auth_token_touched now t s =
     (case t of None \<Rightarrow> auth_sessions s | Some tok \<Rightarrow> auth_touched now tok s)"

lemma validate_auth_token_eq:
  "validate_auth_token now t s =
     (auth_token_ok now t s, s\<lparr>auth_sessions := auth_token_touched now t s\<rparr>)"
  by (cases t) (auto simp: validate_auth_token_def auth_token_ok_def auth_token_touched_def
      validate_auth_session_eq)

definition account_ok :: "ms \<Rightarrow> header_map \<Rightarrow> app_state \<Rightarrow> user_record option" where
  "account_ok now h s =
     Option.bind (auth_token_ok now (bearer_of h) s) (hget (users s))"

lemma authenticated_user_eq:
  "authenticated_user now h s =
     (account_ok now h s, s\<lparr>auth_sessions := auth_token_touched now (bearer_of h) s\<rparr>)"
  by (cases "bearer_of h")
    (auto simp: authenticated_user_def account_ok_def auth_token_ok_def auth_token_touched_def
      validate_auth_session_eq split: option.splits)

lemmas check_eqs =
  validate_viewer_eq validate_auth_session_eq validate_auth_token_eq authenticated_user_eq

lemma hget_viewers_touched:
  "hget (viewers_touched now d tok s) t =
     (case hget (viewer_sessions s) t of
        None \<Rightarrow> None
      | Some v \<Rightarrow> Some (if t = tok \<and> viewer_ok now d tok s then v\<lparr>vs_last_seen_ms := now\<rparr> else v))"
  by (auto simp: viewers_touched_def split: option.splits)

lemma hhas_viewers_touched [simp]:
  "hhas (viewers_touched now d tok s) t \<longleftrightarrow> hhas (viewer_sessions s) t"
  by (simp add: hhas_def hget_viewers_touched split: option.splits)

lemma hget_auth_touched:
  "hget (auth_touched now tok s) t =
     (case hget (auth_sessions s) t of
        None \<Rightarrow> None
      | Some a \<Rightarrow> Some (if t = tok \<and> auth_ok now tok s \<noteq> None then a\<lparr>au_last_seen_ms := now\<rparr> else a))"
  by (auto simp: auth_touched_def split: option.splits)

lemma validate_host_iff:
  "validate_host now d ht s \<longleftrightarrow>
     (\<exists>p. hget (previews s) d = Some p \<and> pr_host_token p = ht \<and>
          now - pr_updated_at_ms p \<le> PREVIEW_TTL_MS)"
  by (auto simp: validate_host_def is_fresh_def split: option.splits)

lemma host_on_demand_iff:
  "host_on_demand d s \<longleftrightarrow> (\<exists>p. hget (previews s) d = Some p \<and> pr_on_demand_capture p)"
  by (auto simp: host_on_demand_def split: option.splits)

lemma parse_bearer_token_Bearer [simp]:
  "tok \<noteq> [] \<Longrightarrow> parse_bearer_token (''Bearer '' @ tok) = Some tok"
  by (simp add: parse_bearer_token_def strip_prefix_def)

lemma parse_bearer_token_Some:
  "parse_bearer_token v = Some t \<Longrightarrow>
     t \<noteq> [] \<and> (v = ''Bearer '' @ t \<or> v = ''bearer '' @ t)"
  by (auto simp: parse_bearer_token_def strip_prefix_Some split: option.splits if_splits)

end
