(* ===== verification/Wake_Store.thy ===== *)
theory Wake_Store
  imports Relay_Auth
begin

text \<open>
  The account database on disk: \<open>wake/store.rs\<close>, and the loading and saving functions of \<open>main.rs\<close>.
  A snapshot of all users is written to a temporary file that is renamed over the database, so a
  failure or a crash at any point leaves either the old or the new database.  JSON encoding is the
  library's: a file holds the value that was written to it, or is torn.
\<close>

section \<open>Writing the user database\<close>

text \<open>Where a write may fail.  \<open>No_fault\<close>: every system call succeeds.\<close>

datatype write_fault = No_fault | At_create_dir | At_open | At_write | At_sync | At_rename

definition set_file :: "string \<Rightarrow> file_content \<Rightarrow> app_state \<Rightarrow> app_state" where
  "set_file path c s = s\<lparr>files := hput path c (files s)\<rparr>"

definition remove_file :: "string \<Rightarrow> app_state \<Rightarrow> app_state" where
  "remove_file path s = s\<lparr>files := hrem path (files s)\<rparr>"

definition rename_file :: "string \<Rightarrow> string \<Rightarrow> app_state \<Rightarrow> app_state" where
  "rename_file src dst s =
     (case hget (files s) src of
        None \<Rightarrow> s
      | Some c \<Rightarrow> s\<lparr>files := hput dst c (hrem src (files s))\<rparr>)"

text \<open>
  The states a write passes through, in order: the temporary file created, partly written, complete
  (and synced), renamed.  A crash leaves the files of one of them.
\<close>

definition write_steps :: "string \<Rightarrow> user_record list \<Rightarrow> app_state \<Rightarrow> app_state list" where
  "write_steps tmp us s =
     [s,
      set_file tmp Torn s,
      set_file tmp (Users_file us) (set_file tmp Torn s),
      rename_file tmp (user_store_path s) (set_file tmp (Users_file us) (set_file tmp Torn s))]"

text \<open>
  The call itself; \<open>tmp\<close> is the fresh name of the temporary file.  Creating the directory fails
  before the clean-up is in force; after any later failure the temporary file is removed.
\<close>

definition write_user_snapshot ::
  "write_fault \<Rightarrow> string \<Rightarrow> user_record list \<Rightarrow> app_state \<Rightarrow> bool \<times> app_state" where
  "write_user_snapshot fault tmp us s =
     (case fault of
        At_create_dir \<Rightarrow> (False, s)
      | At_open \<Rightarrow> (False, remove_file tmp s)
      | At_write \<Rightarrow> (False, remove_file tmp (set_file tmp Torn s))
      | At_sync \<Rightarrow> (False, remove_file tmp (set_file tmp (Users_file us) (set_file tmp Torn s)))
      | At_rename \<Rightarrow> (False, remove_file tmp (set_file tmp (Users_file us) (set_file tmp Torn s)))
      | No_fault \<Rightarrow>
          (True, rename_file tmp (user_store_path s)
                   (set_file tmp (Users_file us) (set_file tmp Torn s))))"

definition persist_users :: "write_fault \<Rightarrow> string \<Rightarrow> app_state \<Rightarrow> bool \<times> app_state" where
  "persist_users fault tmp s = write_user_snapshot fault tmp (hvalues (users s)) s"

section \<open>One account's wake data\<close>

definition find_user :: "string \<Rightarrow> user_record list \<Rightarrow> user_record option" where
  "find_user user_id = List.find (\<lambda>u. ur_user_id u = user_id)"

text \<open>\<open>iter_mut().find(..)\<close>: the first match is the one that changes.\<close>

fun replace_user :: "string \<Rightarrow> user_record \<Rightarrow> user_record list \<Rightarrow> user_record list" where
  "replace_user user_id u' [] = []"
| "replace_user user_id u' (u # us) =
     (if ur_user_id u = user_id then u' # us else u # replace_user user_id u' us)"

definition update_wake ::
  "ms \<Rightarrow> write_fault \<Rightarrow> string \<Rightarrow> string \<Rightarrow>
   (wake_account_data \<Rightarrow> wake_error + 'a \<times> wake_account_data) \<Rightarrow> app_state \<Rightarrow>
     'a wake_result \<times> app_state" where
  "update_wake now fault tmp user_id mutation s =
     (let snapshot = hvalues (users s) in
      case find_user user_id snapshot of
        None \<Rightarrow> (Inl ''not_found'', s)
      | Some user \<Rightarrow>
          (case mutation (ur_wake user) of
             Inl e \<Rightarrow> (Inl e, s)
           | Inr (value, wake) \<Rightarrow>
               let updated = user\<lparr>ur_wake := wake_prune now wake\<rparr>;
                   (ok, s1) = write_user_snapshot fault tmp (replace_user user_id updated snapshot) s
               in if \<not> ok then (Inl ''storage'', s1)
                  else (Inr value, s1\<lparr>users := hput user_id updated (users s1)\<rparr>)))"

section \<open>Loading and the session file\<close>

text \<open>\<open>None\<close>: the file exists and does not parse, and the server does not start.\<close>

definition load_users :: "ms \<Rightarrow> app_state \<Rightarrow> app_state option" where
  "load_users now s =
     (case hget (files s) (user_store_path s) of
        None \<Rightarrow> Some s
      | Some (Users_file us) \<Rightarrow>
          Some (fold (\<lambda>user s.
            let user = user\<lparr>ur_wake := recover_after_restart now (ur_wake user)\<rparr>
            in s\<lparr>username_index := hput (ur_username user) (ur_user_id user) (username_index s),
                 users := hput (ur_user_id user) user (users s)\<rparr>) us s)
      | Some _ \<Rightarrow> None)"

text \<open>\<open>Path::with_file_name\<close>, for a path whose last component is a plain name.\<close>

definition auth_sessions_path :: "string \<Rightarrow> string" where
  "auth_sessions_path p =
     take (length p - length (after_last (\<lambda>c. c = CHR ''/'') p)) p @ ''auth_sessions.json''"

definition load_auth_sessions :: "ms \<Rightarrow> app_state \<Rightarrow> bool \<times> app_state" where
  "load_auth_sessions now s =
     (case hget (files s) (auth_sessions_path (user_store_path s)) of
        None \<Rightarrow> (True, s)
      | Some (Sessions_file sessions) \<Rightarrow>
          (True, fold (\<lambda>(token, session) s.
             if now - au_last_seen_ms session \<le> AUTH_SESSION_TTL_MS
             then s\<lparr>auth_sessions := hput token session (auth_sessions s)\<rparr> else s) sessions s)
      | Some _ \<Rightarrow> (False, s))"

text \<open>Sessions are written in place: a failure in the middle tears the file.\<close>

definition persist_auth_sessions :: "write_fault \<Rightarrow> app_state \<Rightarrow> bool \<times> app_state" where
  "persist_auth_sessions fault s =
     (let path = auth_sessions_path (user_store_path s) in
      case fault of
        At_create_dir \<Rightarrow> (False, s)
      | At_open \<Rightarrow> (False, s)
      | No_fault \<Rightarrow> (True, set_file path (Sessions_file (hlist (auth_sessions s))) s)
      | _ \<Rightarrow> (False, set_file path Torn s))"

text \<open>Start-up, \<open>main\<close> up to the router: load, write back, load the sessions.\<close>

definition start_server ::
  "ms \<Rightarrow> write_fault \<Rightarrow> string \<Rightarrow> string \<Rightarrow> (string, file_content) hmap \<Rightarrow> app_state option" where
  "start_server now fault tmp path disk =
     (case load_users now (app_state_new path disk) of
        None \<Rightarrow> None
      | Some s \<Rightarrow>
          (case persist_users fault tmp s of
             (False, _) \<Rightarrow> None
           | (True, s) \<Rightarrow> Some (snd (load_auth_sessions now s))))"

section \<open>What a write does\<close>

lemma file_ops_fields [simp]:
  "users (snd (write_user_snapshot fault tmp us s)) = users s"
  "username_index (snd (write_user_snapshot fault tmp us s)) = username_index s"
  "auth_sessions (snd (write_user_snapshot fault tmp us s)) = auth_sessions s"
  "account_presence (snd (write_user_snapshot fault tmp us s)) = account_presence s"
  "user_store_path (snd (write_user_snapshot fault tmp us s)) = user_store_path s"
  "previews (snd (write_user_snapshot fault tmp us s)) = previews s"
  "wake_rt (snd (write_user_snapshot fault tmp us s)) = wake_rt s"
  by (simp_all add: write_user_snapshot_def set_file_def remove_file_def rename_file_def
      split: write_fault.split option.split)

lemma write_user_snapshot_eq:
  assumes "tmp \<noteq> user_store_path s" and "write_user_snapshot fault tmp us s = (ok, s')"
  shows "ok \<longleftrightarrow> fault = No_fault"
    and "s' = s\<lparr>files := files s'\<rparr>"
    and "hget (files s') (user_store_path s) =
           (if ok then Some (Users_file us) else hget (files s) (user_store_path s))"
    and "p \<noteq> tmp \<Longrightarrow> p \<noteq> user_store_path s \<Longrightarrow> hget (files s') p = hget (files s) p"
    and "fault \<noteq> At_create_dir \<Longrightarrow> hget (files s') tmp = None"
  using assms
  by (auto simp: write_user_snapshot_def set_file_def remove_file_def rename_file_def
      split: write_fault.splits)

text \<open>The users in memory and a list of records, as sets; and the database in step with memory.\<close>

definition represents :: "user_record list \<Rightarrow> (string, user_record) hmap \<Rightarrow> bool" where
  "represents us m \<longleftrightarrow>
     distinct (map ur_user_id us) \<and> (\<forall>k u. hget m k = Some u \<longleftrightarrow> u \<in> set us \<and> ur_user_id u = k)"

definition users_keyed :: "app_state \<Rightarrow> bool" where
  "users_keyed s \<longleftrightarrow> (\<forall>k u. hget (users s) k = Some u \<longrightarrow> ur_user_id u = k)"

definition store_synced :: "app_state \<Rightarrow> bool" where
  "store_synced s \<longleftrightarrow>
     (\<exists>us. hget (files s) (user_store_path s) = Some (Users_file us) \<and> represents us (users s))"

lemma represents_hvalues: "users_keyed s \<Longrightarrow> represents (hvalues (users s)) (users s)"
proof -
  assume k: "users_keyed s"
  have "ur_user_id u = i" if "(i, u) \<in> set (hlist (users s))" for i u
    using that k by (simp add: hlist_hget users_keyed_def)
  then have eq: "map (ur_user_id \<circ> snd) (hlist (users s)) = map fst (hlist (users s))"
    by (auto intro!: map_cong)
  have "distinct (map ur_user_id (hvalues (users s)))"
    unfolding hvalues_def map_map eq by (rule DAList.impl_of_distinct)
  moreover have "hget (users s) i = Some u \<longleftrightarrow> u \<in> set (hvalues (users s)) \<and> ur_user_id u = i" for i u
    using k by (auto simp: hvalues_hget users_keyed_def)
  ultimately show ?thesis by (simp add: represents_def)
qed

lemma find_user_Some:
  "find_user i us = Some u \<Longrightarrow> u \<in> set us \<and> ur_user_id u = i"
  by (auto simp: find_user_def find_Some_iff)

lemma find_user_represents:
  assumes "represents us m"
  shows "find_user i us = hget m i"
proof (cases "hget m i")
  case None
  have "ur_user_id x \<noteq> i" if "x \<in> set us" for x
  proof
    assume "ur_user_id x = i"
    with that assms have "hget m i = Some x" by (simp add: represents_def)
    with None show False by simp
  qed
  with None show ?thesis by (simp add: find_user_def find_None_iff)
next
  case (Some u)
  then have u: "u \<in> set us" "ur_user_id u = i" and d: "distinct (map ur_user_id us)"
    using assms by (auto simp: represents_def)
  from u have "find_user i us \<noteq> None"
    by (auto simp: find_user_def find_None_iff)
  then obtain v where v: "find_user i us = Some v" by blast
  with find_user_Some [OF v] u d have "v = u"
    by (simp add: distinct_map inj_on_def)
  with v Some show ?thesis by simp
qed

lemma replace_user_facts:
  assumes "distinct (map ur_user_id us)" "u \<in> set us" "ur_user_id u = i" "ur_user_id u' = i"
  shows "map ur_user_id (replace_user i u' us) = map ur_user_id us"
    and "set (replace_user i u' us) = insert u' (set us - {u})"
  using assms by (induction us) auto

lemma represents_replace:
  assumes "represents us m" "hget m i = Some u" "ur_user_id u' = i"
  shows "represents (replace_user i u' us) (hput i u' m)"
proof -
  have u: "u \<in> set us" "ur_user_id u = i" "distinct (map ur_user_id us)"
    using assms by (auto simp: represents_def)
  note r = replace_user_facts [OF u(3,1,2) assms(3)]
  have "v = u" if "v \<in> set us" "ur_user_id v = i" for v
    using that u by (auto simp: distinct_map inj_on_def)
  with assms u(3) show ?thesis
    unfolding represents_def r by (auto simp: represents_def)
qed

lemma represents_remove:
  "represents us m \<Longrightarrow> represents (filter (\<lambda>u. ur_user_id u \<noteq> i) us) (hrem i m)"
  by (auto simp: represents_def distinct_map_filter)

lemma represents_add:
  "represents us m \<Longrightarrow> hget m (ur_user_id u) = None \<Longrightarrow>
   represents (us @ [u]) (hput (ur_user_id u) u m)"
  unfolding represents_def
proof (intro conjI allI)
  assume r: "distinct (map ur_user_id us) \<and> (\<forall>k v. hget m k = Some v \<longleftrightarrow> v \<in> set us \<and> ur_user_id v = k)"
    and n: "hget m (ur_user_id u) = None"
  then have new: "v \<in> set us \<Longrightarrow> ur_user_id v \<noteq> ur_user_id u" for v
    by (metis option.distinct(1))
  with r show "distinct (map ur_user_id (us @ [u]))"
    by (auto simp: image_iff) (metis new)
  show "hget (hput (ur_user_id u) u m) k = Some v \<longleftrightarrow> v \<in> set (us @ [u]) \<and> ur_user_id v = k" for k v
    using r new by auto
qed

text \<open>
  C17: the account database is never exposed half-written.  At every point of a write, and so after a
  crash at that point, the database file holds its old contents or the complete new snapshot; a call
  that fails leaves the old contents and no temporary file, one that succeeds the new snapshot.
\<close>

theorem write_user_snapshot_atomic:
  assumes "tmp \<noteq> user_store_path s"
  shows "(\<forall>s' \<in> set (write_steps tmp us s).
            hget (files s') (user_store_path s) \<in>
              {hget (files s) (user_store_path s), Some (Users_file us)}) \<and>
    (case write_user_snapshot fault tmp us s of (ok, s') \<Rightarrow>
       hget (files s') (user_store_path s) =
         (if ok then Some (Users_file us) else hget (files s) (user_store_path s)) \<and>
       (ok \<longleftrightarrow> fault = No_fault) \<and>
       hget (files s') tmp = (if fault = At_create_dir then hget (files s) tmp else None))"
  using assms
  by (auto simp: write_user_snapshot_def write_steps_def set_file_def remove_file_def rename_file_def
      split: write_fault.splits)

theorem write_user_snapshot_atomic_witness:
  "hget (files (snd (write_user_snapshot At_sync ''.users-1.tmp'' []
     (app_state_new ''users.json'' (hput ''users.json'' Torn hempty))))) ''users.json'' = Some Torn"
  using write_user_snapshot_atomic [of "''.users-1.tmp''"
      "app_state_new ''users.json'' (hput ''users.json'' Torn hempty)" "[]" At_sync]
  by (auto simp: app_state_new_def split: prod.splits)

section \<open>Updating one account\<close>

lemma update_wake_cases:
  assumes keyed: "users_keyed s" and tmp: "tmp \<noteq> user_store_path s"
  shows "update_wake now fault tmp i mutation s =
    (case hget (users s) i of
       None \<Rightarrow> (Inl ''not_found'', s)
     | Some user \<Rightarrow>
         (case mutation (ur_wake user) of
            Inl e \<Rightarrow> (Inl e, s)
          | Inr (v, w) \<Rightarrow>
              let updated = user\<lparr>ur_wake := wake_prune now w\<rparr>;
                  s1 = snd (write_user_snapshot fault tmp
                         (replace_user i updated (hvalues (users s))) s)
              in if fault = No_fault then (Inr v, s1\<lparr>users := hput i updated (users s)\<rparr>)
                 else (Inl ''storage'', s1)))"
proof -
  note rep = represents_hvalues [OF keyed]
  show ?thesis
  proof (cases "hget (users s) i")
    case None
    then show ?thesis
      by (simp add: update_wake_def find_user_represents [OF rep])
  next
    case (Some user)
    show ?thesis
    proof (cases "mutation (ur_wake user)")
      case (Inl e)
      then show ?thesis
        using Some by (simp add: update_wake_def find_user_represents [OF rep])
    next
      case (Inr vw)
      obtain v w where vw: "vw = (v, w)" by fastforce
      let ?u = "user\<lparr>ur_wake := wake_prune now w\<rparr>"
      obtain ok s1 where w1: "write_user_snapshot fault tmp (replace_user i ?u (hvalues (users s))) s =
          (ok, s1)" by fastforce
      note f = write_user_snapshot_eq [OF tmp w1]
      have "update_wake now fault tmp i mutation s =
          (if ok then (Inr v, s1\<lparr>users := hput i ?u (users s1)\<rparr>) else (Inl ''storage'', s1))"
        using Some Inr by (simp add: vw update_wake_def find_user_represents [OF rep] w1 Let_def)
      moreover have "s1 = snd (write_user_snapshot fault tmp (replace_user i ?u (hvalues (users s))) s)"
        by (simp add: w1)
      ultimately show ?thesis
        using Some Inr f(1) by (auto simp: vw Let_def)
    qed
  qed
qed

section \<open>The account invariant\<close>

text \<open>
  Users are stored under their id, the index maps exactly the user names in use to their users (so
  names are unique), and the database file holds exactly the users in memory.
\<close>

definition index_ok :: "app_state \<Rightarrow> bool" where
  "index_ok s \<longleftrightarrow>
     (\<forall>n i. hget (username_index s) n = Some i \<longleftrightarrow>
        (\<exists>u. hget (users s) i = Some u \<and> ur_username u = n))"

definition account_inv :: "app_state \<Rightarrow> bool" where
  "account_inv s \<longleftrightarrow> users_keyed s \<and> index_ok s \<and> store_synced s"

lemma account_inv_cong:
  "users s' = users s \<Longrightarrow> username_index s' = username_index s \<Longrightarrow>
   hget (files s') (user_store_path s) = hget (files s) (user_store_path s) \<Longrightarrow>
   user_store_path s' = user_store_path s \<Longrightarrow> account_inv s' = account_inv s"
  by (simp add: account_inv_def users_keyed_def index_ok_def store_synced_def)

lemma index_unique:
  "index_ok s \<Longrightarrow> hget (users s) i = Some u \<Longrightarrow> hget (users s) j = Some v \<Longrightarrow>
   ur_username u = ur_username v \<Longrightarrow> i = j"
  unfolding index_ok_def by (metis option.inject)

lemma update_wake_account_inv:
  assumes inv: "account_inv s" and tmp: "tmp \<noteq> user_store_path s"
  shows "account_inv (snd (update_wake now fault tmp i mutation s))"
proof -
  from inv have k: "users_keyed s" and ix: "index_ok s" and sy: "store_synced s"
    by (simp_all add: account_inv_def)
  note eq = update_wake_cases [OF k tmp, of now fault i mutation]
  show ?thesis
  proof (cases "hget (users s) i")
    case None
    with inv show ?thesis by (simp add: eq)
  next
    case (Some u)
    show ?thesis
    proof (cases "mutation (ur_wake u)")
      case (Inl e)
      with inv Some show ?thesis by (simp add: eq)
    next
      case (Inr vw)
      obtain v w where vw: "vw = (v, w)" by fastforce
      let ?u = "u\<lparr>ur_wake := wake_prune now w\<rparr>"
      let ?us = "replace_user i ?u (hvalues (users s))"
      have ui: "ur_user_id u = i" using Some k by (simp add: users_keyed_def)
      obtain ok s1 where w1: "write_user_snapshot fault tmp ?us s = (ok, s1)" by fastforce
      then have s1: "s1 = snd (write_user_snapshot fault tmp ?us s)" by simp
      note f = write_user_snapshot_eq [OF tmp w1]
      have fl: "users s1 = users s" "username_index s1 = username_index s"
        "user_store_path s1 = user_store_path s"
        by (simp_all add: s1)
      have uw: "update_wake now fault tmp i mutation s =
          (if fault = No_fault then (Inr v, s1\<lparr>users := hput i ?u (users s)\<rparr>) else (Inl ''storage'', s1))"
        unfolding eq Some Inr vw s1 Let_def option.case sum.case prod.case by (rule refl)
      show ?thesis
      proof (cases ok)
        case False
        then have "snd (update_wake now fault tmp i mutation s) = s1"
          unfolding uw using f(1) by simp
        moreover have "account_inv s1"
          using account_inv_cong [OF fl(1,2) _ fl(3)] False f(3) inv by simp
        ultimately show ?thesis by simp
      next
        case True
        then have s2: "snd (update_wake now fault tmp i mutation s) = s1\<lparr>users := hput i ?u (users s)\<rparr>"
          unfolding uw using f(1) by simp
        have "represents ?us (hput i ?u (users s))"
          by (rule represents_replace [OF represents_hvalues [OF k] Some]) (simp add: ui)
        then have "store_synced (s1\<lparr>users := hput i ?u (users s)\<rparr>)"
          using True f(3) fl by (auto simp: store_synced_def)
        moreover have "users_keyed (s1\<lparr>users := hput i ?u (users s)\<rparr>)"
          using k ui by (simp add: users_keyed_def)
        moreover have "index_ok (s1\<lparr>users := hput i ?u (users s)\<rparr>)"
          using ix Some fl by (auto simp: index_ok_def)
        ultimately show ?thesis by (simp add: s2 account_inv_def)
      qed
    qed
  qed
qed

section \<open>Invariants of the wake data\<close>

text \<open>
  The contract between the store and the operations on one account's wake data: an invariant that
  holds of a new account and survives pruning holds of every account, if each mutation keeps it.
\<close>

locale wake_invariant =
  fixes I :: "wake_account_data \<Rightarrow> bool"
  assumes default: "I wake_default"
    and prune: "I d \<Longrightarrow> I (wake_prune now d)"
begin

definition all_accounts :: "app_state \<Rightarrow> bool" where
  "all_accounts s \<longleftrightarrow> (\<forall>i u. hget (users s) i = Some u \<longrightarrow> I (ur_wake u))"

lemma update_wake_keeps:
  assumes "users_keyed s" "tmp \<noteq> user_store_path s" "all_accounts s"
    and "\<And>d v d'. I d \<Longrightarrow> mutation d = Inr (v, d') \<Longrightarrow> I d'"
  shows "all_accounts (snd (update_wake now fault tmp i mutation s))"
proof (cases "hget (users s) i")
  case None
  then show ?thesis using assms(3) by (simp add: update_wake_cases [OF assms(1,2)])
next
  case (Some u)
  show ?thesis
  proof (cases "mutation (ur_wake u)")
    case (Inl e)
    with Some show ?thesis using assms(3) by (simp add: update_wake_cases [OF assms(1,2)])
  next
    case (Inr vw)
    obtain v w where vw: "vw = (v, w)" by fastforce
    have "I (ur_wake u)" using Some assms(3) by (simp add: all_accounts_def)
    then have "I (wake_prune now w)"
      using assms(4) Inr vw prune by blast
    then show ?thesis
      using Some Inr assms(3)
      by (cases "fault = No_fault")
        (simp_all add: update_wake_cases [OF assms(1,2)] vw Let_def all_accounts_def)
  qed
qed

end

end
