(* ===== verification/Accounts.thy ===== *)
theory Accounts
  imports Wake_Store
begin

text \<open>
  Accounts (\<open>main.rs\<close>): registration, login, deletion, presence and the device list.  Argon2 and the
  Unicode lower-casing of user names are parameters: \<open>hash pw\<close> is \<open>hash_password\<close> (\<open>None\<close> on error),
  \<open>verify pw h\<close> is \<open>verify_password(..).unwrap_or(false)\<close>, \<open>lower\<close> is \<open>str::to_lowercase\<close>.
\<close>

section \<open>Requests\<close>

record account_auth_request =
  rq_username :: string
  rq_password :: string
  rq_display_name :: "string option"

record account_session_response =
  sr_token :: string
  sr_user_id :: string
  sr_username :: string
  sr_display_name :: string

definition normalize_username :: "(string \<Rightarrow> string) \<Rightarrow> string \<Rightarrow> string" where
  "normalize_username lower raw = lower (trim raw)"

definition create_account_session ::
  "ms \<Rightarrow> string \<Rightarrow> user_record \<Rightarrow> app_state \<Rightarrow> account_session_response \<times> app_state" where
  "create_account_session now token user s =
     (\<lparr>sr_token = token, sr_user_id = ur_user_id user, sr_username = ur_username user,
       sr_display_name = ur_display_name user\<rparr>,
      s\<lparr>auth_sessions := hput token \<lparr>au_user_id = ur_user_id user, au_last_seen_ms = now\<rparr>
          (auth_sessions s)\<rparr>)"

section \<open>Registration\<close>

text \<open>
  Before the lock: the checks and the new record.  Under the lock: the second look at the index,
  the snapshot with the new user, the write, and only then the maps.  \<open>env\<close> is what the other
  handlers do while the lock is awaited.
\<close>

definition display_name_of :: "string option \<Rightarrow> string \<Rightarrow> string" where
  "display_name_of requested username =
     (case requested of
        None \<Rightarrow> username
      | Some d \<Rightarrow> if trim d = [] then username else trim d)"

definition register_commit ::
  "write_fault \<Rightarrow> string \<Rightarrow> user_record \<Rightarrow> app_state \<Rightarrow> unit response \<times> app_state" where
  "register_commit fault tmp user s =
     (if hhas (username_index s) (ur_username user) then (error_response 409 MsgAccountExists, s)
      else
        let (ok, s1) = write_user_snapshot fault tmp (hvalues (users s) @ [user]) s in
        if \<not> ok then (error_response 500 MsgSaveAccountFailed, s1)
        else (Ok_with (),
              s1\<lparr>users := hput (ur_user_id user) user (users s1),
                 username_index := hput (ur_username user) (ur_user_id user) (username_index s1)\<rparr>))"

definition register_account ::
  "(string \<Rightarrow> string) \<Rightarrow> (string \<Rightarrow> string option) \<Rightarrow> ms \<Rightarrow> write_fault \<Rightarrow> write_fault \<Rightarrow> string \<Rightarrow>
   string \<Rightarrow> string \<Rightarrow> (app_state \<Rightarrow> app_state) \<Rightarrow> account_auth_request \<Rightarrow> app_state \<Rightarrow>
     account_session_response response \<times> app_state" where
  "register_account lower hash now fault fault' tmp user_id token env request s =
     (let username = normalize_username lower (rq_username request);
          password = trim (rq_password request)
      in if username = [] then (error_response 400 MsgUsernameEmpty, s)
         else if length password < MIN_PASSWORD_LEN then (error_response 400 MsgPasswordTooShort, s)
         else if hhas (username_index s) username then (error_response 409 MsgAccountExists, s)
         else case hash password of
                None \<Rightarrow> (error_response 500 MsgPasswordProcessing, s)
              | Some password_hash \<Rightarrow>
                  let user = \<lparr>ur_user_id = user_id, ur_username = username,
                              ur_display_name = display_name_of (rq_display_name request) username,
                              ur_password_hash = password_hash, ur_created_at_ms = now,
                              ur_wake = wake_default\<rparr>
                  in (case register_commit fault tmp user (env s) of
                        (Ok_with _, s1) \<Rightarrow>
                          let (session, s2) = create_account_session now token user s1
                          in (Ok_with session, snd (persist_auth_sessions fault' s2))
                      | (Status n, s1) \<Rightarrow> (Status n, s1)
                      | (Error_msg n m, s1) \<Rightarrow> (Error_msg n m, s1)))"

section \<open>Login\<close>

definition login_account ::
  "(string \<Rightarrow> string) \<Rightarrow> (string \<Rightarrow> string \<Rightarrow> bool) \<Rightarrow> ms \<Rightarrow> write_fault \<Rightarrow> string \<Rightarrow>
   account_auth_request \<Rightarrow> app_state \<Rightarrow> account_session_response response \<times> app_state" where
  "login_account lower verify now fault token request s =
     (let username = normalize_username lower (rq_username request);
          password = trim (rq_password request)
      in case hget (username_index s) username of
           None \<Rightarrow> (error_response 401 MsgBadCredentials, s)
         | Some user_id \<Rightarrow>
             (case hget (users s) user_id of
                None \<Rightarrow> (error_response 401 MsgBadCredentials, s)
              | Some user \<Rightarrow>
                  if \<not> verify password (ur_password_hash user)
                  then (error_response 401 MsgBadCredentials, s)
                  else
                    let (session, s1) = create_account_session now token user s
                    in (Ok_with session, snd (persist_auth_sessions fault s1))))"

section \<open>Deletion\<close>

definition delete_commit ::
  "write_fault \<Rightarrow> string \<Rightarrow> user_record \<Rightarrow> app_state \<Rightarrow> bool response \<times> app_state" where
  "delete_commit fault tmp user s =
     (let user_id = ur_user_id user in
      if \<not> hhas (users s) user_id then (error_response 401 MsgSessionInvalid, s)
      else
        let snapshot = filter (\<lambda>u. ur_user_id u \<noteq> user_id) (hvalues (users s));
            (ok, s1) = write_user_snapshot fault tmp snapshot s
        in if \<not> ok then (error_response 500 MsgDeleteFailed, s1)
           else (Ok_with True,
             s1\<lparr>users := hrem user_id (users s1),
                username_index := hrem (ur_username user) (username_index s1),
                auth_sessions := hsweep (\<lambda>_ a. au_user_id a = user_id) (auth_sessions s1),
                account_presence := hsweep (\<lambda>_ p. ap_user_id p = user_id) (account_presence s1)\<rparr>))"

definition delete_account ::
  "(string \<Rightarrow> string \<Rightarrow> bool) \<Rightarrow> ms \<Rightarrow> write_fault \<Rightarrow> write_fault \<Rightarrow> string \<Rightarrow> (app_state \<Rightarrow> app_state) \<Rightarrow>
   header_map \<Rightarrow> string \<Rightarrow> app_state \<Rightarrow> bool response \<times> app_state" where
  "delete_account verify now fault fault' tmp env headers password s =
     (case authenticated_user now headers s of
        (None, s1) \<Rightarrow> (error_response 401 MsgSessionInvalid, s1)
      | (Some user, s1) \<Rightarrow>
          if \<not> verify (trim password) (ur_password_hash user)
          then (error_response 401 MsgWrongPassword, s1)
          else (case delete_commit fault tmp user (env s1) of
                  (Ok_with _, s2) \<Rightarrow> (Ok_with True, snd (persist_auth_sessions fault' s2))
                | r \<Rightarrow> r))"

section \<open>Devices\<close>

record account_device_summary =
  ds_device_id :: string
  ds_hostname :: string
  ds_platform :: string
  ds_can_host :: bool
  ds_hosting :: bool
  ds_updated_at_ms :: ms

definition presence_summary :: "account_presence_rec \<Rightarrow> account_device_summary" where
  "presence_summary p =
     \<lparr>ds_device_id = ap_device_id p, ds_hostname = ap_hostname p, ds_platform = ap_platform p,
      ds_can_host = ap_can_host p, ds_hosting = False, ds_updated_at_ms = ap_updated_at_ms p\<rparr>"

definition merge_preview ::
  "preview_registration \<Rightarrow> (string, account_device_summary) hmap \<Rightarrow>
     (string, account_device_summary) hmap" where
  "merge_preview e m =
     (case hget m (pr_device_id e) of
        Some summary \<Rightarrow>
          hput (pr_device_id e)
            (summary\<lparr>ds_hostname := pr_hostname e, ds_platform := pr_platform e, ds_hosting := True,
                     ds_updated_at_ms := (if ds_updated_at_ms summary < pr_updated_at_ms e
                       then pr_updated_at_ms e else ds_updated_at_ms summary)\<rparr>) m
      | None \<Rightarrow>
          hput (pr_device_id e)
            \<lparr>ds_device_id = pr_device_id e, ds_hostname = pr_hostname e, ds_platform = pr_platform e,
             ds_can_host = False, ds_hosting = True, ds_updated_at_ms = pr_updated_at_ms e\<rparr> m)"

definition device_map :: "ms \<Rightarrow> string \<Rightarrow> app_state \<Rightarrow> (string, account_device_summary) hmap" where
  "device_map now user_id s =
     (let present = filter (\<lambda>p. ap_user_id p = user_id \<and>
                      is_fresh now (ap_updated_at_ms p) ACCOUNT_PRESENCE_TTL_MS)
                      (hvalues (account_presence s));
          hosting = filter (\<lambda>e. pr_user_id e = Some user_id \<and>
                      is_fresh now (pr_updated_at_ms e) PREVIEW_TTL_MS) (hvalues (previews s))
      in fold merge_preview hosting
           (fold (\<lambda>p. hput (ap_device_id p) (presence_summary p)) present hempty))"

definition list_account_devices ::
  "ms \<Rightarrow> header_map \<Rightarrow> app_state \<Rightarrow> account_device_summary list response \<times> app_state" where
  "list_account_devices now headers s =
     (case authenticated_user now headers s of
        (None, s1) \<Rightarrow> (error_response 401 MsgSessionInvalid, s1)
      | (Some user, s1) \<Rightarrow>
          (Ok_with (sort_key (\<lambda>d. - int (ds_updated_at_ms d))
             (hvalues (device_map now (ur_user_id user) s1))), s1))"

definition upsert_account_presence ::
  "ms \<Rightarrow> header_map \<Rightarrow> string \<Rightarrow> string \<Rightarrow> string \<Rightarrow> bool \<Rightarrow> app_state \<Rightarrow> bool response \<times> app_state" where
  "upsert_account_presence now headers device_id0 platform hostname can_host s =
     (case authenticated_user now headers s of
        (None, s1) \<Rightarrow> (error_response 401 MsgSessionInvalid, s1)
      | (Some user, s1) \<Rightarrow>
          let device_id = trim device_id0 in
          if device_id = [] then (error_response 400 MsgDeviceIdEmpty, s1)
          else (Ok_with True,
            s1\<lparr>account_presence := hput device_id
                 \<lparr>ap_device_id = device_id, ap_user_id = ur_user_id user, ap_platform = trim platform,
                  ap_hostname = trim hostname, ap_can_host = can_host, ap_updated_at_ms = now\<rparr>
                 (account_presence s1)\<rparr>))"

section \<open>Health and debug\<close>

definition health :: "ms \<Rightarrow> app_state \<Rightarrow> bool \<times> nat \<times> nat \<times> ms" where
  "health now s =
     (True, length (hlist (previews s)), length (hlist (viewer_sessions s)), now)"

end
