(* ===== verification/Account_Props.thy ===== *)
theory Account_Props
  imports Accounts
begin

text \<open>
  Correctness of accounts: the database in memory and on disk stay in step whatever write fails, a
  registered user can log in, a restart restores the users, and a deleted account is gone.
\<close>

section \<open>Preservation, one lemma per operation\<close>

lemma persist_auth_fields [simp]:
  "users (snd (persist_auth_sessions fault s)) = users s"
  "username_index (snd (persist_auth_sessions fault s)) = username_index s"
  "auth_sessions (snd (persist_auth_sessions fault s)) = auth_sessions s"
  "account_presence (snd (persist_auth_sessions fault s)) = account_presence s"
  "user_store_path (snd (persist_auth_sessions fault s)) = user_store_path s"
  "p \<noteq> auth_sessions_path (user_store_path s) \<Longrightarrow>
     hget (files (snd (persist_auth_sessions fault s))) p = hget (files s) p"
  by (simp_all add: persist_auth_sessions_def Let_def set_file_def split: write_fault.split)

lemma account_inv_persist_auth:
  "user_store_path s \<noteq> auth_sessions_path (user_store_path s) \<Longrightarrow>
   account_inv (snd (persist_auth_sessions fault s)) = account_inv s"
  by (rule account_inv_cong) simp_all

lemma account_inv_auth_upd [simp]:
  "account_inv (s\<lparr>auth_sessions := a\<rparr>) = account_inv s"
  by (rule account_inv_cong) simp_all

lemma create_session_eq:
  "create_account_session now token user s =
     (\<lparr>sr_token = token, sr_user_id = ur_user_id user, sr_username = ur_username user,
       sr_display_name = ur_display_name user\<rparr>,
      s\<lparr>auth_sessions := hput token \<lparr>au_user_id = ur_user_id user, au_last_seen_ms = now\<rparr>
          (auth_sessions s)\<rparr>)"
  by (rule create_account_session_def)

lemma register_commit_eq:
  "register_commit fault tmp user s =
     (if hhas (username_index s) (ur_username user) then (error_response 409 MsgAccountExists, s)
      else
        let s1 = snd (write_user_snapshot fault tmp (hvalues (users s) @ [user]) s) in
        if fault \<noteq> No_fault then (error_response 500 MsgSaveAccountFailed, s1)
        else (Ok_with (),
              s1\<lparr>users := hput (ur_user_id user) user (users s),
                 username_index := hput (ur_username user) (ur_user_id user) (username_index s)\<rparr>))"
proof -
  obtain ok s1 where w: "write_user_snapshot fault tmp (hvalues (users s) @ [user]) s = (ok, s1)"
    by fastforce
  have "ok \<longleftrightarrow> fault = No_fault"
    using w by (auto simp: write_user_snapshot_def split: write_fault.splits)
  moreover have "users s1 = users s" "username_index s1 = username_index s"
    using file_ops_fields(1,2) [of fault tmp "hvalues (users s) @ [user]" s] by (simp_all add: w)
  ultimately show ?thesis
    by (simp add: register_commit_def w Let_def)
qed

lemma snapshot_file:
  assumes "tmp \<noteq> user_store_path s"
  shows "hget (files (snd (write_user_snapshot fault tmp us s))) (user_store_path s) =
    (if fault = No_fault then Some (Users_file us) else hget (files s) (user_store_path s))"
  using assms
  by (auto simp: write_user_snapshot_def set_file_def remove_file_def rename_file_def
      split: write_fault.splits)

lemma account_inv_snapshot_failed:
  assumes "account_inv s" "tmp \<noteq> user_store_path s" "fault \<noteq> No_fault"
  shows "account_inv (snd (write_user_snapshot fault tmp us s))"
  using account_inv_cong [of "snd (write_user_snapshot fault tmp us s)" s] assms snapshot_file [OF assms(2)]
  by simp

lemma register_commit_inv:
  assumes inv: "account_inv s" and tmp: "tmp \<noteq> user_store_path s"
    and new: "hget (users s) (ur_user_id user) = None"
  shows "account_inv (snd (register_commit fault tmp user s))"
proof (cases "hhas (username_index s) (ur_username user) \<or> fault \<noteq> No_fault")
  case True
  then show ?thesis
    using inv account_inv_snapshot_failed [OF inv tmp] by (auto simp: register_commit_eq Let_def)
next
  case False
  from inv have k: "users_keyed s" and ix: "index_ok s"
    by (simp_all add: account_inv_def)
  let ?us = "hvalues (users s) @ [user]"
  let ?s1 = "snd (write_user_snapshot fault tmp ?us s)"
  let ?s2 = "?s1\<lparr>users := hput (ur_user_id user) user (users s),
                 username_index := hput (ur_username user) (ur_user_id user) (username_index s)\<rparr>"
  have "represents ?us (hput (ur_user_id user) user (users s))"
    by (rule represents_add [OF represents_hvalues [OF k] new])
  then have "store_synced ?s2"
    using False snapshot_file [OF tmp, of fault ?us] by (simp add: store_synced_def)
  moreover have "users_keyed ?s2"
    using k by (simp add: users_keyed_def)
  moreover have "index_ok ?s2"
    unfolding index_ok_def
  proof (intro allI)
    fix n i
    have "hget (username_index s) (ur_username user) = None"
      using False by (simp add: hhas_def)
    then have "\<nexists>i u. hget (users s) i = Some u \<and> ur_username u = ur_username user"
      using ix by (metis index_ok_def option.distinct(1))
    then show "hget (username_index ?s2) n = Some i \<longleftrightarrow>
        (\<exists>u. hget (users ?s2) i = Some u \<and> ur_username u = n)"
      using ix new by (auto simp: index_ok_def)
  qed
  ultimately show ?thesis
    using False by (simp add: register_commit_eq Let_def account_inv_def)
qed

lemma delete_commit_eq:
  "delete_commit fault tmp user s =
     (if \<not> hhas (users s) (ur_user_id user) then (error_response 401 MsgSessionInvalid, s)
      else
        let s1 = snd (write_user_snapshot fault tmp
                   (filter (\<lambda>u. ur_user_id u \<noteq> ur_user_id user) (hvalues (users s))) s)
        in if fault \<noteq> No_fault then (error_response 500 MsgDeleteFailed, s1)
           else (Ok_with True,
             s1\<lparr>users := hrem (ur_user_id user) (users s),
                username_index := hrem (ur_username user) (username_index s),
                auth_sessions := hsweep (\<lambda>_ a. au_user_id a = ur_user_id user) (auth_sessions s),
                account_presence := hsweep (\<lambda>_ p. ap_user_id p = ur_user_id user) (account_presence s)\<rparr>))"
proof -
  let ?us = "filter (\<lambda>u. ur_user_id u \<noteq> ur_user_id user) (hvalues (users s))"
  obtain ok s1 where w: "write_user_snapshot fault tmp ?us s = (ok, s1)"
    by fastforce
  have "ok \<longleftrightarrow> fault = No_fault"
    using w by (auto simp: write_user_snapshot_def split: write_fault.splits)
  moreover have "users s1 = users s" "username_index s1 = username_index s"
    "auth_sessions s1 = auth_sessions s" "account_presence s1 = account_presence s"
    using file_ops_fields(1-4) [of fault tmp ?us s] by (simp_all add: w)
  ultimately show ?thesis
    by (simp add: delete_commit_def w Let_def)
qed

lemma delete_commit_inv:
  assumes inv: "account_inv s" and tmp: "tmp \<noteq> user_store_path s"
    and user: "\<And>u. hget (users s) (ur_user_id user) = Some u \<Longrightarrow> ur_username u = ur_username user"
  shows "account_inv (snd (delete_commit fault tmp user s))"
proof (cases "\<not> hhas (users s) (ur_user_id user) \<or> fault \<noteq> No_fault")
  case True
  then show ?thesis
    using inv account_inv_snapshot_failed [OF inv tmp] by (auto simp: delete_commit_eq Let_def)
next
  case False
  from inv have k: "users_keyed s" and ix: "index_ok s"
    by (simp_all add: account_inv_def)
  let ?us = "filter (\<lambda>u. ur_user_id u \<noteq> ur_user_id user) (hvalues (users s))"
  let ?s1 = "snd (write_user_snapshot fault tmp ?us s)"
  let ?s2 = "?s1\<lparr>users := hrem (ur_user_id user) (users s),
                username_index := hrem (ur_username user) (username_index s),
                auth_sessions := hsweep (\<lambda>_ a. au_user_id a = ur_user_id user) (auth_sessions s),
                account_presence := hsweep (\<lambda>_ p. ap_user_id p = ur_user_id user) (account_presence s)\<rparr>"
  obtain u0 where u0: "hget (users s) (ur_user_id user) = Some u0" "ur_username u0 = ur_username user"
    using False user by (auto simp: hhas_def)
  have "represents ?us (hrem (ur_user_id user) (users s))"
    by (rule represents_remove [OF represents_hvalues [OF k]])
  then have "store_synced ?s2"
    using False snapshot_file [OF tmp, of fault ?us] by (simp add: store_synced_def)
  moreover have "users_keyed ?s2"
    using k by (simp add: users_keyed_def)
  moreover have "index_ok ?s2"
    unfolding index_ok_def
  proof (intro allI)
    fix n i
    show "hget (username_index ?s2) n = Some i \<longleftrightarrow>
        (\<exists>u. hget (users ?s2) i = Some u \<and> ur_username u = n)"
    proof (cases "n = ur_username user")
      case True
      have "\<not> (hget (users ?s2) i = Some u \<and> ur_username u = n)" for u
        using index_unique [OF ix u0(1), of i u] u0(2) True by auto
      then show ?thesis using True by simp
    next
      case False
      have "(\<exists>u. hget (users ?s2) i = Some u \<and> ur_username u = n) \<longleftrightarrow>
          (\<exists>u. hget (users s) i = Some u \<and> ur_username u = n)"
        using u0 False by auto
      with False ix show ?thesis by (simp add: index_ok_def)
    qed
  qed
  ultimately show ?thesis
    using False by (simp add: delete_commit_eq Let_def account_inv_def)
qed

section \<open>The properties\<close>

lemma register_account_state:
  fixes lower hash now fault fault' tmp uid token env request s
  defines "s' \<equiv> snd (register_account lower hash now fault fault' tmp uid token env request s)"
  shows "s' = s \<or>
    (\<exists>user a. ur_user_id user = uid \<and>
       (s' = snd (register_commit fault tmp user (env s)) \<or>
        s' = snd (persist_auth_sessions fault'
               ((snd (register_commit fault tmp user (env s)))\<lparr>auth_sessions := a\<rparr>))))"
  unfolding s'_def
proof -
  let ?n = "normalize_username lower (rq_username request)"
  let ?u = "\<lambda>h. \<lparr>ur_user_id = uid, ur_username = ?n,
      ur_display_name = display_name_of (rq_display_name request) ?n,
      ur_password_hash = h, ur_created_at_ms = now, ur_wake = wake_default\<rparr>"
  show "snd (register_account lower hash now fault fault' tmp uid token env request s) = s \<or>
    (\<exists>user a. ur_user_id user = uid \<and>
       (snd (register_account lower hash now fault fault' tmp uid token env request s) =
          snd (register_commit fault tmp user (env s)) \<or>
        snd (register_account lower hash now fault fault' tmp uid token env request s) =
          snd (persist_auth_sessions fault'
               ((snd (register_commit fault tmp user (env s)))\<lparr>auth_sessions := a\<rparr>))))"
  proof (cases "hash (trim (rq_password request))")
    case None
    then show ?thesis by (simp add: register_account_def Let_def)
  next
    case (Some h)
    obtain r s1 where c: "register_commit fault tmp (?u h) (env s) = (r, s1)" by fastforce
    have "snd (register_account lower hash now fault fault' tmp uid token env request s) = s \<or>
        snd (register_account lower hash now fault fault' tmp uid token env request s) = s1 \<or>
        (\<exists>a. snd (register_account lower hash now fault fault' tmp uid token env request s) =
           snd (persist_auth_sessions fault' (s1\<lparr>auth_sessions := a\<rparr>)))"
      using Some by (cases r) (auto simp: register_account_def Let_def create_session_eq c)
    moreover have "s1 = snd (register_commit fault tmp (?u h) (env s))" by (simp add: c)
    moreover have "ur_user_id (?u h) = uid" by simp
    ultimately show ?thesis by blast
  qed
qed

lemma delete_account_state:
  fixes verify now fault fault' tmp env headers password s
  defines "s' \<equiv> snd (delete_account verify now fault fault' tmp env headers password s)"
    and "s1 \<equiv> s\<lparr>auth_sessions := auth_token_touched now (bearer_of headers) s\<rparr>"
  shows "s' = s1 \<or>
    (\<exists>user. account_ok now headers s = Some user \<and>
       (s' = snd (delete_commit fault tmp user (env s1)) \<or>
        s' = snd (persist_auth_sessions fault' (snd (delete_commit fault tmp user (env s1))))))"
  unfolding s'_def s1_def
  by (simp add: delete_account_def authenticated_user_eq Let_def
      split: option.split response.split prod.split)

lemma path_register_commit [simp]:
  "user_store_path (snd (register_commit fault tmp user s)) = user_store_path s"
  "user_store_path (snd (delete_commit fault tmp user s)) = user_store_path s"
  by (simp_all add: register_commit_eq delete_commit_eq Let_def)

text \<open>
  Memory and disk stay in step.  Whatever write fails, and whatever other handlers do while the
  store lock is awaited, registering, logging in, deleting and changing wake data keep the account
  invariant: names are unique, the index is exact, and the database file holds the users in memory.
\<close>

lemma account_ops_keep_store:
  assumes inv: "account_inv s" and tmp: "tmp \<noteq> user_store_path s"
    and paths: "user_store_path s \<noteq> auth_sessions_path (user_store_path s)"
    and env: "\<And>t. account_inv t \<Longrightarrow> account_inv (env t) \<and> user_store_path (env t) = user_store_path t \<and>
      (\<forall>i u u'. hget (users t) i = Some u \<longrightarrow> hget (users (env t)) i = Some u' \<longrightarrow>
         ur_username u' = ur_username u)"
    and fresh: "hget (users (env s)) uid = None"
  shows "account_inv (snd (register_account lower hash now fault fault' tmp uid token env request s)) \<and>
    account_inv (snd (login_account lower verify now fault' token request s)) \<and>
    account_inv (snd (delete_account verify now fault fault' tmp env headers password s)) \<and>
    account_inv (snd (update_wake now fault tmp i mutation s))"
proof (intro conjI)
  have e: "account_inv (env s)" "user_store_path (env s) = user_store_path s"
    using env [OF inv] by auto
  have reg: "account_inv (snd (register_commit fault tmp user (env s)))" if "ur_user_id user = uid" for user
    using register_commit_inv [OF e(1)] e(2) tmp fresh that by simp
  show "account_inv (snd (register_account lower hash now fault fault' tmp uid token env request s))"
    using register_account_state [of lower hash now fault fault' tmp uid token env request s] inv reg
      e(2) paths by (auto simp: account_inv_persist_auth)
  show "account_inv (snd (login_account lower verify now fault' token request s))"
    using inv paths
    by (simp add: login_account_def Let_def create_session_eq account_inv_persist_auth split: option.split)
  show "account_inv (snd (update_wake now fault tmp i mutation s))"
    by (rule update_wake_account_inv [OF inv tmp])
  let ?s1 = "s\<lparr>auth_sessions := auth_token_touched now (bearer_of headers) s\<rparr>"
  have s1: "account_inv ?s1" using inv by simp
  note e1 = env [OF s1]
  have del: "account_inv (snd (delete_commit fault tmp user (env ?s1)))"
    if ok: "account_ok now headers s = Some user" for user
  proof (rule delete_commit_inv)
    obtain i where i: "hget (users s) i = Some user"
      using ok by (auto simp: account_ok_def bind_eq_Some_conv)
    then have "ur_user_id user = i"
      using inv by (auto simp: account_inv_def users_keyed_def)
    then show "ur_username u = ur_username user"
      if "hget (users (env ?s1)) (ur_user_id user) = Some u" for u
      using e1 i that by fastforce
  qed (use e1 tmp in auto)
  show "account_inv (snd (delete_account verify now fault fault' tmp env headers password s))"
    using delete_account_state [of verify now fault fault' tmp env headers password s] s1 del e1 paths
    by (auto simp: account_inv_persist_auth)
qed

text \<open>A server with an empty database, for the concrete instances.\<close>

definition fresh_server :: app_state where
  "fresh_server = app_state_new ''users.json'' (hput ''users.json'' (Users_file []) hempty)"

lemma fresh_server_simps [simp]:
  "account_inv fresh_server" "user_store_path fresh_server = ''users.json''"
  "users fresh_server = hempty" "username_index fresh_server = hempty"
  by (auto simp: account_inv_def users_keyed_def index_ok_def store_synced_def represents_def
      fresh_server_def app_state_new_def)

lemma sessions_path_demo [simp]: "auth_sessions_path ''users.json'' = ''auth_sessions.json''"
  by (simp add: auth_sessions_path_def after_last_def)

definition demo_request :: account_auth_request where
  "demo_request = \<lparr>rq_username = ''ann'', rq_password = ''secret1'', rq_display_name = None\<rparr>"

lemma account_ops_keep_store_witness:
  "account_inv (snd (register_account (\<lambda>x. x) Some 1000 No_fault At_write ''.t'' ''u1'' ''tok'' (\<lambda>s. s)
     demo_request fresh_server))"
  by (rule account_ops_keep_store [THEN conjunct1]) auto

text \<open>
  C20: a user who has registered can log in.  If registration answers with a session, then the same
  user name and password log in afterwards, to the same account, given that the password library
  verifies what it hashed; and the session token from the registration identifies the account for
  30 days.
\<close>

theorem register_then_login:
  assumes reg: "register_account lower hash now fault fault' tmp uid token env request s = (Ok_with session, s')"
    and lib: "\<And>p h. hash p = Some h \<Longrightarrow> verify p h"
  shows "(\<exists>session' s''. login_account lower verify later fault'' token' request s' = (Ok_with session', s'') \<and>
      sr_user_id session' = uid \<and> sr_username session' = sr_username session) \<and>
    (later - now \<le> AUTH_SESSION_TTL_MS \<longrightarrow> auth_ok later token s' = Some uid)"
proof -
  let ?n = "normalize_username lower (rq_username request)"
  obtain h where h: "hash (trim (rq_password request)) = Some h"
    using reg by (auto simp: register_account_def Let_def error_response_def split: if_splits option.splits)
  define u where "u = \<lparr>ur_user_id = uid, ur_username = ?n,
      ur_display_name = display_name_of (rq_display_name request) ?n,
      ur_password_hash = h, ur_created_at_ms = now, ur_wake = wake_default\<rparr>"
  obtain r s1 where c: "register_commit fault tmp u (env s) = (r, s1)" by fastforce
  from reg h have r: "r = Ok_with ()" and
    s': "s' = snd (persist_auth_sessions fault' (s1\<lparr>auth_sessions :=
            hput token \<lparr>au_user_id = uid, au_last_seen_ms = now\<rparr> (auth_sessions s1)\<rparr>))" and
    se: "sr_username session = ?n"
    by (cases r; auto simp: register_account_def Let_def create_session_eq u_def [symmetric] c
        error_response_def split: if_splits; simp add: u_def)+
  from c r have "hget (users s1) uid = Some u" "hget (username_index s1) ?n = Some uid"
    by (auto simp: register_commit_eq Let_def error_response_def u_def split: if_splits)
  then have m: "hget (users s') uid = Some u" "hget (username_index s') ?n = Some uid"
    by (simp_all add: s')
  have "verify (trim (rq_password request)) (ur_password_hash u)"
    using lib [OF h] by (simp add: u_def)
  with m se have "\<exists>session' s''. login_account lower verify later fault'' token' request s' = (Ok_with session', s'') \<and>
      sr_user_id session' = uid \<and> sr_username session' = sr_username session"
    by (simp add: login_account_def Let_def create_session_eq) (simp add: u_def)
  moreover have "later - now \<le> AUTH_SESSION_TTL_MS \<longrightarrow> auth_ok later token s' = Some uid"
    by (simp add: s' auth_ok_def)
  ultimately show ?thesis by blast
qed

theorem register_then_login_witness:
  "\<exists>session' s''. login_account (\<lambda>x. x) (\<lambda>p h. p = h) 2000 No_fault ''tok2'' demo_request
     (snd (register_account (\<lambda>x. x) Some 1000 No_fault No_fault ''.t'' ''u1'' ''tok'' (\<lambda>s. s)
        demo_request fresh_server)) = (Ok_with session', s'') \<and> sr_user_id session' = ''u1''"
proof -
  have t: "trim ''ann'' = ''ann''" "trim ''secret1'' = ''secret1''" by code_simp+
  obtain session s' where
    r: "register_account (\<lambda>x. x) Some 1000 No_fault No_fault ''.t'' ''u1'' ''tok'' (\<lambda>s. s)
          demo_request fresh_server = (Ok_with session, s')"
    by (auto simp: register_account_def Let_def demo_request_def normalize_username_def t
        MIN_PASSWORD_LEN_def register_commit_eq create_session_eq)
  show ?thesis
    using register_then_login [OF r, of "\<lambda>p h. p = h" 2000 No_fault "''tok2''"] by (auto simp: r)
qed



lemma load_fold:
  fixes now
  defines "f \<equiv> (\<lambda>user s. let user = user\<lparr>ur_wake := recover_after_restart now (ur_wake user)\<rparr>
            in s\<lparr>username_index := hput (ur_username user) (ur_user_id user) (username_index s),
                 users := hput (ur_user_id user) user (users s)\<rparr>)"
  assumes "distinct (map ur_user_id us)" "distinct (map ur_username us)"
  shows "hget (users (fold f us s)) i =
      (case find_user i us of None \<Rightarrow> hget (users s) i
       | Some u \<Rightarrow> Some (u\<lparr>ur_wake := recover_after_restart now (ur_wake u)\<rparr>))"
    and "hget (username_index (fold f us s)) n =
      (case List.find (\<lambda>u. ur_username u = n) us of None \<Rightarrow> hget (username_index s) n
       | Some u \<Rightarrow> Some (ur_user_id u))"
    and "files (fold f us s) = files s" "user_store_path (fold f us s) = user_store_path s"
  using assms(2-)
proof (induction us arbitrary: s)
  case Nil
  { case 1 then show ?case by (simp add: find_user_def) }
  { case 2 then show ?case by simp }
  { case 3 then show ?case by simp }
  { case 4 then show ?case by simp }
next
  case (Cons u us)
  have none: "find_user (ur_user_id u) us = None" "List.find (\<lambda>v. ur_username v = ur_username u) us = None"
    if "distinct (map ur_user_id (u # us))" "distinct (map ur_username (u # us))"
    using that by (auto simp: find_user_def find_None_iff image_iff)
  { case 1 then show ?case
      using Cons.IH(1) none(1) by (auto simp: f_def find_user_def Let_def split: option.splits) }
  { case 2 then show ?case
      using Cons.IH(2) none(2) by (auto simp: f_def Let_def split: option.splits) }
  { case 3 then show ?case using Cons.IH(3) by (simp add: f_def Let_def) }
  { case 4 then show ?case using Cons.IH(4) by (simp add: f_def Let_def) }
qed

lemma distinct_names:
  assumes "account_inv s" "represents us (users s)"
  shows "distinct (map ur_username us)"
proof -
  have d: "distinct us" "inj_on ur_user_id (set us)"
    using assms(2) by (auto simp: represents_def distinct_map)
  have "inj_on ur_username (set us)"
  proof (rule inj_onI)
    fix u v
    assume uv: "u \<in> set us" "v \<in> set us" "ur_username u = ur_username v"
    then have "hget (users s) (ur_user_id u) = Some u" "hget (users s) (ur_user_id v) = Some v"
      using assms(2) by (auto simp: represents_def)
    then have "ur_user_id u = ur_user_id v"
      using index_unique [of s] assms(1) uv(3) by (auto simp: account_inv_def)
    then show "u = v" using d(2) uv by (simp add: inj_on_def)
  qed
  with d show ?thesis by (simp add: distinct_map)
qed

lemma find_name_represents:
  assumes "account_inv s" "represents us (users s)"
  shows "map_option ur_user_id (List.find (\<lambda>u. ur_username u = n) us) = hget (username_index s) n"
proof (cases "List.find (\<lambda>u. ur_username u = n) us")
  case None
  then have "\<nexists>i u. hget (users s) i = Some u \<and> ur_username u = n"
    using assms(2) by (auto simp: find_None_iff represents_def)
  then have "hget (username_index s) n = None"
    using assms(1) by (metis account_inv_def index_ok_def not_Some_eq)
  with None show ?thesis by simp
next
  case (Some u)
  then have "u \<in> set us" "ur_username u = n"
    by (auto simp: find_Some_iff)
  then have "hget (users s) (ur_user_id u) = Some u"
    using assms(2) by (auto simp: represents_def)
  then have "hget (username_index s) n = Some (ur_user_id u)"
    using assms(1) \<open>ur_username u = n\<close> by (auto simp: account_inv_def index_ok_def)
  with Some show ?thesis by simp
qed

lemma load_auth_fields [simp]:
  "users (snd (load_auth_sessions now s)) = users s"
  "username_index (snd (load_auth_sessions now s)) = username_index s"
  "files (snd (load_auth_sessions now s)) = files s"
  "user_store_path (snd (load_auth_sessions now s)) = user_store_path s"
proof -
  have "users (fold (\<lambda>(token, session) s.
             if now - au_last_seen_ms session \<le> AUTH_SESSION_TTL_MS
             then s\<lparr>auth_sessions := hput token session (auth_sessions s)\<rparr> else s) l s) = users s \<and>
        username_index (fold (\<lambda>(token, session) s.
             if now - au_last_seen_ms session \<le> AUTH_SESSION_TTL_MS
             then s\<lparr>auth_sessions := hput token session (auth_sessions s)\<rparr> else s) l s) = username_index s \<and>
        files (fold (\<lambda>(token, session) s.
             if now - au_last_seen_ms session \<le> AUTH_SESSION_TTL_MS
             then s\<lparr>auth_sessions := hput token session (auth_sessions s)\<rparr> else s) l s) = files s \<and>
        user_store_path (fold (\<lambda>(token, session) s.
             if now - au_last_seen_ms session \<le> AUTH_SESSION_TTL_MS
             then s\<lparr>auth_sessions := hput token session (auth_sessions s)\<rparr> else s) l s) = user_store_path s"
    for l
    by (induction l arbitrary: s) auto
  then show
    "users (snd (load_auth_sessions now s)) = users s"
    "username_index (snd (load_auth_sessions now s)) = username_index s"
    "files (snd (load_auth_sessions now s)) = files s"
    "user_store_path (snd (load_auth_sessions now s)) = user_store_path s"
    by (simp_all add: load_auth_sessions_def split: option.split file_content.split)
qed

text \<open>A server that comes up on a database file with distinct ids and names, or on no file.\<close>

definition disk_users :: "string \<Rightarrow> (string, file_content) hmap \<Rightarrow> user_record list \<Rightarrow> bool" where
  "disk_users path disk us \<longleftrightarrow> hget disk path = None \<and> us = [] \<or> hget disk path = Some (Users_file us)"

lemma load_users_spec:
  assumes l: "load_users now (app_state_new path disk) = Some s"
    and disk: "disk_users path disk us"
    and d: "distinct (map ur_user_id us)" "distinct (map ur_username us)"
  shows "hget (users s) i =
      map_option (\<lambda>u. u\<lparr>ur_wake := recover_after_restart now (ur_wake u)\<rparr>) (find_user i us)"
    and "hget (username_index s) n = map_option ur_user_id (List.find (\<lambda>u. ur_username u = n) us)"
    and "user_store_path s = path"
proof -
  note lf = load_fold [OF d, of now "app_state_new path disk"]
  have "s = fold (\<lambda>user s. let user = user\<lparr>ur_wake := recover_after_restart now (ur_wake user)\<rparr>
            in s\<lparr>username_index := hput (ur_username user) (ur_user_id user) (username_index s),
                 users := hput (ur_user_id user) user (users s)\<rparr>) us (app_state_new path disk)"
    using l disk by (auto simp: load_users_def app_state_new_def disk_users_def)
  note s = this
  show "hget (users s) i =
      map_option (\<lambda>u. u\<lparr>ur_wake := recover_after_restart now (ur_wake u)\<rparr>) (find_user i us)"
    unfolding s lf(1) by (simp add: app_state_new_def split: option.split)
  show "hget (username_index s) n = map_option ur_user_id (List.find (\<lambda>u. ur_username u = n) us)"
    unfolding s lf(2) by (simp add: app_state_new_def split: option.split)
  show "user_store_path s = path"
    unfolding s lf(4) by (simp add: app_state_new_def)
qed

lemma start_server_eq:
  "start_server now fault tmp path disk =
     (case load_users now (app_state_new path disk) of
        None \<Rightarrow> None
      | Some s \<Rightarrow>
          if fault = No_fault
          then Some (snd (load_auth_sessions now (snd (write_user_snapshot fault tmp (hvalues (users s)) s))))
          else None)"
  by (auto simp: start_server_def persist_users_def write_user_snapshot_def
      split: option.split prod.split write_fault.splits)

lemma find_user_distinct:
  "distinct (map ur_user_id us) \<Longrightarrow> find_user i us = Some u \<longleftrightarrow> u \<in> set us \<and> ur_user_id u = i"
  unfolding find_user_def by (induction us) (auto simp: image_iff)

lemma find_name_distinct:
  "distinct (map ur_username us) \<Longrightarrow> List.find (\<lambda>u. ur_username u = n) us = Some u \<longleftrightarrow> u \<in> set us \<and> ur_username u = n"
  by (induction us) (auto simp: image_iff)

lemma start_server_spec:
  assumes st: "start_server now fault tmp path disk = Some s'" and tmp: "tmp \<noteq> path"
    and disk: "disk_users path disk us"
    and d: "distinct (map ur_user_id us)" "distinct (map ur_username us)"
  shows "account_inv s'"
    and "hget (users s') i =
      map_option (\<lambda>u. u\<lparr>ur_wake := recover_after_restart now (ur_wake u)\<rparr>) (find_user i us)"
    and "hget (username_index s') n = map_option ur_user_id (List.find (\<lambda>u. ur_username u = n) us)"
    and "user_store_path s' = path"
proof -
  obtain s where l: "load_users now (app_state_new path disk) = Some s" and fault: "fault = No_fault"
    and s': "s' = snd (load_auth_sessions now (snd (write_user_snapshot fault tmp (hvalues (users s)) s)))"
    using st by (auto simp: start_server_eq split: option.splits if_splits)
  note ld = load_users_spec [OF l disk d]
  have fl: "users s' = users s" "username_index s' = username_index s" "user_store_path s' = user_store_path s"
    by (simp_all add: s')
  show "hget (users s') i =
      map_option (\<lambda>u. u\<lparr>ur_wake := recover_after_restart now (ur_wake u)\<rparr>) (find_user i us)"
    "hget (username_index s') n = map_option ur_user_id (List.find (\<lambda>u. ur_username u = n) us)"
    "user_store_path s' = path"
    by (simp_all add: fl ld)
  have k: "users_keyed s"
    by (auto simp: users_keyed_def ld find_user_distinct [OF d(1)])
  have ix: "index_ok s"
    by (auto simp: index_ok_def ld find_user_distinct [OF d(1)] find_name_distinct [OF d(2)])
  have "hget (files s') path = Some (Users_file (hvalues (users s)))"
    using snapshot_file [of tmp s fault] tmp ld(3) by (simp add: s' fault)
  then have "store_synced s'"
    using represents_hvalues [OF k] by (auto simp: store_synced_def fl ld(3))
  with k ix show "account_inv s'"
    by (simp add: account_inv_def users_keyed_def index_ok_def fl)
qed

text \<open>
  C18: a restart restores the accounts.  A server started on the disk that a running server left
  behind has the same users under the same names, each with its wake data recovered (requests that
  were under way are marked interrupted), and satisfies the account invariant again.
\<close>

theorem restart_restores_accounts:
  assumes inv: "account_inv s" and tmp: "tmp \<noteq> user_store_path s"
  shows "\<exists>s'. start_server now No_fault tmp (user_store_path s) (files s) = Some s' \<and> account_inv s' \<and>
    (\<forall>i. hget (users s') i =
       map_option (\<lambda>u. u\<lparr>ur_wake := recover_after_restart now (ur_wake u)\<rparr>) (hget (users s) i)) \<and>
    (\<forall>n. hget (username_index s') n = hget (username_index s) n)"
proof -
  obtain us where us: "hget (files s) (user_store_path s) = Some (Users_file us)"
    and rep: "represents us (users s)"
    using inv by (auto simp: account_inv_def store_synced_def)
  obtain s' where st: "start_server now No_fault tmp (user_store_path s) (files s) = Some s'"
    using us by (simp add: start_server_eq load_users_def app_state_new_def)
  have d: "distinct (map ur_user_id us)" using rep by (simp add: represents_def)
  have "disk_users (user_store_path s) (files s) us" using us by (simp add: disk_users_def)
  note sp = start_server_spec [OF st tmp this d distinct_names [OF inv rep]]
  show ?thesis
    using st sp(1-3) find_user_represents [OF rep] find_name_represents [OF inv rep] by auto
qed

theorem restart_restores_accounts_witness:
  "\<exists>s'. start_server 2000 No_fault ''.t'' ''users.json''
      (hput ''users.json'' (Users_file []) hempty) = Some s' \<and> account_inv s'"
proof -
  have "user_store_path fresh_server = ''users.json''"
    "files fresh_server = hput ''users.json'' (Users_file []) hempty"
    by (simp_all add: fresh_server_def app_state_new_def)
  then show ?thesis
    using restart_restores_accounts [of fresh_server "''.t''" 2000] by auto
qed

end
