(* ===== verification/Screen_Lease.thy ===== *)
theory Screen_Lease
  imports Relay_Auth
begin

text \<open>
  Screen leases and frames (\<open>main.rs\<close>).  A host that captures on demand uploads frames only while
  some viewer holds an unexpired lease, and only for the current audience: the epoch grows each time
  an empty audience gets its first viewer.  The demand entry of a device is locked for the whole of an
  operation; it is read with \<open>demand_entry\<close> and written back with \<open>put_demand\<close>.
\<close>

section \<open>Leases\<close>

definition clear_demand_frames :: "string \<Rightarrow> app_state \<Rightarrow> app_state" where
  "clear_demand_frames device_id s =
     (if host_on_demand device_id s then s\<lparr>frames := hrem device_id (frames s)\<rparr> else s)"

definition no_viewers :: "screen_demand \<Rightarrow> bool" where
  "no_viewers demand \<longleftrightarrow> hlist (sd_viewers demand) = []"

definition prune_screen_demand ::
  "ms \<Rightarrow> string \<Rightarrow> screen_demand \<Rightarrow> app_state \<Rightarrow> screen_demand \<times> app_state" where
  "prune_screen_demand now device_id demand s =
     (let had_viewers = \<not> no_viewers demand;
          demand' = demand\<lparr>sd_viewers :=
            hretain (\<lambda>_ (token, until). now < until \<and> hhas (viewer_sessions s) token)
              (sd_viewers demand)\<rparr>
      in (demand',
          if had_viewers \<and> no_viewers demand' then clear_demand_frames device_id s else s))"

definition demand_entry :: "string \<Rightarrow> app_state \<Rightarrow> screen_demand" where
  "demand_entry device_id s = hor_default demand_default device_id (screen_demands s)"

definition put_demand :: "string \<Rightarrow> screen_demand \<Rightarrow> app_state \<Rightarrow> app_state" where
  "put_demand device_id demand s =
     s\<lparr>screen_demands := hput device_id demand (screen_demands s)\<rparr>"

definition renew_screen_lease ::
  "ms \<Rightarrow> string \<Rightarrow> string \<Rightarrow> string \<Rightarrow> app_state \<Rightarrow> bool \<times> app_state" where
  "renew_screen_lease now device_id token key s =
     (let (demand, s1) = prune_screen_demand now device_id (demand_entry device_id s) s;
          (ok, s2) = validate_viewer now device_id token s1
      in if \<not> ok then (False, put_demand device_id demand s2)
         else
           let (demand, s3) =
                 (if no_viewers demand
                  then (demand\<lparr>sd_epoch := sd_epoch demand + 1\<rparr>, clear_demand_frames device_id s2)
                  else (demand, s2));
               demand = demand\<lparr>sd_viewers :=
                 hput key (token, now + SCREEN_LEASE_MS) (sd_viewers demand)\<rparr>
           in (True, put_demand device_id demand s3))"

definition release_screen_lease :: "ms \<Rightarrow> string \<Rightarrow> string \<Rightarrow> app_state \<Rightarrow> app_state" where
  "release_screen_lease now device_id key s =
     (case hget (screen_demands s) device_id of
        None \<Rightarrow> s
      | Some demand0 \<Rightarrow>
          let demand1 = demand0\<lparr>sd_viewers := hrem key (sd_viewers demand0)\<rparr>;
              (demand, s1) = prune_screen_demand now device_id demand1 s;
              s2 = (if no_viewers demand then clear_demand_frames device_id s1 else s1)
          in put_demand device_id demand s2)"

definition screen_lease_alive :: "ms \<Rightarrow> string \<Rightarrow> string \<Rightarrow> app_state \<Rightarrow> bool" where
  "screen_lease_alive now device_id key s \<longleftrightarrow>
     (case hget (screen_demands s) device_id of
        None \<Rightarrow> False
      | Some d \<Rightarrow>
          (case hget (sd_viewers d) key of
             None \<Rightarrow> False
           | Some (token, until) \<Rightarrow> now < until \<and> hhas (viewer_sessions s) token))"

section \<open>The endpoints that manage leases\<close>

text \<open>\<open>GET /api/preview/host/viewers\<close>: capture epoch, number of viewers, remaining lease time.\<close>

definition host_screen_demand ::
  "ms \<Rightarrow> string \<Rightarrow> string \<Rightarrow> app_state \<Rightarrow> (nat \<times> nat \<times> ms) response \<times> app_state" where
  "host_screen_demand now device_id host_token s =
     (if \<not> validate_host now device_id host_token s then (Status 401, s)
      else
        let (demand, s1) = prune_screen_demand now device_id (demand_entry device_id s) s;
            until = fold max (map snd (hvalues (sd_viewers demand))) 0
        in (Ok_with (sd_epoch demand, length (hlist (sd_viewers demand)), until - now),
            put_demand device_id demand s1))"

definition stop_viewer_screen ::
  "ms \<Rightarrow> string \<Rightarrow> string \<Rightarrow> app_state \<Rightarrow> bool response \<times> app_state" where
  "stop_viewer_screen now device_id token s =
     (let demand0 = demand_entry device_id s;
          (ok, s1) = validate_viewer now device_id token s
      in if \<not> ok then (Status 401, put_demand device_id demand0 s1)
         else
           let demand = demand0\<lparr>sd_viewers := hretain (\<lambda>_ (t, _). t \<noteq> token) (sd_viewers demand0)\<rparr>;
               s2 = (if no_viewers demand then clear_demand_frames device_id s1 else s1)
           in (Ok_with True, put_demand device_id demand s2))"

definition close_viewer_session ::
  "ms \<Rightarrow> string \<Rightarrow> string \<Rightarrow> app_state \<Rightarrow> bool response \<times> app_state" where
  "close_viewer_session now device_id token s =
     (let demand0 = demand_entry device_id s;
          (ok, s1) = validate_viewer now device_id token s
      in if \<not> ok then (Status 401, put_demand device_id demand0 s1)
         else
           let s2 = s1\<lparr>viewer_sessions := hrem token (viewer_sessions s1)\<rparr>;
               (demand, s3) = prune_screen_demand now device_id demand0 s2
           in (Ok_with True, put_demand device_id demand s3))"

text \<open>The host ends every viewing session of its device.\<close>

definition disconnect_viewers_for_device :: "string \<Rightarrow> app_state \<Rightarrow> app_state" where
  "disconnect_viewers_for_device device_id s =
     (let demand = demand_entry device_id s;
          tokens = hkeys_where (\<lambda>_ v. vs_device_id v = device_id) (viewer_sessions s)
      in put_demand device_id (demand\<lparr>sd_viewers := hempty\<rparr>)
           (s\<lparr>viewer_sessions := fold hrem tokens (viewer_sessions s),
              frames := hrem device_id (frames s)\<rparr>))"

definition remove_preview_state :: "string \<Rightarrow> app_state \<Rightarrow> app_state" where
  "remove_preview_state device_id s0 =
     (let s = disconnect_viewers_for_device device_id s0
      in s\<lparr>previews := hrem device_id (previews s),
           frames := hrem device_id (frames s),
           command_queues := hrem device_id (command_queues s)\<rparr>)"

definition disconnect_viewers ::
  "ms \<Rightarrow> string \<Rightarrow> string \<Rightarrow> app_state \<Rightarrow> bool response \<times> app_state" where
  "disconnect_viewers now device_id host_token s =
     (if \<not> validate_host now device_id host_token s then (Status 401, s)
      else (Ok_with True, disconnect_viewers_for_device device_id s))"

definition unregister_preview ::
  "ms \<Rightarrow> string \<Rightarrow> string \<Rightarrow> app_state \<Rightarrow> unit response \<times> app_state" where
  "unregister_preview now device_id host_token s =
     (if \<not> validate_host now device_id host_token s then (Status 401, s)
      else (Status 200, remove_preview_state device_id s))"

section \<open>Normal forms\<close>

lemma hrem_twice: "hrem k (hrem k m) = hrem k m"
  by transfer (simp add: AList.delete_eq)

text \<open>
  The audience of a device at time \<open>now\<close> and the frames that survive an audience change.  With
  these, each operation is one record update of the shared state.
\<close>

definition audience :: "ms \<Rightarrow> string \<Rightarrow> app_state \<Rightarrow> (string, string \<times> ms) hmap" where
  "audience now d s =
     hretain (\<lambda>_ (token, until). now < until \<and> hhas (viewer_sessions s) token)
       (sd_viewers (demand_entry d s))"

definition cleared :: "bool \<Rightarrow> string \<Rightarrow> app_state \<Rightarrow> (string, frame_snapshot) hmap" where
  "cleared b d s = (if b \<and> host_on_demand d s then hrem d (frames s) else frames s)"

lemma hget_cleared:
  "hget (cleared b d s) d' =
     (if b \<and> host_on_demand d s \<and> d = d' then None else hget (frames s) d')"
  by (auto simp: cleared_def)

lemma no_viewers_iff: "no_viewers dem \<longleftrightarrow> (\<forall>k. hget (sd_viewers dem) k = None)"
proof -
  have "hlist m = [] \<longleftrightarrow> (\<forall>k. hget m k = None)" for m :: "(string, string \<times> ms) hmap"
    by (transfer) (metis list.set_intros(1) map_of_eq_None_iff image_eqI
        map_of.simps(1) list.exhaust)
  then show ?thesis by (simp add: no_viewers_def)
qed

lemma clear_demand_frames_eq: "clear_demand_frames d s = s\<lparr>frames := cleared True d s\<rparr>"
  by (simp add: clear_demand_frames_def cleared_def)

lemma host_on_demand_cong: "previews s = previews s' \<Longrightarrow> host_on_demand d s = host_on_demand d s'"
  by (simp add: host_on_demand_def)

lemma host_on_demand_upd [simp]:
  "host_on_demand d (s\<lparr>viewer_sessions := v\<rparr>) = host_on_demand d s"
  "host_on_demand d (s\<lparr>frames := f\<rparr>) = host_on_demand d s"
  "host_on_demand d (s\<lparr>screen_demands := sd\<rparr>) = host_on_demand d s"
  "host_on_demand d (s\<lparr>auth_sessions := a\<rparr>) = host_on_demand d s"
  by (simp_all add: host_on_demand_def)

lemma cleared_upd [simp]:
  "cleared b d (s\<lparr>viewer_sessions := v\<rparr>) = cleared b d s"
  "cleared b d (s\<lparr>screen_demands := sd\<rparr>) = cleared b d s"
  "cleared b d (s\<lparr>frames := cleared b' d s\<rparr>) = cleared (b \<or> b') d s"
  by (auto simp: cleared_def hrem_twice)

lemma demand_entry_upd [simp]:
  "demand_entry d (s\<lparr>viewer_sessions := v\<rparr>) = demand_entry d s"
  "demand_entry d (s\<lparr>frames := f\<rparr>) = demand_entry d s"
  "demand_entry d (s\<lparr>screen_demands := hput d' dem (screen_demands s)\<rparr>) =
     (if d = d' then dem else demand_entry d s)"
  by (simp_all add: demand_entry_def hor_default_def)

lemma prune_screen_demand_eq:
  "prune_screen_demand now d (demand_entry d s) s =
     ((demand_entry d s)\<lparr>sd_viewers := audience now d s\<rparr>,
      s\<lparr>frames := cleared (\<not> no_viewers (demand_entry d s) \<and>
                          (\<forall>k. hget (audience now d s) k = None)) d s\<rparr>)"
proof -
  have "(demand_entry d s)\<lparr>sd_viewers :=
      hretain (\<lambda>_ (token, until). now < until \<and> hhas (viewer_sessions s) token)
        (sd_viewers (demand_entry d s))\<rparr> =
    (demand_entry d s)\<lparr>sd_viewers := audience now d s\<rparr>"
    by (simp add: audience_def)
  then show ?thesis
    by (simp add: prune_screen_demand_def Let_def no_viewers_iff clear_demand_frames_def cleared_def)
qed

definition audience_empty :: "ms \<Rightarrow> string \<Rightarrow> app_state \<Rightarrow> bool" where
  "audience_empty now d s \<longleftrightarrow> no_viewers ((demand_entry d s)\<lparr>sd_viewers := audience now d s\<rparr>)"

lemma audience_empty_iff: "audience_empty now d s \<longleftrightarrow> (\<forall>k. hget (audience now d s) k = None)"
  by (simp add: audience_empty_def no_viewers_iff)

lemma no_viewers_audience [simp]:
  "no_viewers (dem\<lparr>sd_viewers := audience now d s\<rparr>) = audience_empty now d s"
  "no_viewers \<lparr>sd_epoch = e, sd_viewers = audience now d s\<rparr> = audience_empty now d s"
  by (simp_all add: audience_empty_iff no_viewers_iff)

lemmas prune_eq = prune_screen_demand_eq [folded audience_empty_iff]

lemma viewer_ok_upd [simp]:
  "viewer_ok now d t (s\<lparr>frames := f\<rparr>) = viewer_ok now d t s"
  "viewer_ok now d t (s\<lparr>screen_demands := sd\<rparr>) = viewer_ok now d t s"
  "viewers_touched now d t (s\<lparr>frames := f\<rparr>) = viewers_touched now d t s"
  "viewers_touched now d t (s\<lparr>screen_demands := sd\<rparr>) = viewers_touched now d t s"
  by (simp_all add: viewer_ok_def viewers_touched_def split: option.split)

definition renewed_epoch :: "ms \<Rightarrow> string \<Rightarrow> app_state \<Rightarrow> nat" where
  "renewed_epoch now d s =
     (if audience_empty now d s then sd_epoch (demand_entry d s) + 1 else sd_epoch (demand_entry d s))"

lemma demand_upd:
  "dem\<lparr>sd_viewers := v\<rparr> = \<lparr>sd_epoch = sd_epoch dem, sd_viewers = v\<rparr>"
  "dem\<lparr>sd_epoch := e\<rparr> = \<lparr>sd_epoch = e, sd_viewers = sd_viewers dem\<rparr>"
  for dem :: screen_demand
  by (cases dem; simp)+

lemma renew_eq:
  "renew_screen_lease now d tok key s =
     (if viewer_ok now d tok s
      then (True, s\<lparr>screen_demands :=
              hput d \<lparr>sd_epoch = renewed_epoch now d s,
                      sd_viewers = hput key (tok, now + SCREEN_LEASE_MS) (audience now d s)\<rparr>
                (screen_demands s),
              frames := cleared (audience_empty now d s) d s,
              viewer_sessions := viewers_touched now d tok s\<rparr>)
      else (False, s\<lparr>screen_demands :=
              hput d ((demand_entry d s)\<lparr>sd_viewers := audience now d s\<rparr>) (screen_demands s),
              frames := cleared (\<not> no_viewers (demand_entry d s) \<and> audience_empty now d s) d s,
              viewer_sessions := viewers_touched now d tok s\<rparr>))"
proof (cases "viewer_ok now d tok s")
  case True
  then show ?thesis
    by (cases "audience_empty now d s")
      (simp_all add: renew_screen_lease_def prune_eq Let_def validate_viewer_eq put_demand_def
        clear_demand_frames_eq renewed_epoch_def demand_upd)
next
  case False
  then show ?thesis
    by (simp add: renew_screen_lease_def prune_eq Let_def validate_viewer_eq put_demand_def)
qed

lemma hget_audience:
  "hget (audience now d s) k = Some (tok, until) \<longleftrightarrow>
     hget (sd_viewers (demand_entry d s)) k = Some (tok, until) \<and> now < until \<and>
     hhas (viewer_sessions s) tok"
  by (auto simp: audience_def split: option.splits)

lemma audience_empty_alive:
  "audience_empty now d s \<longleftrightarrow> (\<forall>key. \<not> screen_lease_alive now d key s)"
proof -
  have "screen_lease_alive now d key s \<longleftrightarrow> hget (audience now d s) key \<noteq> None" for key
    by (auto simp: screen_lease_alive_def audience_def demand_entry_def hor_default_def
        demand_default_def split: option.splits)
  then show ?thesis by (metis audience_empty_iff)
qed

lemma stop_eq:
  "stop_viewer_screen now d tok s =
     (if viewer_ok now d tok s
      then let dem = (demand_entry d s)\<lparr>sd_viewers :=
                       hretain (\<lambda>_ (t, _). t \<noteq> tok) (sd_viewers (demand_entry d s))\<rparr>
           in (Ok_with True,
               s\<lparr>screen_demands := hput d dem (screen_demands s),
                 frames := cleared (no_viewers dem) d s,
                 viewer_sessions := viewers_touched now d tok s\<rparr>)
      else (Status 401, s\<lparr>screen_demands := hput d (demand_entry d s) (screen_demands s),
                          viewer_sessions := viewers_touched now d tok s\<rparr>))"
  by (simp add: stop_viewer_screen_def Let_def validate_viewer_eq put_demand_def
      clear_demand_frames_eq) (simp add: cleared_def)

section \<open>How an operation may move the audience\<close>

text \<open>
  From \<open>s\<close> to \<open>s'\<close>, a frame kept for an on-demand host was there before, and neither the epoch
  changed nor did the audience become empty.  Every operation on leases is such a move.
\<close>

definition lease_move :: "app_state \<Rightarrow> app_state \<Rightarrow> bool" where
  "lease_move s s' \<longleftrightarrow>
     (\<forall>d. host_on_demand d s' \<longrightarrow> host_on_demand d s \<and>
        (hget (frames s') d = None \<or>
         hget (frames s') d = hget (frames s) d \<and>
         sd_epoch (demand_entry d s') = sd_epoch (demand_entry d s) \<and>
         (no_viewers (demand_entry d s') \<longrightarrow> no_viewers (demand_entry d s))))"

lemma lease_move_refl: "lease_move s s"
  by (simp add: lease_move_def)

lemma lease_move_trans: "lease_move s s' \<Longrightarrow> lease_move s' s'' \<Longrightarrow> lease_move s s''"
  unfolding lease_move_def by metis

lemma lease_move_same:
  assumes "frames s' = frames s" "screen_demands s' = screen_demands s"
    and "\<And>d. host_on_demand d s' \<Longrightarrow> host_on_demand d s"
  shows "lease_move s s'"
  using assms by (simp add: lease_move_def demand_entry_def)

lemma lease_move_at:
  assumes "previews s' = previews s"
    and "\<And>d'. d' \<noteq> d \<Longrightarrow> hget (frames s') d' = hget (frames s) d'"
    and "\<And>d'. d' \<noteq> d \<Longrightarrow> demand_entry d' s' = demand_entry d' s"
    and "host_on_demand d s \<Longrightarrow> hget (frames s') d \<noteq> None \<Longrightarrow>
           hget (frames s') d = hget (frames s) d \<and>
           sd_epoch (demand_entry d s') = sd_epoch (demand_entry d s) \<and>
           (no_viewers (demand_entry d s') \<longrightarrow> no_viewers (demand_entry d s))"
  shows "lease_move s s'"
  unfolding lease_move_def
proof (intro allI impI)
  fix d'
  assume od: "host_on_demand d' s'"
  have "host_on_demand d' s"
    using od host_on_demand_cong [OF assms(1)] by simp
  then show "host_on_demand d' s \<and>
        (hget (frames s') d' = None \<or>
         hget (frames s') d' = hget (frames s) d' \<and>
         sd_epoch (demand_entry d' s') = sd_epoch (demand_entry d' s) \<and>
         (no_viewers (demand_entry d' s') \<longrightarrow> no_viewers (demand_entry d' s)))"
    using assms(2-4) by (cases "d' = d") auto
qed

lemma audience_empty_no_viewers: "no_viewers (demand_entry d s) \<Longrightarrow> audience_empty now d s"
  by (auto simp: audience_empty_iff no_viewers_iff audience_def)

lemma no_viewers_hput [simp]: "\<not> no_viewers \<lparr>sd_epoch = e, sd_viewers = hput k v m\<rparr>"
  by (auto simp: no_viewers_iff)

lemma lease_move_renew: "lease_move s (snd (renew_screen_lease now d tok key s))"
  by (rule lease_move_at [where d = d])
    (auto simp: renew_eq hget_cleared renewed_epoch_def split: if_splits)

lemma lease_move_stop: "lease_move s (snd (stop_viewer_screen now d tok s))"
  by (rule lease_move_at [where d = d]) (auto simp: stop_eq Let_def hget_cleared split: if_splits)

text \<open>The leases that a prune keeps, and the demand it leaves.\<close>

definition live_demand :: "ms \<Rightarrow> (string, viewer_session) hmap \<Rightarrow> screen_demand \<Rightarrow> screen_demand" where
  "live_demand now sessions dem =
     dem\<lparr>sd_viewers := hretain (\<lambda>_ (token, until). now < until \<and> hhas sessions token) (sd_viewers dem)\<rparr>"

lemma prune_gen:
  "prune_screen_demand now d dem s =
     (live_demand now (viewer_sessions s) dem,
      s\<lparr>frames := cleared (\<not> no_viewers dem \<and> no_viewers (live_demand now (viewer_sessions s) dem)) d s\<rparr>)"
  by (simp add: prune_screen_demand_def Let_def live_demand_def clear_demand_frames_def cleared_def)

lemma live_demand_facts [simp]:
  "sd_epoch (live_demand now vs dem) = sd_epoch dem"
  "no_viewers dem \<Longrightarrow> no_viewers (live_demand now vs dem)"
  "hget (sd_viewers (live_demand now vs dem)) k = Some (tok, until) \<longleftrightarrow>
     hget (sd_viewers dem) k = Some (tok, until) \<and> now < until \<and> hhas vs tok"
  by (auto simp: live_demand_def no_viewers_iff split: option.splits)

lemma close_eq:
  "close_viewer_session now d tok s =
     (if viewer_ok now d tok s
      then let vs = hrem tok (viewers_touched now d tok s);
               dem = live_demand now vs (demand_entry d s)
           in (Ok_with True,
               s\<lparr>screen_demands := hput d dem (screen_demands s),
                 frames := cleared (\<not> no_viewers (demand_entry d s) \<and> no_viewers dem) d s,
                 viewer_sessions := vs\<rparr>)
      else (Status 401, s\<lparr>screen_demands := hput d (demand_entry d s) (screen_demands s),
                          viewer_sessions := viewers_touched now d tok s\<rparr>))"
  by (simp add: close_viewer_session_def Let_def validate_viewer_eq put_demand_def prune_gen)

lemma host_screen_demand_state:
  "snd (host_screen_demand now d ht s) =
     (if validate_host now d ht s
      then let dem = live_demand now (viewer_sessions s) (demand_entry d s)
           in s\<lparr>screen_demands := hput d dem (screen_demands s),
                frames := cleared (\<not> no_viewers (demand_entry d s) \<and> no_viewers dem) d s\<rparr>
      else s)"
  by (simp add: host_screen_demand_def Let_def put_demand_def prune_gen)

lemma release_eq:
  "release_screen_lease now d key s =
     (case hget (screen_demands s) d of
        None \<Rightarrow> s
      | Some dem0 \<Rightarrow>
          let dem = live_demand now (viewer_sessions s) (dem0\<lparr>sd_viewers := hrem key (sd_viewers dem0)\<rparr>)
          in s\<lparr>screen_demands := hput d dem (screen_demands s),
               frames := cleared (no_viewers dem) d s\<rparr>)"
  by (auto simp: release_screen_lease_def Let_def put_demand_def prune_gen clear_demand_frames_eq
      split: option.splits)

lemma lease_move_close: "lease_move s (snd (close_viewer_session now d tok s))"
  by (rule lease_move_at [where d = d]) (auto simp: close_eq Let_def hget_cleared split: if_splits)

lemma lease_move_host_demand: "lease_move s (snd (host_screen_demand now d ht s))"
  by (rule lease_move_at [where d = d])
    (auto simp: host_screen_demand_state Let_def hget_cleared split: if_splits)

lemma lease_move_release: "lease_move s (release_screen_lease now d key s)"
  by (rule lease_move_at [where d = d])
    (auto simp: release_eq Let_def hget_cleared demand_entry_def hor_default_def
      split: if_splits option.splits)

lemma lease_move_disconnect_for: "lease_move s (disconnect_viewers_for_device d s)"
  by (rule lease_move_at [where d = d])
    (simp_all add: disconnect_viewers_for_device_def Let_def put_demand_def demand_entry_def hor_default_def)

lemma lease_move_remove_preview: "lease_move s (remove_preview_state d s)"
proof -
  let ?s1 = "disconnect_viewers_for_device d s"
  have "lease_move ?s1 (remove_preview_state d s)"
    by (auto simp: lease_move_def remove_preview_state_def host_on_demand_def demand_entry_def
        Let_def split: option.splits)
  with lease_move_disconnect_for show ?thesis by (rule lease_move_trans)
qed

lemma lease_move_disconnect: "lease_move s (snd (disconnect_viewers now d ht s))"
  by (simp add: disconnect_viewers_def lease_move_disconnect_for lease_move_refl)

lemma lease_move_unregister: "lease_move s (snd (unregister_preview now d ht s))"
  by (simp add: unregister_preview_def lease_move_remove_preview lease_move_refl)

end
