(* ===== verification/Endian.thy ===== *)
theory Endian
  imports Prelude
begin

text \<open>
  Fixed-width integers as bytes: \<open>to_be_bytes\<close>, \<open>from_be_bytes\<close> and their little-endian
  counterparts, for the widths the protocols use.  A little-endian encoding is the reverse of the
  big-endian one.
\<close>

definition be16 :: "u16 \<Rightarrow> bytes" where
  "be16 w = [ucast (drop_bit 8 w), ucast w]"

definition be32 :: "u32 \<Rightarrow> bytes" where
  "be32 w = [ucast (drop_bit 24 w), ucast (drop_bit 16 w), ucast (drop_bit 8 w), ucast w]"

definition be64 :: "u64 \<Rightarrow> bytes" where
  "be64 w =
     [ucast (drop_bit 56 w), ucast (drop_bit 48 w), ucast (drop_bit 40 w), ucast (drop_bit 32 w),
      ucast (drop_bit 24 w), ucast (drop_bit 16 w), ucast (drop_bit 8 w), ucast w]"

text \<open>Reading is by position; every caller has checked the length first.\<close>

definition of_be16 :: "bytes \<Rightarrow> u16" where
  "of_be16 b = push_bit 8 (ucast (b ! 0)) OR ucast (b ! 1)"

definition of_be32 :: "bytes \<Rightarrow> u32" where
  "of_be32 b =
     push_bit 24 (ucast (b ! 0)) OR push_bit 16 (ucast (b ! 1)) OR
     push_bit 8 (ucast (b ! 2)) OR ucast (b ! 3)"

definition of_be64 :: "bytes \<Rightarrow> u64" where
  "of_be64 b =
     push_bit 56 (ucast (b ! 0)) OR push_bit 48 (ucast (b ! 1)) OR
     push_bit 40 (ucast (b ! 2)) OR push_bit 32 (ucast (b ! 3)) OR
     push_bit 24 (ucast (b ! 4)) OR push_bit 16 (ucast (b ! 5)) OR
     push_bit 8 (ucast (b ! 6)) OR ucast (b ! 7)"

abbreviation le32 :: "u32 \<Rightarrow> bytes" where "le32 w \<equiv> rev (be32 w)"
abbreviation le64 :: "u64 \<Rightarrow> bytes" where "le64 w \<equiv> rev (be64 w)"
abbreviation of_le32 :: "bytes \<Rightarrow> u32" where "of_le32 b \<equiv> of_be32 (rev b)"
abbreviation of_le64 :: "bytes \<Rightarrow> u64" where "of_le64 b \<equiv> of_be64 (rev b)"

lemma length_be [simp]: "length (be16 v) = 2" "length (be32 w) = 4" "length (be64 x) = 8"
  by (simp_all add: be16_def be32_def be64_def)

lemma u8_bit_high: "8 \<le> n \<Longrightarrow> \<not> bit (b :: u8) n"
  using bit_imp_le_length [of b n] by auto

text \<open>The byte cut out at position \<open>k\<close> and put back there holds the bits \<open>k\<close> to \<open>k + 7\<close>.\<close>

lemma bit_byte_at:
  assumes "k + 8 \<le> LENGTH('a::len)"
  shows "bit (push_bit k (ucast (ucast (drop_bit k (w :: 'a word)) :: u8)) :: 'a word) n \<longleftrightarrow>
         k \<le> n \<and> n < k + 8 \<and> bit w n"
  using assms by (auto simp: bit_simps dest: bit_imp_le_length)

lemma bit_byte_0:
  assumes "8 \<le> LENGTH('a::len)"
  shows "bit (ucast (ucast (w :: 'a word) :: u8) :: 'a word) n \<longleftrightarrow> n < 8 \<and> bit w n"
  using assms by (auto simp: bit_simps dest: bit_imp_le_length)

lemmas bit_bytes = bit_byte_at bit_byte_0 bit_or_iff

lemma of_be16_be16 [simp]: "of_be16 (be16 w) = w"
  by (rule bit_word_eqI) (simp add: of_be16_def be16_def bit_bytes, linarith)

lemma of_be32_be32 [simp]: "of_be32 (be32 w) = w"
proof (rule bit_word_eqI)
  fix n assume "n < LENGTH(32)"
  then have "24 \<le> n \<and> n < 32 \<or> 16 \<le> n \<and> n < 24 \<or> 8 \<le> n \<and> n < 16 \<or> n < 8" by auto
  then show "bit (of_be32 (be32 w)) n = bit w n"
    by (auto simp: of_be32_def be32_def bit_bytes)
qed

lemma of_be64_be64 [simp]: "of_be64 (be64 w) = w"
proof (rule bit_word_eqI)
  fix n assume "n < LENGTH(64)"
  then have "56 \<le> n \<and> n < 64 \<or> 48 \<le> n \<and> n < 56 \<or> 40 \<le> n \<and> n < 48 \<or> 32 \<le> n \<and> n < 40 \<or>
    24 \<le> n \<and> n < 32 \<or> 16 \<le> n \<and> n < 24 \<or> 8 \<le> n \<and> n < 16 \<or> n < 8" by auto
  then show "bit (of_be64 (be64 w)) n = bit w n"
    by (elim disjE) (simp_all add: of_be64_def be64_def bit_bytes)
qed

lemma list4: "length b = 4 \<Longrightarrow> b = [b ! 0, b ! 1, b ! 2, b ! 3]"
  by (auto simp: length_Suc_conv eval_nat_numeral)

lemma be32_of_be32: "length b = 4 \<Longrightarrow> be32 (of_be32 b) = b"
proof -
  assume "length b = 4"
  then obtain p q r t where b: "b = [p, q, r, t]" using list4 by blast
  have "ucast (drop_bit 24 (of_be32 b)) = p"
    by (rule bit_word_eqI) (simp add: b of_be32_def bit_simps u8_bit_high)
  moreover have "ucast (drop_bit 16 (of_be32 b)) = q"
    by (rule bit_word_eqI) (simp add: b of_be32_def bit_simps u8_bit_high)
  moreover have "ucast (drop_bit 8 (of_be32 b)) = r"
    by (rule bit_word_eqI) (simp add: b of_be32_def bit_simps u8_bit_high)
  moreover have "ucast (of_be32 b) = t"
    by (rule bit_word_eqI) (simp add: b of_be32_def bit_simps u8_bit_high)
  ultimately show ?thesis by (simp add: be32_def b)
qed

end
