(* ===== verification/Frames.thy ===== *)
theory Frames
  imports Screen_Lease Endian
begin

text \<open>
  Frames (\<open>main.rs\<close>): a host uploads its latest JPEG, a viewer fetches it.  An upload from an
  on-demand host is accepted only for the audience it was captured for; a fetch renews the viewer's
  lease first, so a fetch by the first viewer of a new audience finds no frame of an older audience.
\<close>

section \<open>Upload\<close>

record frame_upload_query =
  fq_device_id :: string
  fq_host_token :: string
  fq_width :: u32
  fq_height :: u32
  fq_timestamp_ms :: "ms option"
  fq_capture_epoch :: "nat option"

text \<open>\<open>value.filter(|v| *v > 0).unwrap_or(received_at_ms)\<close>\<close>

definition captured_at :: "ms \<Rightarrow> ms option \<Rightarrow> ms" where
  "captured_at received t = (case t of Some v \<Rightarrow> if 0 < v then v else received | None \<Rightarrow> received)"

definition broadcast_frame :: "string \<Rightarrow> ws_frame \<Rightarrow> app_state \<Rightarrow> app_state" where
  "broadcast_frame device_id frame s =
     (case hget (frame_broadcasters s) device_id of
        None \<Rightarrow> s
      | Some sent \<Rightarrow>
          s\<lparr>frame_broadcasters := hput device_id (sent @ [frame]) (frame_broadcasters s)\<rparr>)"

definition upload_frame ::
  "ms \<Rightarrow> frame_upload_query \<Rightarrow> bytes \<Rightarrow> app_state \<Rightarrow> ms response \<times> app_state" where
  "upload_frame now query body s =
     (let device_id = fq_device_id query in
      if \<not> validate_host now device_id (fq_host_token query) s then (Status 401, s)
      else
        let on_demand = host_on_demand device_id s;
            (demand, s1) = prune_screen_demand now device_id (demand_entry device_id s) s
        in if on_demand \<and> (no_viewers demand \<or> fq_capture_epoch query \<noteq> Some (sd_epoch demand))
           then (Status 409, put_demand device_id demand s1)
           else
             let received_at_ms = now;
                 captured_at_ms = captured_at received_at_ms (fq_timestamp_ms query);
                 s2 = broadcast_frame device_id
                        \<lparr>wf_bytes = body, wf_width = fq_width query, wf_height = fq_height query,
                         wf_captured_at_ms = captured_at_ms,
                         wf_relay_received_at_ms = received_at_ms\<rparr> s1;
                 s3 = s2\<lparr>frames := hput device_id
                        \<lparr>fs_bytes = body, fs_width = fq_width query, fs_height = fq_height query,
                         fs_captured_at_ms = captured_at_ms,
                         fs_relay_received_at_ms = received_at_ms,
                         fs_updated_at_ms = received_at_ms\<rparr> (frames s2)\<rparr>
             in (Ok_with now, put_demand device_id demand s3))"

section \<open>Fetch\<close>

definition frame_headers :: "ms \<Rightarrow> frame_snapshot \<Rightarrow> header_map" where
  "frame_headers now frame =
     insert_header ''x-rdesk-relay-sent-at'' (to_decimal now)
      (insert_header ''x-rdesk-relay-received-at'' (to_decimal (fs_relay_received_at_ms frame))
       (insert_header ''x-rdesk-captured-at'' (to_decimal (fs_captured_at_ms frame))
        (insert_header ''x-rdesk-timestamp'' (to_decimal (fs_captured_at_ms frame))
         (insert_header ''x-rdesk-height'' (to_decimal (unat (fs_height frame)))
          (insert_header ''x-rdesk-width'' (to_decimal (unat (fs_width frame)))
           (hput ''cache-control'' ''no-store''
            (hput ''content-type'' ''image/jpeg'' hempty)))))))"

definition fetch_frame ::
  "ms \<Rightarrow> string \<Rightarrow> string \<Rightarrow> app_state \<Rightarrow> (header_map \<times> bytes) response \<times> app_state" where
  "fetch_frame now device_id token s =
     (let (ok, s1) = validate_viewer now device_id token s in
      if \<not> ok then (Status 401, s1)
      else
        let (renewed, s2) = renew_screen_lease now device_id token token s1 in
        if \<not> renewed then (Status 401, s2)
        else
          case hget (frames s2) device_id of
            None \<Rightarrow> (Status 503, s2)
          | Some frame \<Rightarrow>
              if \<not> is_fresh now (fs_updated_at_ms frame) PREVIEW_TTL_MS then (Status 503, s2)
              else (Ok_with (frame_headers now frame, fs_bytes frame), s2))"

section \<open>Frames on the viewer's socket\<close>

text \<open>
  \<open>RDF1\<close>, width, height, capture time, relay time (little endian), then the JPEG.  The host's own
  packet is width, height, capture time, then the JPEG.
\<close>

definition rdf1 :: bytes where "rdf1 = [0x52, 0x44, 0x46, 0x31]"

definition viewer_packet :: "ws_frame \<Rightarrow> bytes" where
  "viewer_packet frame =
     rdf1 @ le32 (wf_width frame) @ le32 (wf_height frame) @
     le64 (of_nat (wf_captured_at_ms frame)) @ le64 (of_nat (wf_relay_received_at_ms frame)) @
     wf_bytes frame"

definition parse_host_packet :: "bytes \<Rightarrow> (u32 \<times> u32 \<times> u64 \<times> bytes) option" where
  "parse_host_packet b =
     (if length b < 16 then None
      else Some (of_le32 (take 4 b), of_le32 (take 4 (drop 4 b)), of_le64 (take 8 (drop 8 b)),
                 drop 16 b))"

section \<open>Upload and fetch in normal form\<close>

lemma demand_fold:
  "demand_entry d (s\<lparr>screen_demands := hput d' dem (screen_demands s')\<rparr>) =
     (if d = d' then dem else demand_entry d s')"
  by (simp add: demand_entry_def hor_default_def)

lemma demand_entry_broadcast [simp]:
  "demand_entry d (broadcast_frame d' f s) = demand_entry d s"
  by (simp add: broadcast_frame_def demand_entry_def split: option.splits)

lemma broadcast_frame_fields [simp]:
  "frames (broadcast_frame d f s) = frames s"
  "screen_demands (broadcast_frame d f s) = screen_demands s"
  "previews (broadcast_frame d f s) = previews s"
  "viewer_sessions (broadcast_frame d f s) = viewer_sessions s"
  by (simp_all add: broadcast_frame_def split: option.splits)

definition upload_admissible :: "ms \<Rightarrow> frame_upload_query \<Rightarrow> app_state \<Rightarrow> bool" where
  "upload_admissible now q s \<longleftrightarrow>
     host_on_demand (fq_device_id q) s \<longrightarrow>
       \<not> audience_empty now (fq_device_id q) s \<and>
       fq_capture_epoch q = Some (sd_epoch (demand_entry (fq_device_id q) s))"

definition uploaded_frame :: "ms \<Rightarrow> frame_upload_query \<Rightarrow> bytes \<Rightarrow> frame_snapshot" where
  "uploaded_frame now q body =
     \<lparr>fs_bytes = body, fs_width = fq_width q, fs_height = fq_height q,
      fs_captured_at_ms = captured_at now (fq_timestamp_ms q),
      fs_relay_received_at_ms = now, fs_updated_at_ms = now\<rparr>"

lemma upload_frame_response:
  "fst (upload_frame now q body s) =
     (if \<not> validate_host now (fq_device_id q) (fq_host_token q) s then Status 401
      else if upload_admissible now q s then Ok_with now else Status 409)"
  by (auto simp: upload_frame_def Let_def prune_eq upload_admissible_def)

lemma upload_frame_frames:
  "validate_host now (fq_device_id q) (fq_host_token q) s \<Longrightarrow> upload_admissible now q s \<Longrightarrow>
   hget (frames (snd (upload_frame now q body s))) d =
     (if d = fq_device_id q then Some (uploaded_frame now q body) else hget (frames s) d)"
  by (auto simp: upload_frame_def Let_def prune_eq upload_admissible_def uploaded_frame_def
      put_demand_def hget_cleared)

lemma upload_frame_demand:
  "demand_entry d (snd (upload_frame now q body s)) =
     (if d = fq_device_id q \<and> validate_host now d (fq_host_token q) s
      then (demand_entry d s)\<lparr>sd_viewers := audience now d s\<rparr> else demand_entry d s)"
  by (auto simp: upload_frame_def Let_def prune_eq put_demand_def demand_fold)

lemma upload_frame_previews [simp]: "previews (snd (upload_frame now q body s)) = previews s"
  by (simp add: upload_frame_def Let_def prune_eq put_demand_def)

lemma upload_frame_rejected:
  assumes "\<not> (validate_host now (fq_device_id q) (fq_host_token q) s \<and> upload_admissible now q s)"
  shows "lease_move s (snd (upload_frame now q body s))"
proof (cases "validate_host now (fq_device_id q) (fq_host_token q) s")
  case True
  with assms show ?thesis
    by (intro lease_move_at [where d = "fq_device_id q"])
      (auto simp: upload_frame_demand,
       auto simp: upload_frame_def Let_def prune_eq upload_admissible_def put_demand_def hget_cleared
        split: if_splits)
qed (simp add: upload_frame_def lease_move_refl)

lemma viewer_ok_touched [simp]:
  "viewer_ok now d tok (s\<lparr>viewer_sessions := viewers_touched now d tok s\<rparr>) = viewer_ok now d tok s"
  unfolding viewer_ok_def by (simp add: hget_viewers_touched) (auto simp: viewer_ok_def split: option.splits)

lemma viewers_touched_twice [simp]:
  "viewers_touched now d tok (s\<lparr>viewer_sessions := viewers_touched now d tok s\<rparr>) =
     viewers_touched now d tok s"
proof (cases "hget (viewer_sessions s) tok")
  case None
  then show ?thesis by (simp add: viewers_touched_def)
next
  case (Some v)
  then show ?thesis
    using viewer_ok_touched [of now d tok s]
    by (cases "viewer_ok now d tok s") (simp_all add: viewers_touched_def DAList.update_update_eq)
qed

lemma audience_touched [simp]:
  "audience now d (s\<lparr>viewer_sessions := viewers_touched now' d' tok s\<rparr>) = audience now d s"
  "audience_empty now d (s\<lparr>viewer_sessions := viewers_touched now' d' tok s\<rparr>) = audience_empty now d s"
  "renewed_epoch now d (s\<lparr>viewer_sessions := viewers_touched now' d' tok s\<rparr>) = renewed_epoch now d s"
  by (simp_all add: audience_def audience_empty_iff renewed_epoch_def)

lemma renew_touched:
  "renew_screen_lease now d tok key (s\<lparr>viewer_sessions := viewers_touched now d tok s\<rparr>) =
     renew_screen_lease now d tok key s"
  by (simp add: renew_eq)

text \<open>A fetch answers from the state that its own renewal of the lease leaves.\<close>

lemma fetch_frame_eq:
  "fetch_frame now d tok s =
     (if \<not> viewer_ok now d tok s then (Status 401, s\<lparr>viewer_sessions := viewers_touched now d tok s\<rparr>)
      else
        let s2 = snd (renew_screen_lease now d tok tok s)
        in case hget (frames s2) d of
             None \<Rightarrow> (Status 503, s2)
           | Some f \<Rightarrow> if now - fs_updated_at_ms f \<le> PREVIEW_TTL_MS
                       then (Ok_with (frame_headers now f, fs_bytes f), s2)
                       else (Status 503, s2))"
proof (cases "viewer_ok now d tok s")
  case True
  obtain s2 where "renew_screen_lease now d tok tok s = (True, s2)"
    using True by (simp add: renew_eq)
  then show ?thesis
    using True by (simp add: fetch_frame_def validate_viewer_eq renew_touched is_fresh_def
        split: option.split)
qed (simp add: fetch_frame_def validate_viewer_eq)

end
