(* ===== verification/Capture_Props.thy ===== *)
theory Capture_Props
  imports Frames
begin

text \<open>
  What a viewer and a host may rely on: which uploads are accepted, what a fetch can return, and
  that closing a session or disconnecting the viewers takes effect at once.
\<close>

section \<open>Leases after an operation\<close>

lemma alive_iff:
  "screen_lease_alive t d key s \<longleftrightarrow>
     (\<exists>tok until. hget (sd_viewers (demand_entry d s)) key = Some (tok, until) \<and> t < until \<and>
        hhas (viewer_sessions s) tok)"
  by (auto simp: screen_lease_alive_def demand_entry_def hor_default_def demand_default_def
      split: option.splits)

lemma hget_audience_alive:
  "hget (audience now d s) key \<noteq> None \<longleftrightarrow> screen_lease_alive now d key s"
  by (auto simp: alive_iff hget_audience)

text \<open>
  Renewing a lease succeeds exactly for a live viewer session of that device.  On success the
  lease lives for 10 s, the capture epoch grows exactly when nobody was watching, every other lease of
  the device that was alive keeps its token and expiry, and other devices see no change.
\<close>

lemma renew_screen_lease_spec:
  "\<exists>s'. renew_screen_lease now d tok key s = (viewer_ok now d tok s, s') \<and>
    (viewer_ok now d tok s \<longrightarrow>
       (\<forall>t. screen_lease_alive t d key s' \<longleftrightarrow> t < now + SCREEN_LEASE_MS) \<and>
       sd_epoch (demand_entry d s') =
         sd_epoch (demand_entry d s) + (if \<exists>k. screen_lease_alive now d k s then 0 else 1)) \<and>
    (\<forall>t k. now \<le> t \<longrightarrow> k \<noteq> key \<longrightarrow> screen_lease_alive t d k s' = screen_lease_alive t d k s) \<and>
    (\<forall>d'. d' \<noteq> d \<longrightarrow> demand_entry d' s' = demand_entry d' s \<and>
                     hget (frames s') d' = hget (frames s) d')"
proof (cases "viewer_ok now d tok s")
  case True
  have tok: "hhas (viewer_sessions s) tok"
    using True by (auto simp: viewer_ok_def hhas_def)
  have "audience_empty now d s \<longleftrightarrow> \<not> (\<exists>k. screen_lease_alive now d k s)"
    by (simp add: audience_empty_alive)
  with True tok show ?thesis
    by (auto simp: renew_eq alive_iff hget_audience renewed_epoch_def hget_cleared)
next
  case False
  then show ?thesis
    by (auto simp: renew_eq alive_iff hget_audience hget_cleared)
qed

text \<open>A state with one on-demand host and one viewer, for the concrete instances below.\<close>

definition demo_host :: "bool \<Rightarrow> preview_registration" where
  "demo_host on_demand =
     \<lparr>pr_device_id = ''123'', pr_user_id = None, pr_platform = ''macos'', pr_hostname = ''mac'',
      pr_password_hash = ''h'', pr_auto_accept = False, pr_trusted_viewers = [],
      pr_host_token = ''ht'', pr_on_demand_capture = on_demand, pr_updated_at_ms = 1000\<rparr>"

definition demo_state :: "bool \<Rightarrow> app_state" where
  "demo_state on_demand =
     (app_state_new ''data/users.json'' hempty)
       \<lparr>previews := hput ''123'' (demo_host on_demand) hempty,
        viewer_sessions := hput ''vt'' \<lparr>vs_device_id = ''123'', vs_last_seen_ms = 1000\<rparr> hempty\<rparr>"

text \<open>
  An upload is accepted exactly when the host token is valid and, for an on-demand host, someone
  is watching and the frame was captured for the current epoch.  An accepted frame, and only that
  one, replaces the stored frame of the device; no frame of another device changes.
\<close>

lemma upload_frame_spec:
  fixes q body s
  defines "d \<equiv> fq_device_id q"
  shows
  "(case upload_frame now q body s of
      (Ok_with server_time, s') \<Rightarrow>
         server_time = now \<and> validate_host now d (fq_host_token q) s \<and>
         (host_on_demand d s \<longrightarrow> (\<exists>k. screen_lease_alive now d k s) \<and>
            fq_capture_epoch q = Some (sd_epoch (demand_entry d s))) \<and>
         hget (frames s') d = Some (uploaded_frame now q body) \<and>
         (\<forall>d'. d' \<noteq> d \<longrightarrow> hget (frames s') d' = hget (frames s) d')
    | (Status n, s') \<Rightarrow>
         if validate_host now d (fq_host_token q) s
         then n = 409 \<and> host_on_demand d s \<and>
           \<not> ((\<exists>k. screen_lease_alive now d k s) \<and>
              fq_capture_epoch q = Some (sd_epoch (demand_entry d s))) \<and>
           hget (frames s') d \<in> {None, hget (frames s) d}
         else n = 401 \<and> s' = s
    | (Error_msg _ _, s') \<Rightarrow> False)"
proof -
  have ae: "audience_empty now d s \<longleftrightarrow> \<not> (\<exists>k. screen_lease_alive now d k s)"
    by (simp add: audience_empty_alive)
  consider (bad) "\<not> validate_host now d (fq_host_token q) s"
    | (conflict) "validate_host now d (fq_host_token q) s" "\<not> upload_admissible now q s"
    | (ok) "validate_host now d (fq_host_token q) s" "upload_admissible now q s"
    by blast
  then show ?thesis
  proof cases
    case bad
    then show ?thesis by (simp add: upload_frame_def d_def)
  next
    case ok
    then show ?thesis
      using upload_frame_response [of now q body s] upload_frame_frames [of now q s body] ae
      by (cases "upload_frame now q body s") (auto simp: d_def upload_admissible_def)
  next
    case conflict
    then have "hget (frames (snd (upload_frame now q body s))) d \<in> {None, hget (frames s) d}"
      by (auto simp: upload_frame_def Let_def prune_eq put_demand_def hget_cleared d_def
          upload_admissible_def split: if_splits)
    with conflict show ?thesis
      using upload_frame_response [of now q body s] ae
      by (cases "upload_frame now q body s") (auto simp: d_def upload_admissible_def)
  qed
qed

lemma demo_simps [simp]:
  "viewer_ok 2000 ''123'' ''vt'' (demo_state b)"
  "demand_entry d (demo_state b) = demand_default"
  "host_on_demand ''123'' (demo_state b) \<longleftrightarrow> b"
  "validate_host 2000 ''123'' ''ht'' (demo_state b)"
  "frames (demo_state b) = hempty"
  by (simp_all add: demo_state_def demo_host_def app_state_new_def viewer_ok_def demand_entry_def
      hor_default_def host_on_demand_def validate_host_iff relay_constants)

lemma demo_not_alive [simp]: "\<not> screen_lease_alive t d k (demo_state b)"
  by (simp add: alive_iff demand_default_def)

lemma renew_screen_lease_spec_witness:
  "\<exists>s'. renew_screen_lease 2000 ''123'' ''vt'' ''k'' (demo_state True) = (True, s') \<and>
     screen_lease_alive 11999 ''123'' ''k'' s' \<and> \<not> screen_lease_alive 12000 ''123'' ''k'' s' \<and>
     sd_epoch (demand_entry ''123'' s') = 1"
  using renew_screen_lease_spec [of 2000 "''123''" "''vt''" "''k''" "demo_state True"]
  by (auto simp: relay_constants demand_default_def)

definition demo_upload :: frame_upload_query where
  "demo_upload =
     \<lparr>fq_device_id = ''123'', fq_host_token = ''ht'', fq_width = 2, fq_height = 1,
      fq_timestamp_ms = None, fq_capture_epoch = Some 0\<rparr>"

lemma upload_frame_spec_witness:
  "fst (upload_frame 2000 demo_upload [1] (demo_state True)) = Status 409 \<and>
   hget (frames (snd (upload_frame 2000 demo_upload [1] (demo_state False)))) ''123'' =
     Some (uploaded_frame 2000 demo_upload [1])"
proof
  have "fst (upload_frame 2000 demo_upload [1] (demo_state True)) = Status 409"
    using upload_frame_spec [where now = 2000 and q = demo_upload and body = "[1]" and s = "demo_state True"]
    by (cases "upload_frame 2000 demo_upload [1] (demo_state True)")
      (auto simp: demo_upload_def split: response.splits)
  then show "fst (upload_frame 2000 demo_upload [1] (demo_state True)) = Status 409" .
  show "hget (frames (snd (upload_frame 2000 demo_upload [1] (demo_state False)))) ''123'' =
     Some (uploaded_frame 2000 demo_upload [1])"
    using upload_frame_spec [where now = 2000 and q = demo_upload and body = "[1]" and s = "demo_state False"]
    by (cases "upload_frame 2000 demo_upload [1] (demo_state False)")
      (auto simp: demo_upload_def split: response.splits)
qed

text \<open>
  The first viewer of a new audience never sees an old frame.  If the host captures on demand
  and no lease is alive, a fetch with a valid session answers 503 and opens a new epoch, whatever
  frame was stored; an invalid session gets 401 and moves nothing but its own check.
\<close>

lemma fetch_new_audience:
  assumes "host_on_demand d s" and "\<And>k. \<not> screen_lease_alive now d k s"
  shows "fst (fetch_frame now d tok s) = Status (if viewer_ok now d tok s then 503 else 401) \<and>
    sd_epoch (demand_entry d (snd (fetch_frame now d tok s))) =
      sd_epoch (demand_entry d s) + (if viewer_ok now d tok s then 1 else 0)"
proof -
  have "audience_empty now d s"
    using assms(2) by (simp add: audience_empty_alive)
  then show ?thesis
    using assms(1) by (simp add: fetch_frame_eq Let_def renew_eq hget_cleared renewed_epoch_def)
qed

lemma fetch_new_audience_witness:
  "fst (fetch_frame 2000 ''123'' ''vt''
     ((demo_state True)\<lparr>frames := hput ''123'' (uploaded_frame 1900 demo_upload [1]) hempty\<rparr>)) =
   Status 503"
proof -
  let ?s = "(demo_state True)\<lparr>frames := hput ''123'' (uploaded_frame 1900 demo_upload [1]) hempty\<rparr>"
  have "\<not> screen_lease_alive 2000 ''123'' k ?s" for k
    by (simp add: alive_iff demand_default_def)
  then show ?thesis
    using fetch_new_audience [of "''123''" ?s 2000 "''vt''"] by simp
qed

text \<open>
  C9: closing a viewer session takes effect at once: the token is no longer a session for any
  device, no lease held with it is alive, and the leases held with other tokens stay alive.
\<close>

theorem close_viewer_session_revokes:
  assumes "close_viewer_session now d tok s = (Ok_with b, s')" and "now \<le> t"
  shows "\<not> viewer_ok t d' tok s' \<and>
    (screen_lease_alive t d' k s' \<longleftrightarrow>
       screen_lease_alive t d' k s \<and>
       map_option fst (hget (sd_viewers (demand_entry d' s)) k) \<noteq> Some tok)"
proof -
  from assms(1) have ok: "viewer_ok now d tok s" and
    s': "s' = snd (close_viewer_session now d tok s)"
    by (auto simp: close_eq split: if_splits)
  have "hget (viewer_sessions s') tok = None"
    by (simp add: s' close_eq ok Let_def)
  then have "\<not> viewer_ok t d' tok s'"
    by (simp add: viewer_ok_def)
  have hh: "hhas (viewer_sessions s') tk \<longleftrightarrow> tk \<noteq> tok \<and> hhas (viewer_sessions s) tk" for tk
    by (auto simp: s' close_eq ok Let_def)
  have dem: "demand_entry d' s' =
      (if d' = d then live_demand now (viewer_sessions s') (demand_entry d s) else demand_entry d' s)"
    by (simp add: s' close_eq ok Let_def)
  have "screen_lease_alive t d' k s' \<longleftrightarrow>
      (\<exists>tk until. hget (sd_viewers (demand_entry d' s)) k = Some (tk, until) \<and> t < until \<and>
         tk \<noteq> tok \<and> hhas (viewer_sessions s) tk)"
    unfolding alive_iff dem using assms(2) by (cases "d' = d") (auto simp: hh)
  also have "\<dots> \<longleftrightarrow> screen_lease_alive t d' k s \<and>
      map_option fst (hget (sd_viewers (demand_entry d' s)) k) \<noteq> Some tok"
    unfolding alive_iff by auto
  finally show ?thesis using \<open>\<not> viewer_ok t d' tok s'\<close> by blast
qed

theorem close_viewer_session_revokes_witness:
  "fst (fetch_frame 2002 ''123'' ''vt'' (snd (close_viewer_session 2000 ''123'' ''vt'' (demo_state True)))) =
     Status 401"
proof -
  have "fst (close_viewer_session 2000 ''123'' ''vt'' (demo_state True)) = Ok_with True"
    by (simp add: close_eq Let_def)
  then obtain s' where s': "close_viewer_session 2000 ''123'' ''vt'' (demo_state True) = (Ok_with True, s')"
    by (metis prod.collapse)
  show ?thesis
    using close_viewer_session_revokes [OF s', of 2002 "''123''"] by (simp add: s' fetch_frame_eq)
qed

text \<open>
  A host that disconnects its viewers ends every session and every lease of its device and drops
  its frame; sessions of other devices and their frames are left alone.
\<close>

lemma disconnect_viewers_effect:
  assumes "disconnect_viewers now d ht s = (Ok_with b, s')"
  shows "\<not> viewer_ok t d tok s' \<and> \<not> screen_lease_alive t d k s' \<and> hget (frames s') d = None \<and>
    (d' \<noteq> d \<longrightarrow> viewer_ok t d' tok s' = viewer_ok t d' tok s \<and> hget (frames s') d' = hget (frames s) d')"
proof -
  from assms have "s' = disconnect_viewers_for_device d s"
    by (auto simp: disconnect_viewers_def split: if_splits)
  then show ?thesis
    by (auto simp: disconnect_viewers_for_device_def Let_def put_demand_def viewer_ok_def alive_iff
        demand_fold hget_fold_hrem set_hkeys_where split: if_splits)
qed

lemma disconnect_viewers_effect_witness:
  "fst (fetch_frame 2001 ''123'' ''vt'' (snd (disconnect_viewers 2000 ''123'' ''ht'' (demo_state True)))) =
     Status 401"
proof -
  have "disconnect_viewers 2000 ''123'' ''ht'' (demo_state True) =
      (Ok_with True, disconnect_viewers_for_device ''123'' (demo_state True))"
    by (simp add: disconnect_viewers_def)
  from disconnect_viewers_effect [OF this, of 2001 "''vt''"] show ?thesis
    by (simp add: fetch_frame_eq disconnect_viewers_def)
qed

end
