(* ===== verification/Commands.thy ===== *)
theory Commands
  imports Relay_Auth
begin

text \<open>
  Commands from a viewer to a host (\<open>main.rs\<close>).  A viewer's request queues a command for the
  device and waits on a oneshot channel; the host takes commands off the queue by long polling and
  posts the result.  A command nobody fetched within 15 s is answered with a failure.
\<close>

section \<open>Results\<close>

text \<open>\<open>if let Some((_, sender)) = command_waiters.remove(id) { let _ = sender.send(result); }\<close>\<close>

definition send_result :: "string \<Rightarrow> command_result \<Rightarrow> app_state \<Rightarrow> app_state" where
  "send_result cid r s =
     (if hhas (command_waiters s) cid
      then s\<lparr>command_waiters := hrem cid (command_waiters s),
             oneshots := hput cid r (oneshots s)\<rparr>
      else s)"

definition complete_host_command ::
  "ms \<Rightarrow> string \<Rightarrow> string \<Rightarrow> string \<Rightarrow> bool \<Rightarrow> string option \<Rightarrow> app_state \<Rightarrow> unit response \<times> app_state" where
  "complete_host_command now device_id host_token command_id ok text s =
     (if \<not> validate_host now device_id host_token s then (Status 401, s)
      else (Status 200, send_result command_id \<lparr>cr_ok = ok, cr_text = text\<rparr> s))"

section \<open>Forwarding\<close>

definition queue_command :: "ms \<Rightarrow> string \<Rightarrow> string \<Rightarrow> string \<Rightarrow> json \<Rightarrow> app_state \<Rightarrow> app_state" where
  "queue_command now device_id command_id kind payload s =
     s\<lparr>command_waiters := hput command_id () (command_waiters s),
       command_queues := hput device_id
         (hor_default [] device_id (command_queues s) @
            [\<lparr>pc_command_id = command_id, pc_kind = kind, pc_payload = payload,
              pc_queued_at_ms = now\<rparr>])
         (command_queues s)\<rparr>"

text \<open>
  \<open>forward_command_within\<close> up to its suspension: an error status, or the id it now waits on.
  The rest runs when the channel or the timer fires; \<open>None\<close> means it is still waiting.  The
  timer polls the channel first, so a result that has arrived wins over the timeout.
\<close>

definition forward_start ::
  "ms \<Rightarrow> string \<Rightarrow> string \<Rightarrow> string \<Rightarrow> string \<Rightarrow> json \<Rightarrow> app_state \<Rightarrow> (nat + string) \<times> app_state" where
  "forward_start now device_id token kind command_id payload s =
     (let (ok, s1) = validate_viewer now device_id token s in
      if \<not> ok then (Inl 401, s1)
      else
        case hget (previews s1) device_id of
          None \<Rightarrow> (Inl 404, s1)
        | Some preview \<Rightarrow>
            if \<not> is_fresh now (pr_updated_at_ms preview) PREVIEW_TTL_MS then (Inl 404, s1)
            else (Inr command_id, queue_command now device_id command_id kind payload s1))"

definition forward_finish ::
  "string \<Rightarrow> bool \<Rightarrow> app_state \<Rightarrow> (nat + command_result) option \<times> app_state" where
  "forward_finish command_id timed_out s =
     (case hget (oneshots s) command_id of
        Some r \<Rightarrow> (Some (Inr r), s\<lparr>oneshots := hrem command_id (oneshots s)\<rparr>)
      | None \<Rightarrow>
          if \<not> hhas (command_waiters s) command_id then (Some (Inl 502), s)
          else if timed_out
          then (Some (Inl 504), s\<lparr>command_waiters := hrem command_id (command_waiters s)\<rparr>)
          else (None, s))"

section \<open>The host's side of the queue\<close>

fun expire_loop :: "ms \<Rightarrow> pending_command list \<Rightarrow> app_state \<Rightarrow> pending_command list \<times> app_state" where
  "expire_loop now [] s = ([], s)"
| "expire_loop now (command # queue) s =
     (if is_fresh now (pc_queued_at_ms command) COMMAND_TTL_MS then (command # queue, s)
      else expire_loop now queue
             (send_result (pc_command_id command) \<lparr>cr_ok = False, cr_text = None\<rparr> s))"

definition expire_stale_device_commands :: "ms \<Rightarrow> string \<Rightarrow> app_state \<Rightarrow> app_state" where
  "expire_stale_device_commands now device_id s =
     (case hget (command_queues s) device_id of
        None \<Rightarrow> s
      | Some queue \<Rightarrow>
          let (queue', s') = expire_loop now queue s
          in s'\<lparr>command_queues := hput device_id queue' (command_queues s')\<rparr>)"

text \<open>One turn of the long poll: drop what is stale, then take the head.\<close>

definition poll_turn :: "ms \<Rightarrow> string \<Rightarrow> app_state \<Rightarrow> pending_command option \<times> app_state" where
  "poll_turn now device_id s =
     (let s1 = expire_stale_device_commands now device_id s in
      case hget (command_queues s1) device_id of
        None \<Rightarrow> (None, s1)
      | Some [] \<Rightarrow> (None, s1)
      | Some (command # queue) \<Rightarrow>
          (Some command, s1\<lparr>command_queues := hput device_id queue (command_queues s1)\<rparr>))"

text \<open>
  The loop.  \<open>t\<close> is the monotonic clock.  Turn \<open>i\<close> reads the wall clock as \<open>wall i\<close>; its sleep takes
  at least one tick, oversleeps by \<open>late i\<close>, and the other handlers act on the state meanwhile (\<open>env i\<close>).
\<close>

function poll_loop ::
  "(nat \<Rightarrow> ms) \<Rightarrow> (nat \<Rightarrow> ms) \<Rightarrow> (nat \<Rightarrow> app_state \<Rightarrow> app_state) \<Rightarrow> string \<Rightarrow> ms \<Rightarrow> nat \<Rightarrow> ms \<Rightarrow> app_state \<Rightarrow>
     pending_command response \<times> app_state" where
  "poll_loop wall late env device_id deadline i t s =
     (case poll_turn (wall i) device_id s of
        (Some command, s1) \<Rightarrow> (Ok_with command, s1)
      | (None, s1) \<Rightarrow>
          if deadline \<le> t then (Status 204, s1)
          else poll_loop wall late env device_id deadline (Suc i)
                 (t + HOST_COMMAND_POLL_TICK + late i) (env i s1))"
  by pat_completeness auto

termination
  by (relation "measure (\<lambda>(_, _, _, _, deadline, _, t, _). Suc deadline - t)")
    (auto simp: HOST_COMMAND_POLL_TICK_def)

declare poll_loop.simps [simp del]

definition poll_host_command ::
  "(nat \<Rightarrow> ms) \<Rightarrow> (nat \<Rightarrow> ms) \<Rightarrow> (nat \<Rightarrow> app_state \<Rightarrow> app_state) \<Rightarrow> ms \<Rightarrow> string \<Rightarrow> string \<Rightarrow> app_state \<Rightarrow>
     pending_command response \<times> app_state" where
  "poll_host_command wall late env start device_id host_token s =
     (if \<not> validate_host (wall 0) device_id host_token s then (Status 401, s)
      else poll_loop wall late env device_id (start + HOST_COMMAND_LONG_POLL) 0 start s)"

section \<open>The viewer's endpoints\<close>

text \<open>Coordinates are \<open>f64\<close>; two endpoints pass the request body through.\<close>

datatype viewer_command =
  Trust string string string
| Tap u64 u64
| Action string
| LongPress u64 u64
| Drag u64 u64 u64 u64
| DragPath json
| Quality json
| Text_input string
| ClipboardSet string
| ClipboardGet
| ListDisplays

fun command_kind :: "viewer_command \<Rightarrow> string" where
  "command_kind (Trust _ _ _) = ''trust''"
| "command_kind (Tap _ _) = ''tap''"
| "command_kind (Action _) = ''action''"
| "command_kind (LongPress _ _) = ''long_press''"
| "command_kind (Drag _ _ _ _) = ''drag''"
| "command_kind (DragPath _) = ''drag_path''"
| "command_kind (Quality _) = ''quality''"
| "command_kind (Text_input _) = ''text''"
| "command_kind (ClipboardSet _) = ''clipboard_set''"
| "command_kind ClipboardGet = ''clipboard_get''"
| "command_kind ListDisplays = ''list_displays''"

fun command_payload :: "viewer_command \<Rightarrow> json" where
  "command_payload (Trust device_id hostname peer_os) =
     JObj [(''deviceId'', JStr device_id), (''hostname'', JStr hostname), (''peerOs'', JStr peer_os)]"
| "command_payload (Tap x y) = JObj [(''x'', JFloat x), (''y'', JFloat y)]"
| "command_payload (Action a) = JObj [(''action'', JStr a)]"
| "command_payload (LongPress x y) = JObj [(''x'', JFloat x), (''y'', JFloat y)]"
| "command_payload (Drag sx sy ex ey) =
     JObj [(''startX'', JFloat sx), (''startY'', JFloat sy), (''endX'', JFloat ex), (''endY'', JFloat ey)]"
| "command_payload (DragPath v) = v"
| "command_payload (Quality v) = v"
| "command_payload (Text_input t) = JObj [(''text'', JStr t)]"
| "command_payload (ClipboardSet t) = JObj [(''text'', JStr t)]"
| "command_payload ClipboardGet = JObj []"
| "command_payload ListDisplays = JObj []"

datatype command_body = Ok_body bool | Clipboard_body "string option" | Displays_body string

text \<open>The response of an endpoint, from what \<open>forward_command\<close> returned.\<close>

definition relay_bool_command :: "nat + command_result \<Rightarrow> command_body response" where
  "relay_bool_command outcome =
     (case outcome of Inr result \<Rightarrow> Ok_with (Ok_body (cr_ok result)) | Inl status \<Rightarrow> Status status)"

definition command_response :: "viewer_command \<Rightarrow> nat + command_result \<Rightarrow> command_body response" where
  "command_response c outcome =
     (case c of
        ClipboardGet \<Rightarrow>
          (case outcome of
             Inr result \<Rightarrow> Ok_with (Clipboard_body (cr_text result)) | Inl status \<Rightarrow> Status status)
      | ListDisplays \<Rightarrow>
          (case outcome of
             Inr result \<Rightarrow> Ok_with (Displays_body (case cr_text result of Some t \<Rightarrow> t | None \<Rightarrow> ''[]''))
           | Inl status \<Rightarrow> Status status)
      | _ \<Rightarrow> relay_bool_command outcome)"

definition send_command ::
  "ms \<Rightarrow> string \<Rightarrow> string \<Rightarrow> string \<Rightarrow> viewer_command \<Rightarrow> app_state \<Rightarrow> (nat + string) \<times> app_state" where
  "send_command now device_id token command_id c s =
     forward_start now device_id token (command_kind c) command_id (command_payload c) s"

end
