(* ===== verification/Files.thy ===== *)
theory Files
  imports Commands
begin

text \<open>
  Files in transit (\<open>main.rs\<close>).  A viewer's upload is admitted against a global budget before its
  body is read, held until the host has fetched it, and given back however the request ends.
\<close>

section \<open>File names\<close>

definition path_sep :: "char \<Rightarrow> bool" where
  "path_sep c \<longleftrightarrow> c = CHR ''/'' \<or> c = CHR 0x5C"

definition safe_file_name :: "string \<Rightarrow> string option" where
  "safe_file_name raw =
     (let base = after_last path_sep raw;
          cleaned = concat (take 200 (filter (\<lambda>c. \<not> is_control c) (chars base)));
          cleaned = trim cleaned
      in if cleaned = [] \<or> cleaned = ''.'' \<or> cleaned = ''..'' then None else Some cleaned)"

section \<open>Reservations\<close>

text \<open>
  \<open>FileReservation::try_new\<close>: the compare-and-swap loop of \<open>fetch_update\<close> is one atomic update of the
  total.  Dropping a reservation is \<open>fetch_sub\<close>, which wraps.
\<close>

definition try_reserve :: "u64 \<Rightarrow> app_state \<Rightarrow> bool \<times> app_state" where
  "try_reserve sz s =
     (let held = file_bytes s in
      if unat held + unat sz < 2 ^ 64 \<and> unat (held + sz) \<le> FILE_STORE_MAX_BYTES
      then (True, s\<lparr>file_bytes := held + sz\<rparr>)
      else (False, s))"

definition drop_reservation :: "u64 \<Rightarrow> app_state \<Rightarrow> app_state" where
  "drop_reservation sz s = s\<lparr>file_bytes := file_bytes s - sz\<rparr>"

definition drop_held :: "string \<Rightarrow> app_state \<Rightarrow> app_state" where
  "drop_held file_id s = s\<lparr>file_store := hrem file_id (file_store s)\<rparr>"

section \<open>Upload\<close>

record file_upload_query =
  uq_device_id :: string
  uq_token :: string
  uq_filename :: string
  uq_remote_path :: string

definition admit_file ::
  "ms \<Rightarrow> file_upload_query \<Rightarrow> header_map \<Rightarrow> app_state \<Rightarrow>
     ((nat \<times> message) + (string \<times> u64)) \<times> app_state" where
  "admit_file now query headers s =
     (let (ok, s1) = validate_viewer now (uq_device_id query) (uq_token query) s in
      if \<not> ok then (Inl (401, MsgNone), s1)
      else
        case safe_file_name (uq_filename query) of
          None \<Rightarrow> (Inl (400, MsgBadFileName), s1)
        | Some filename \<Rightarrow>
            (case Option.bind (header_str headers ''content-length'') parse_usize of
               None \<Rightarrow> (Inl (411, MsgMissingLength), s1)
             | Some sz \<Rightarrow>
                 if FILE_MAX_BYTES < sz then (Inl (413, MsgFileTooLarge), s1)
                 else
                   let (reserved, s2) = try_reserve (of_nat sz) s1 in
                   if \<not> reserved then (Inl (507, MsgNoSpace), s2)
                   else (Inr (filename, of_nat sz), s2)))"

text \<open>
  The body: \<open>received\<close> is what \<open>to_bytes\<close> collected, \<open>None\<close> when the client failed or sent more
  than the limit.  Anything but exactly the declared size ends the request, dropping the reservation.
\<close>

definition body_complete :: "u64 \<Rightarrow> bytes option \<Rightarrow> bytes option" where
  "body_complete sz received =
     (case received of
        None \<Rightarrow> None
      | Some data \<Rightarrow> if length data = unat sz then Some data else None)"

definition relay_file_start ::
  "ms \<Rightarrow> file_upload_query \<Rightarrow> string \<Rightarrow> string \<Rightarrow> string \<Rightarrow> bytes \<Rightarrow> app_state \<Rightarrow>
     (nat + string) \<times> app_state" where
  "relay_file_start now query filename file_id command_id body s =
     (let s1 = s\<lparr>file_store := hput file_id
            \<lparr>fb_data = body, fb_filename = filename, fb_created_at_ms = now,
             fb_device_id = uq_device_id query\<rparr> (file_store s)\<rparr>
      in forward_start now (uq_device_id query) (uq_token query) ''file_receive'' command_id
           (JObj [(''file_id'', JStr file_id), (''filename'', JStr filename),
                  (''size'', JInt (int (length body)))]) s1)"

text \<open>Leaving \<open>file_upload\<close>: \<open>HeldFile\<close> is dropped, then the reservation.\<close>

definition relay_file_end :: "string \<Rightarrow> u64 \<Rightarrow> app_state \<Rightarrow> app_state" where
  "relay_file_end file_id sz s = drop_reservation sz (drop_held file_id s)"

definition file_upload ::
  "ms \<Rightarrow> file_upload_query \<Rightarrow> header_map \<Rightarrow> (app_state \<Rightarrow> app_state) \<Rightarrow> bytes option \<Rightarrow> string \<Rightarrow> string \<Rightarrow>
     app_state \<Rightarrow> ((bool \<times> string option) response + string) \<times> app_state" where
  "file_upload now query headers env received file_id command_id s =
     (case admit_file now query headers s of
        (Inl (status, MsgNone), s1) \<Rightarrow> (Inl (Status status), s1)
      | (Inl (status, message), s1) \<Rightarrow> (Inl (error_response status message), s1)
      | (Inr (filename, sz), s1) \<Rightarrow>
          let s2 = env s1 in
          (case body_complete sz received of
             None \<Rightarrow> (Inl (error_response 400 MsgIncompleteUpload), drop_reservation sz s2)
           | Some data \<Rightarrow>
               (case relay_file_start now query filename file_id command_id data s2 of
                  (Inl status, s3) \<Rightarrow> (Inl (Status status), relay_file_end file_id sz s3)
                | (Inr waiting, s3) \<Rightarrow> (Inr waiting, s3))))"

text \<open>When the wait for the host ends, with the outcome of \<open>forward_finish\<close>.\<close>

definition file_upload_finish ::
  "string \<Rightarrow> string \<Rightarrow> u64 \<Rightarrow> bool \<Rightarrow> app_state \<Rightarrow> (bool \<times> string option) response option \<times> app_state" where
  "file_upload_finish file_id command_id sz timed_out s =
     (case forward_finish command_id timed_out s of
        (None, s1) \<Rightarrow> (None, s1)
      | (Some (Inr result), s1) \<Rightarrow>
          (Some (Ok_with (cr_ok result, cr_text result)), relay_file_end file_id sz s1)
      | (Some (Inl status), s1) \<Rightarrow> (Some (Status status), relay_file_end file_id sz s1))"

section \<open>Download and listing\<close>

definition file_host_download ::
  "ms \<Rightarrow> string \<Rightarrow> string \<Rightarrow> string \<Rightarrow> app_state \<Rightarrow> bytes response \<times> app_state" where
  "file_host_download now file_id device_id host_token s =
     (if \<not> validate_host now device_id host_token s then (Status 401, s)
      else
        let owned = (case hget (file_store s) file_id of
                       None \<Rightarrow> False | Some blob \<Rightarrow> fb_device_id blob = device_id)
        in if \<not> owned then (Status 404, s)
           else case hget (file_store s) file_id of
                  None \<Rightarrow> (Status 404, s)
                | Some blob \<Rightarrow>
                    (Ok_with (fb_data blob), s\<lparr>file_store := hrem file_id (file_store s)\<rparr>))"

definition file_download ::
  "ms \<Rightarrow> string \<Rightarrow> string \<Rightarrow> app_state \<Rightarrow> (header_map \<times> bytes) response \<times> app_state" where
  "file_download now file_id token s =
     (case hget (file_store s) file_id of
        None \<Rightarrow> (Status 404, s)
      | Some blob \<Rightarrow>
          let (ok, s1) = validate_viewer now (fb_device_id blob) token s in
          if \<not> ok then (Status 401, s1)
          else (Ok_with (insert_header ''x-rdesk-filename'' (fb_filename blob)
                           (hput ''content-type'' ''application/octet-stream'' hempty),
                         fb_data blob), s1))"

text \<open>\<open>file_list_request\<close>; the id in its answer is a fresh one, not that of the command it queued.\<close>

definition file_list_start ::
  "ms \<Rightarrow> string \<Rightarrow> string \<Rightarrow> string \<Rightarrow> string \<Rightarrow> app_state \<Rightarrow> (nat + string) \<times> app_state" where
  "file_list_start now device_id token path command_id s =
     (let (ok, s1) = validate_viewer now device_id token s in
      if \<not> ok then (Inl 401, s1)
      else forward_start now device_id token ''file_list'' command_id (JObj [(''path'', JStr path)]) s1)"

definition file_list_response ::
  "string \<Rightarrow> nat + command_result \<Rightarrow> (bool \<times> string \<times> string) response" where
  "file_list_response response_id outcome =
     (case outcome of
        Inl status \<Rightarrow> Status status
      | Inr result \<Rightarrow>
          Ok_with (True, (case cr_text result of Some t \<Rightarrow> t | None \<Rightarrow> ''[]''), response_id))"

end
