(* ===== verification/Previews.thy ===== *)
theory Previews
  imports Commands Screen_Lease
begin

text \<open>
  Host registrations and how a viewer gets a session (\<open>register_preview\<close>, \<open>resolve_preview\<close> of
  \<open>main.rs\<close>).  A registration is renewed with its host token or by its account owner.  A viewer is let
  in by the device password, as a trusted device under auto-accept, as the same account, or, without a
  password, after the host accepts an incoming request.
\<close>

section \<open>Registering a host\<close>

record register_preview_request =
  rp_device_id :: string
  rp_auth_token :: "string option"
  rp_host_token :: "string option"
  rp_platform :: string
  rp_hostname :: string
  rp_password_hash :: string
  rp_auto_accept :: bool
  rp_trusted_viewers :: "string list"
  rp_on_demand_capture :: bool

definition register_preview ::
  "ms \<Rightarrow> string \<Rightarrow> register_preview_request \<Rightarrow> app_state \<Rightarrow> string response \<times> app_state" where
  "register_preview now new_token request s =
     (let existing = hget (previews s) (rp_device_id request);
          (host_token, s1) =
            (case existing of
               None \<Rightarrow> (Some new_token, s)
             | Some entry \<Rightarrow>
                 let provided = (case rp_host_token request of Some t \<Rightarrow> t | None \<Rightarrow> [])
                 in if provided \<noteq> [] \<and> provided = pr_host_token entry
                    then (Some (pr_host_token entry), s)
                    else
                      let (caller_uid, s1) = validate_auth_token now (rp_auth_token request) s
                      in if caller_uid \<noteq> None \<and> pr_user_id entry \<noteq> None \<and> caller_uid = pr_user_id entry
                         then (Some (pr_host_token entry), s1) else (None, s1))
      in case host_token of
           None \<Rightarrow> (Status 401, s1)
         | Some host_token \<Rightarrow>
             let (auth_user, s2) = validate_auth_token now (rp_auth_token request) s1;
                 user_id = (case auth_user of
                              Some u \<Rightarrow> Some u
                            | None \<Rightarrow> Option.bind existing pr_user_id);
                 registration =
                   \<lparr>pr_device_id = rp_device_id request, pr_user_id = user_id,
                    pr_platform = rp_platform request, pr_hostname = rp_hostname request,
                    pr_password_hash = rp_password_hash request,
                    pr_auto_accept = rp_auto_accept request,
                    pr_trusted_viewers = rp_trusted_viewers request,
                    pr_host_token = host_token,
                    pr_on_demand_capture = rp_on_demand_capture request,
                    pr_updated_at_ms = now\<rparr>
             in (Ok_with host_token,
                 s2\<lparr>previews := hput (rp_device_id request) registration (previews s2)\<rparr>))"

section \<open>Resolving a device\<close>

record resolve_preview_request =
  rr_password_hash :: "string option"
  rr_requester_id :: "string option"
  rr_auth_token :: "string option"
  rr_requester_hostname :: "string option"
  rr_requester_peer_os :: "string option"

record resolve_preview_response =
  rs_found :: bool
  rs_authorized :: bool
  rs_endpoint :: "string option"
  rs_platform :: "string option"
  rs_hostname :: "string option"
  rs_updated_at_ms :: "ms option"

definition unresolved_response :: resolve_preview_response where
  "unresolved_response =
     \<lparr>rs_found = False, rs_authorized = False, rs_endpoint = None, rs_platform = None,
      rs_hostname = None, rs_updated_at_ms = None\<rparr>"

definition unauthorized_response :: resolve_preview_response where
  "unauthorized_response = unresolved_response\<lparr>rs_found := True\<rparr>"

definition nonempty :: "string option \<Rightarrow> string option" where
  "nonempty v = (case v of None \<Rightarrow> None | Some x \<Rightarrow> if x = [] then None else Some x)"

definition request_public_origin :: "header_map \<Rightarrow> string" where
  "request_public_origin headers =
     (let host_value = (case hget headers ''x-forwarded-host'' of
                          Some v \<Rightarrow> Some v | None \<Rightarrow> hget headers ''host'');
          host = (case nonempty (Option.bind host_value header_to_str) of
                    Some h \<Rightarrow> h | None \<Rightarrow> ''127.0.0.1:21116'');
          proto = (case nonempty (header_str headers ''x-forwarded-proto'') of
                     Some p \<Rightarrow> p | None \<Rightarrow> ''http'')
      in proto @ ''://'' @ host)"

definition frame_endpoint :: "header_map \<Rightarrow> string \<Rightarrow> string \<Rightarrow> string" where
  "frame_endpoint headers device_id viewer_token =
     request_public_origin headers @ ''/frame.jpg?device_id='' @ device_id @ ''&token='' @ viewer_token"

text \<open>Issue a viewer session and answer with its endpoint.\<close>

definition grant_viewer ::
  "ms \<Rightarrow> header_map \<Rightarrow> string \<Rightarrow> string \<Rightarrow> preview_registration \<Rightarrow> app_state \<Rightarrow>
     resolve_preview_response \<times> app_state" where
  "grant_viewer now headers device_id viewer_token registration s =
     (\<lparr>rs_found = True, rs_authorized = True,
       rs_endpoint = Some (frame_endpoint headers device_id viewer_token),
       rs_platform = Some (pr_platform registration), rs_hostname = Some (pr_hostname registration),
       rs_updated_at_ms = Some (pr_updated_at_ms registration)\<rparr>,
      s\<lparr>viewer_sessions := hput viewer_token \<lparr>vs_device_id = device_id, vs_last_seen_ms = now\<rparr>
          (viewer_sessions s)\<rparr>)"

text \<open>The UTF-8 encodings of the two default texts, ``unknown device'' and ``unknown''.\<close>

definition unknown_os :: string where
  "unknown_os = [CHR 0xE6, CHR 0x9C, CHR 0xAA, CHR 0xE7, CHR 0x9F, CHR 0xA5]"

definition unknown_device :: string where
  "unknown_device = unknown_os @ [CHR 0xE8, CHR 0xAE, CHR 0xBE, CHR 0xE5, CHR 0xA4, CHR 0x87]"

definition incoming_request :: "resolve_preview_request \<Rightarrow> string \<Rightarrow> json" where
  "incoming_request request requester_id =
     JObj [(''deviceId'', JStr requester_id),
           (''hostname'', JStr (case rr_requester_hostname request of
              Some h \<Rightarrow> h | None \<Rightarrow> unknown_device)),
           (''peerOs'', JStr (case rr_requester_peer_os request of
              Some h \<Rightarrow> h | None \<Rightarrow> unknown_os))]"

definition password_ok :: "resolve_preview_request \<Rightarrow> preview_registration \<Rightarrow> bool" where
  "password_ok request registration \<longleftrightarrow>
     (case rr_password_hash request of
        None \<Rightarrow> False | Some h \<Rightarrow> h \<noteq> [] \<and> h = pr_password_hash registration)"

definition trusted_ok :: "resolve_preview_request \<Rightarrow> preview_registration \<Rightarrow> bool" where
  "trusted_ok request registration \<longleftrightarrow>
     pr_auto_accept registration \<and>
     (case rr_requester_id request of
        None \<Rightarrow> False | Some r \<Rightarrow> List.member (pr_trusted_viewers registration) r)"

definition same_account ::
  "ms \<Rightarrow> resolve_preview_request \<Rightarrow> preview_registration \<Rightarrow> app_state \<Rightarrow> bool \<times> app_state" where
  "same_account now request registration s =
     (case pr_user_id registration of
        None \<Rightarrow> (False, s)
      | Some host_uid \<Rightarrow>
          if host_uid = [] then (False, s)
          else let (caller, s1) = validate_auth_token now (rr_auth_token request) s
               in (caller = Some host_uid, s1))"

text \<open>Up to the suspension: an answer, or the host token and registration to go on with.\<close>

datatype resolve_outcome =
  Resolved resolve_preview_response | Waiting string preview_registration

definition resolve_preview ::
  "ms \<Rightarrow> string \<Rightarrow> header_map \<Rightarrow> string \<Rightarrow> string \<Rightarrow> resolve_preview_request \<Rightarrow> app_state \<Rightarrow>
     resolve_outcome \<times> app_state" where
  "resolve_preview now device_id headers viewer_token command_id request s =
     (case hget (previews s) device_id of
        None \<Rightarrow> (Resolved unresolved_response, s)
      | Some registration \<Rightarrow>
          if \<not> is_fresh now (pr_updated_at_ms registration) PREVIEW_TTL_MS
          then (Resolved unresolved_response, remove_preview_state device_id s)
          else
            let (same_account_ok, s1) = same_account now request registration s;
                authorized = password_ok request registration \<or> trusted_ok request registration \<or>
                             same_account_ok
            in if authorized
               then let (response, s2) = grant_viewer now headers device_id viewer_token registration s1
                    in (Resolved response, s2)
               else
                 let passwordless = (case rr_password_hash request of None \<Rightarrow> True | Some h \<Rightarrow> h = [])
                 in (case (passwordless, rr_requester_id request, hget (previews s1) device_id) of
                       (True, Some requester_id, Some e) \<Rightarrow>
                         if validate_host now device_id (pr_host_token e) s1
                         then (Waiting (pr_host_token e) registration,
                               queue_command now device_id command_id ''incoming_request''
                                 (incoming_request request requester_id) s1)
                         else (Resolved unauthorized_response, s1)
                     | _ \<Rightarrow> (Resolved unauthorized_response, s1)))"

text \<open>After the wait of at most 60 s for the host's answer.\<close>

definition resolve_preview_finish ::
  "ms \<Rightarrow> string \<Rightarrow> header_map \<Rightarrow> string \<Rightarrow> string \<Rightarrow> string \<Rightarrow> preview_registration \<Rightarrow> bool \<Rightarrow>
     app_state \<Rightarrow> resolve_preview_response option \<times> app_state" where
  "resolve_preview_finish now device_id headers viewer_token command_id host_token registration
       timed_out s =
     (case forward_finish command_id timed_out s of
        (None, s1) \<Rightarrow> (None, s1)
      | (Some outcome, s1) \<Rightarrow>
          let accepted = (case outcome of Inr result \<Rightarrow> cr_ok result | Inl _ \<Rightarrow> False)
          in if accepted \<and> validate_host now device_id host_token s1
             then let (response, s2) = grant_viewer now headers device_id viewer_token registration s1
                  in (Some response, s2)
             else (Some unauthorized_response, s1))"

end
