(* ===== verification/Cleanup.thy ===== *)
theory Cleanup
  imports Files Previews
begin

text \<open>
  The periodic sweep (\<open>cleanup_expired\<close> of \<open>main.rs\<close>), every 15 s: stale registrations with all
  that hangs on them, stale presence, sessions and files, expired leases and unfetched commands.
\<close>

section \<open>The maps whose entries expire\<close>

interpretation presence_expiry: expiring_map hget hput hrem hsweep ap_updated_at_ms ACCOUNT_PRESENCE_TTL_MS
  by unfold_locales

interpretation viewer_expiry: expiring_map hget hput hrem hsweep vs_last_seen_ms VIEWER_SESSION_TTL_MS
  by unfold_locales

interpretation auth_expiry: expiring_map hget hput hrem hsweep au_last_seen_ms AUTH_SESSION_TTL_MS
  by unfold_locales

interpretation file_expiry: expiring_map hget hput hrem hsweep fb_created_at_ms FILE_BLOB_TTL_MS
  by unfold_locales

section \<open>The sweep\<close>

definition stale_previews :: "ms \<Rightarrow> app_state \<Rightarrow> string list" where
  "stale_previews now s =
     hkeys_where (\<lambda>_ p. PREVIEW_TTL_MS < now - pr_updated_at_ms p) (previews s)"

text \<open>\<open>for mut demand in state.screen_demands.iter_mut()\<close>\<close>

definition prune_demand_of :: "ms \<Rightarrow> string \<Rightarrow> app_state \<Rightarrow> app_state" where
  "prune_demand_of now device_id s =
     (let (demand, s1) = prune_screen_demand now device_id (demand_entry device_id s) s
      in put_demand device_id demand s1)"

definition prune_all_demands :: "ms \<Rightarrow> app_state \<Rightarrow> app_state" where
  "prune_all_demands now s = fold (prune_demand_of now) (map fst (hlist (screen_demands s))) s"

definition cleanup_expired :: "ms \<Rightarrow> app_state \<Rightarrow> app_state" where
  "cleanup_expired now s0 =
     (let s1 = fold remove_preview_state (stale_previews now s0) s0;
          s2 = s1\<lparr>account_presence :=
                 hsweep (\<lambda>_ p. ACCOUNT_PRESENCE_TTL_MS < now - ap_updated_at_ms p) (account_presence s1)\<rparr>;
          s3 = s2\<lparr>viewer_sessions :=
                 hsweep (\<lambda>_ v. VIEWER_SESSION_TTL_MS < now - vs_last_seen_ms v) (viewer_sessions s2)\<rparr>;
          s4 = prune_all_demands now s3;
          s5 = s4\<lparr>auth_sessions :=
                 hsweep (\<lambda>_ a. AUTH_SESSION_TTL_MS < now - au_last_seen_ms a) (auth_sessions s4)\<rparr>;
          s6 = fold (expire_stale_device_commands now) (map fst (hlist (command_queues s5))) s5
      in s6\<lparr>file_store :=
           hsweep (\<lambda>_ b. FILE_BLOB_TTL_MS < now - fb_created_at_ms b) (file_store s6)\<rparr>)"

end
