(* ===== verification/Command_Props.thy ===== *)
theory Command_Props
  imports Commands
begin

text \<open>
  Correctness of command forwarding: expiry answers the waiters of what it drops, the queue is first
  in first out, no command is delivered twice, and every waiting viewer is answered or times out.
\<close>

section \<open>Expiry and polling\<close>

abbreviation stale_command :: "ms \<Rightarrow> pending_command \<Rightarrow> bool" where
  "stale_command now c \<equiv> COMMAND_TTL_MS < now - pc_queued_at_ms c"

abbreviation failed_result :: command_result where
  "failed_result \<equiv> \<lparr>cr_ok = False, cr_text = None\<rparr>"

lemma send_result_fields [simp]:
  "command_queues (send_result cid r s) = command_queues s"
  "previews (send_result cid r s) = previews s"
  "viewer_sessions (send_result cid r s) = viewer_sessions s"
  "hhas (command_waiters (send_result cid r s)) k \<longleftrightarrow> hhas (command_waiters s) k \<and> k \<noteq> cid"
  "hget (oneshots (send_result cid r s)) k =
     (if k = cid \<and> hhas (command_waiters s) cid then Some r else hget (oneshots s) k)"
  by (auto simp: send_result_def)

definition fail_all :: "string list \<Rightarrow> app_state \<Rightarrow> app_state" where
  "fail_all cids = fold (\<lambda>cid. send_result cid failed_result) cids"

lemma fail_all_simps [simp]:
  "fail_all [] s = s"
  "fail_all (cid # cids) s = fail_all cids (send_result cid failed_result s)"
  by (simp_all add: fail_all_def)

lemma fail_all_fields [simp]:
  "command_queues (fail_all cids s) = command_queues s"
  "previews (fail_all cids s) = previews s"
  "hhas (command_waiters (fail_all cids s)) k \<longleftrightarrow> hhas (command_waiters s) k \<and> k \<notin> set cids"
  "hget (oneshots (fail_all cids s)) k =
     (if k \<in> set cids \<and> hhas (command_waiters s) k then Some failed_result
      else hget (oneshots s) k)"
  by (induction cids arbitrary: s) auto

lemma expire_loop_eq:
  "expire_loop now q s =
     (dropWhile (stale_command now) q,
      fail_all (map pc_command_id (takeWhile (stale_command now) q)) s)"
  by (induction q arbitrary: s) (auto simp: is_fresh_def)

definition device_queue :: "string \<Rightarrow> app_state \<Rightarrow> pending_command list" where
  "device_queue d s = hor_default [] d (command_queues s)"

lemma device_queue_upd [simp]:
  "device_queue d (s\<lparr>command_queues := hput d' q (command_queues s')\<rparr>) =
     (if d = d' then q else device_queue d s')"
  by (simp_all add: device_queue_def hor_default_def)

lemma device_queue_send_result [simp]:
  "device_queue d (send_result cid r s) = device_queue d s"
  "device_queue d (fail_all cids s) = device_queue d s"
  by (simp_all add: device_queue_def)

definition expired_ids :: "ms \<Rightarrow> string \<Rightarrow> app_state \<Rightarrow> string list" where
  "expired_ids now d s = map pc_command_id (takeWhile (stale_command now) (device_queue d s))"

lemma expire_fields:
  fixes now d s
  defines "s' \<equiv> expire_stale_device_commands now d s"
  shows "device_queue d' s' =
           (if d = d' then dropWhile (stale_command now) (device_queue d s) else device_queue d' s)"
    and "hhas (command_waiters s') k \<longleftrightarrow> hhas (command_waiters s) k \<and> k \<notin> set (expired_ids now d s)"
    and "hget (oneshots s') k =
           (if k \<in> set (expired_ids now d s) \<and> hhas (command_waiters s) k then Some failed_result
            else hget (oneshots s) k)"
    and "previews s' = previews s"
  unfolding s'_def
  by (auto simp: expire_stale_device_commands_def expired_ids_def device_queue_def hor_default_def
      expire_loop_eq split: option.splits)

lemma poll_turn_fields:
  fixes now d s
  defines "s' \<equiv> snd (poll_turn now d s)"
  shows "fst (poll_turn now d s) =
           (case dropWhile (stale_command now) (device_queue d s) of [] \<Rightarrow> None | c # _ \<Rightarrow> Some c)"
    and "device_queue d' s' =
           (if d = d' then tl (dropWhile (stale_command now) (device_queue d s)) else device_queue d' s)"
    and "hhas (command_waiters s') k \<longleftrightarrow> hhas (command_waiters s) k \<and> k \<notin> set (expired_ids now d s)"
    and "hget (oneshots s') k =
           (if k \<in> set (expired_ids now d s) \<and> hhas (command_waiters s) k then Some failed_result
            else hget (oneshots s) k)"
proof -
  obtain s1 where s1: "expire_stale_device_commands now d s = s1" by blast
  note ex = expire_fields [where now = now and d = d and s = s, unfolded s1]
  have q: "device_queue d s1 = dropWhile (stale_command now) (device_queue d s)"
    by (simp add: ex)
  have pt: "poll_turn now d s =
     (case hget (command_queues s1) d of
        None \<Rightarrow> (None, s1)
      | Some [] \<Rightarrow> (None, s1)
      | Some (c # q) \<Rightarrow> (Some c, s1\<lparr>command_queues := hput d q (command_queues s1)\<rparr>))"
    unfolding poll_turn_def s1 Let_def by (rule refl)
  have "fst (poll_turn now d s) = (case device_queue d s1 of [] \<Rightarrow> None | c # _ \<Rightarrow> Some c) \<and>
    device_queue d' s' = (if d = d' then tl (device_queue d s1) else device_queue d' s1) \<and>
    command_waiters s' = command_waiters s1 \<and> oneshots s' = oneshots s1"
  proof (cases "hget (command_queues s1) d")
    case None
    then show ?thesis by (auto simp: s'_def pt device_queue_def hor_default_def)
  next
    case (Some q)
    then show ?thesis
      by (cases q) (auto simp: s'_def pt device_queue_def hor_default_def)
  qed
  then show "fst (poll_turn now d s) =
           (case dropWhile (stale_command now) (device_queue d s) of [] \<Rightarrow> None | c # _ \<Rightarrow> Some c)"
    and "device_queue d' s' =
           (if d = d' then tl (dropWhile (stale_command now) (device_queue d s)) else device_queue d' s)"
    and "hhas (command_waiters s') k \<longleftrightarrow> hhas (command_waiters s) k \<and> k \<notin> set (expired_ids now d s)"
    and "hget (oneshots s') k =
           (if k \<in> set (expired_ids now d s) \<and> hhas (command_waiters s) k then Some failed_result
            else hget (oneshots s) k)"
    by (simp_all add: q ex)
qed

text \<open>
  C12: one turn of the host's poll is first in, first out over what is still fresh: it returns the
  oldest command of the device that has waited at most 15 s, leaves the later ones in order and
  every other device's queue alone; the viewer of each dropped command is answered with a failure,
  and no other waiting viewer is.
\<close>

theorem poll_turn_fifo:
  assumes "poll_turn now d s = (result, s')"
  shows "\<exists>dropped rest.
      device_queue d s = dropped @ rest \<and>
      (\<forall>c \<in> set dropped. COMMAND_TTL_MS < now - pc_queued_at_ms c) \<and>
      (case rest of [] \<Rightarrow> result = None \<and> device_queue d s' = []
        | c # rest' \<Rightarrow> now - pc_queued_at_ms c \<le> COMMAND_TTL_MS \<and> result = Some c \<and>
             device_queue d s' = rest') \<and>
      (\<forall>d'. d' \<noteq> d \<longrightarrow> device_queue d' s' = device_queue d' s) \<and>
      (\<forall>k. hget (oneshots s') k =
         (if k \<in> set (map pc_command_id dropped) \<and> hhas (command_waiters s) k
          then Some \<lparr>cr_ok = False, cr_text = None\<rparr> else hget (oneshots s) k))"
proof (intro exI conjI)
  let ?stale = "stale_command now"
  note f = poll_turn_fields [where now = now and d = d and s = s, unfolded assms fst_conv snd_conv]
  show "device_queue d s = takeWhile ?stale (device_queue d s) @ dropWhile ?stale (device_queue d s)"
    by simp
  show "\<forall>c \<in> set (takeWhile ?stale (device_queue d s)). ?stale c"
    by (auto dest: set_takeWhileD)
  show "case dropWhile ?stale (device_queue d s) of
          [] \<Rightarrow> result = None \<and> device_queue d s' = []
        | c # rest' \<Rightarrow> now - pc_queued_at_ms c \<le> COMMAND_TTL_MS \<and> result = Some c \<and>
             device_queue d s' = rest'"
  proof -
    obtain r where r: "dropWhile ?stale (device_queue d s) = r" by blast
    have "r \<noteq> [] \<Longrightarrow> \<not> ?stale (hd r)"
      using hd_dropWhile [of ?stale "device_queue d s"] r by simp
    then show ?thesis
      using f(1) f(2) [of d] unfolding r by (cases r) simp_all
  qed
  show "\<forall>d'. d' \<noteq> d \<longrightarrow> device_queue d' s' = device_queue d' s"
    by (simp add: f)
  show "\<forall>k. hget (oneshots s') k =
         (if k \<in> set (map pc_command_id (takeWhile ?stale (device_queue d s))) \<and>
             hhas (command_waiters s) k
          then Some \<lparr>cr_ok = False, cr_text = None\<rparr> else hget (oneshots s) k)"
    by (simp add: f expired_ids_def)
qed

section \<open>The protocol as a transition system\<close>

text \<open>
  Ghost state: the ids drawn so far, the ids whose viewer still waits, and the ids handed to a host,
  in order.  The steps are the code's own steps; \<open>cs_Other\<close> stands for every handler that does not
  touch the queues, waiters and channels, \<open>cs_Cancel\<close> for a viewer that hangs up: its handler is
  dropped, its waiter stays.
\<close>

record cmd_sys =
  cs_app :: app_state
  cs_issued :: "string set"
  cs_waiting :: "string set"
  cs_delivered :: "string list"

definition same_commands :: "app_state \<Rightarrow> app_state \<Rightarrow> bool" where
  "same_commands s s' \<longleftrightarrow> command_queues s' = command_queues s \<and>
     command_waiters s' = command_waiters s \<and> oneshots s' = oneshots s"

inductive cmd_step :: "cmd_sys \<Rightarrow> cmd_sys \<Rightarrow> bool" where
  cs_Queue: "cid \<notin> cs_issued c \<Longrightarrow>
    cmd_step c (c\<lparr>cs_app := queue_command now d cid kind payload (cs_app c),
                  cs_issued := insert cid (cs_issued c),
                  cs_waiting := insert cid (cs_waiting c)\<rparr>)"
| cs_Poll: "poll_turn now d (cs_app c) = (Some cmd, s') \<Longrightarrow>
    cmd_step c (c\<lparr>cs_app := s', cs_delivered := cs_delivered c @ [pc_command_id cmd]\<rparr>)"
| cs_Poll_none: "poll_turn now d (cs_app c) = (None, s') \<Longrightarrow> cmd_step c (c\<lparr>cs_app := s'\<rparr>)"
| cs_Expire: "cmd_step c (c\<lparr>cs_app := expire_stale_device_commands now d (cs_app c)\<rparr>)"
| cs_Result: "cmd_step c (c\<lparr>cs_app := send_result cid r (cs_app c)\<rparr>)"
| cs_Answer: "cid \<in> cs_waiting c \<Longrightarrow> forward_finish cid timed_out (cs_app c) = (Some outcome, s') \<Longrightarrow>
    cmd_step c (c\<lparr>cs_app := s', cs_waiting := cs_waiting c - {cid}\<rparr>)"
| cs_Cancel: "cmd_step c (c\<lparr>cs_waiting := cs_waiting c - {cid}\<rparr>)"
| cs_Drop_queue: "cmd_step c (c\<lparr>cs_app :=
    (cs_app c)\<lparr>command_queues := hrem d (command_queues (cs_app c))\<rparr>\<rparr>)"
| cs_Other: "same_commands (cs_app c) s' \<Longrightarrow> cmd_step c (c\<lparr>cs_app := s'\<rparr>)"

definition cmd_start :: "string \<Rightarrow> (string, file_content) hmap \<Rightarrow> cmd_sys" where
  "cmd_start path fs =
     \<lparr>cs_app = app_state_new path fs, cs_issued = {}, cs_waiting = {}, cs_delivered = []\<rparr>"

inductive cmd_reachable :: "cmd_sys \<Rightarrow> bool" where
  cmd_init: "cmd_reachable (cmd_start path fs)"
| cmd_next: "cmd_reachable c \<Longrightarrow> cmd_step c c' \<Longrightarrow> cmd_reachable c'"

definition queue_ids :: "string \<Rightarrow> app_state \<Rightarrow> string list" where
  "queue_ids d s = map pc_command_id (device_queue d s)"

lemma queue_ids_upd:
  "queue_ids d (queue_command now d' cid kind payload s) =
     (if d = d' then queue_ids d s @ [cid] else queue_ids d s)"
  "queue_ids d (send_result cid r s) = queue_ids d s"
  "queue_ids d' (expire_stale_device_commands now d s) =
     (if d = d' then map pc_command_id (dropWhile (stale_command now) (device_queue d s))
      else queue_ids d' s)"
  "queue_ids d' (snd (poll_turn now d s)) =
     (if d = d' then map pc_command_id (tl (dropWhile (stale_command now) (device_queue d s)))
      else queue_ids d' s)"
  "queue_ids d' (s\<lparr>command_queues := hrem d (command_queues s)\<rparr>) =
     (if d = d' then [] else queue_ids d' s)"
  by (auto simp: queue_ids_def expire_fields poll_turn_fields)
    (auto simp: queue_command_def device_queue_def hor_default_def)

lemma hhas_if_put: "(hget m k = (if P then Some v else m' k)) \<Longrightarrow> hhas m k \<longleftrightarrow> P \<or> m' k \<noteq> None"
  by (auto simp: hhas_def)

lemma queue_command_fields:
  "hhas (command_waiters (queue_command now d cid kind payload s)) k \<longleftrightarrow>
     k = cid \<or> hhas (command_waiters s) k"
  "oneshots (queue_command now d cid kind payload s) = oneshots s"
  by (auto simp: queue_command_def)

text \<open>The parts of the invariant, so that a step re-establishes only what it touches.\<close>

definition queues_inv :: "string set \<Rightarrow> string list \<Rightarrow> (string \<Rightarrow> string list) \<Rightarrow> bool" where
  "queues_inv issued delivered qs \<longleftrightarrow>
     distinct delivered \<and> set delivered \<subseteq> issued \<and>
     (\<forall>d. distinct (qs d) \<and> set (qs d) \<subseteq> issued - set delivered) \<and>
     (\<forall>d d'. d \<noteq> d' \<longrightarrow> set (qs d) \<inter> set (qs d') = {})"

definition waiters_inv :: "string set \<Rightarrow> string set \<Rightarrow> (string \<Rightarrow> bool) \<Rightarrow> (string \<Rightarrow> bool) \<Rightarrow> bool" where
  "waiters_inv issued waiting w os \<longleftrightarrow>
     waiting \<subseteq> issued \<and> (\<forall>k. w k \<or> os k \<longrightarrow> k \<in> issued) \<and>
     (\<forall>k \<in> waiting. w k \<or> os k) \<and> (\<forall>k. w k \<longrightarrow> \<not> os k)"

lemma queues_invD:
  assumes "queues_inv issued delivered qs"
  shows "distinct (qs d)" "x \<in> set (qs d) \<Longrightarrow> x \<in> issued" "x \<in> set (qs d) \<Longrightarrow> x \<notin> set delivered"
    and "x \<in> set (qs d) \<Longrightarrow> x \<in> set (qs d') \<Longrightarrow> d = d'"
    and "distinct delivered" "set delivered \<subseteq> issued"
  using assms unfolding queues_inv_def by (blast+)

lemma queues_invI:
  assumes "distinct delivered" "set delivered \<subseteq> issued" "\<And>d. distinct (qs d)"
    and "\<And>d x. x \<in> set (qs d) \<Longrightarrow> x \<in> issued \<and> x \<notin> set delivered"
    and "\<And>d d' x. x \<in> set (qs d) \<Longrightarrow> x \<in> set (qs d') \<Longrightarrow> d = d'"
  shows "queues_inv issued delivered qs"
  using assms unfolding queues_inv_def by blast

lemma queues_inv_sub:
  assumes inv: "queues_inv issued delivered qs" and suf: "\<And>d. \<exists>xs. qs d = xs @ qs' d"
  shows "queues_inv issued delivered qs'"
proof -
  have sub: "x \<in> set (qs d)" if "x \<in> set (qs' d)" for x d
    using suf [of d] that by auto
  have "distinct (qs' d)" for d
    using suf [of d] queues_invD(1) [OF inv, of d] by auto
  then show ?thesis
    using sub queues_invD(2-) [OF inv] by (intro queues_invI) blast+
qed

lemma queues_inv_push:
  assumes inv: "queues_inv issued delivered qs" and new: "cid \<notin> issued"
  shows "queues_inv (insert cid issued) delivered (\<lambda>d'. if d' = d then qs d' @ [cid] else qs d')"
proof (rule queues_invI)
  fix d' x
  show "distinct (if d' = d then qs d' @ [cid] else qs d')"
    using new queues_invD(1,2) [OF inv] by auto
  show "x \<in> insert cid issued \<and> x \<notin> set delivered"
    if "x \<in> set (if d' = d then qs d' @ [cid] else qs d')"
    using that new queues_invD(2,3,6) [OF inv] by (auto split: if_splits)
next
  fix d1 d2 x
  show "d1 = d2" if "x \<in> set (if d1 = d then qs d1 @ [cid] else qs d1)"
    "x \<in> set (if d2 = d then qs d2 @ [cid] else qs d2)"
    using that new queues_invD(2,4) [OF inv] by (auto split: if_splits)
qed (use queues_invD(5,6) [OF inv] in auto)

lemma queues_inv_deliver:
  assumes inv: "queues_inv issued delivered qs" and d: "qs d = cid # rest"
  shows "queues_inv issued (delivered @ [cid]) (\<lambda>d'. if d' = d then rest else qs d')"
proof (rule queues_invI)
  have cid: "cid \<in> set (qs d)" and rest: "\<And>x. x \<in> set rest \<Longrightarrow> x \<in> set (qs d)"
    using d by auto
  show "distinct (delivered @ [cid])" "set (delivered @ [cid]) \<subseteq> issued"
    using queues_invD [OF inv] cid by auto
  have dr: "distinct rest" "cid \<notin> set rest"
    using queues_invD(1) [OF inv, of d] d by auto
  fix d' x
  show "distinct (if d' = d then rest else qs d')"
    using queues_invD(1) [OF inv] dr by simp
  show "x \<in> issued \<and> x \<notin> set (delivered @ [cid])" if "x \<in> set (if d' = d then rest else qs d')"
  proof (cases "d' = d")
    case True
    then have x: "x \<in> set rest" using that by simp
    then have "x \<noteq> cid" using dr(2) by blast
    then show ?thesis
      using queues_invD(2,3) [OF inv rest [OF x]] by simp
  next
    case False
    then have x: "x \<in> set (qs d')" using that by simp
    then have "x \<noteq> cid" using queues_invD(4) [OF inv _ cid] False by blast
    then show ?thesis
      using queues_invD(2,3) [OF inv x] by simp
  qed
  fix d2
  show "d' = d2" if "x \<in> set (if d' = d then rest else qs d')" "x \<in> set (if d2 = d then rest else qs d2)"
    using that rest queues_invD(4) [OF inv] by (cases "d' = d"; cases "d2 = d") auto
qed

definition cmd_inv :: "cmd_sys \<Rightarrow> bool" where
  "cmd_inv c \<longleftrightarrow>
     queues_inv (cs_issued c) (cs_delivered c) (\<lambda>d. queue_ids d (cs_app c)) \<and>
     waiters_inv (cs_issued c) (cs_waiting c)
       (hhas (command_waiters (cs_app c))) (hhas (oneshots (cs_app c)))"

lemma forward_finish_fields:
  assumes "forward_finish cid timed_out s = (Some outcome, s')"
  shows "command_queues s' = command_queues s"
    and "hhas (command_waiters s') k \<Longrightarrow> hhas (command_waiters s) k"
    and "hhas (oneshots s') k \<Longrightarrow> hhas (oneshots s) k"
    and "k \<noteq> cid \<Longrightarrow> hhas (command_waiters s') k = hhas (command_waiters s) k"
    and "k \<noteq> cid \<Longrightarrow> hhas (oneshots s') k = hhas (oneshots s) k"
  using assms by (auto simp: forward_finish_def split: option.splits if_splits)

text \<open>Answering every waiter in a set moves it from the waiters to the channels.\<close>

lemma waiters_inv_answer:
  assumes "waiters_inv issued waiting w os"
    and "\<And>k. w' k \<longleftrightarrow> w k \<and> \<not> A k" and "\<And>k. os' k \<longleftrightarrow> os k \<or> (A k \<and> w k)"
  shows "waiters_inv issued waiting w' os'"
  using assms unfolding waiters_inv_def by blast

lemma hhas_poll [simp]:
  "hhas (oneshots (snd (poll_turn now d s))) k \<longleftrightarrow>
     hhas (oneshots s) k \<or> (k \<in> set (expired_ids now d s) \<and> hhas (command_waiters s) k)"
  "hhas (oneshots (expire_stale_device_commands now d s)) k \<longleftrightarrow>
     hhas (oneshots s) k \<or> (k \<in> set (expired_ids now d s) \<and> hhas (command_waiters s) k)"
  by (auto simp: hhas_def [of "oneshots _"] poll_turn_fields expire_fields)

lemma dropWhile_suffix: "\<exists>xs. map f ys = xs @ map f (dropWhile P ys)"
  by (metis map_append takeWhile_dropWhile_id)

text \<open>What a turn of the poll does to the queues and to the waiting viewers.\<close>

lemma poll_turn_ids:
  assumes "poll_turn now d s = (res, s')"
  shows "queue_ids d' s' = (if d = d' then map pc_command_id (tl (dropWhile (stale_command now) (device_queue d s)))
    else queue_ids d' s)"
  using poll_turn_fields(2) [where now = now and d = d and s = s, unfolded assms fst_conv snd_conv]
  by (simp add: queue_ids_def)

lemma poll_turn_waiters:
  assumes p: "poll_turn now d s = (res, s')"
    and w: "waiters_inv I W (hhas (command_waiters s)) (hhas (oneshots s))"
  shows "waiters_inv I W (hhas (command_waiters s')) (hhas (oneshots s'))"
proof -
  note f = poll_turn_fields [where now = now and d = d and s = s, unfolded p fst_conv snd_conv]
  have "hhas (oneshots s') k \<longleftrightarrow>
     hhas (oneshots s) k \<or> (k \<in> set (expired_ids now d s) \<and> hhas (command_waiters s) k)" for k
    by (auto simp: hhas_def [of "oneshots _"] f(4))
  then show ?thesis by (intro waiters_inv_answer [OF w]) (auto simp: f(3))
qed

lemma poll_turn_delivers:
  assumes p: "poll_turn now d s = (Some cmd, s')" and q: "queues_inv I D (\<lambda>d. queue_ids d s)"
  shows "queues_inv I (D @ [pc_command_id cmd]) (\<lambda>d. queue_ids d s')"
proof -
  let ?q = "\<lambda>d'. if d' = d then map pc_command_id (dropWhile (stale_command now) (device_queue d s))
                 else queue_ids d' s"
  have "queues_inv I D ?q"
    by (rule queues_inv_sub [OF q]) (auto simp: queue_ids_def intro: dropWhile_suffix)
  moreover have "?q d = pc_command_id cmd # queue_ids d s'"
    using poll_turn_fields(1) [where now = now and d = d and s = s, unfolded p fst_conv]
    by (auto simp: poll_turn_ids [OF p] split: list.splits)
  ultimately have "queues_inv I (D @ [pc_command_id cmd]) (\<lambda>d'. if d' = d then queue_ids d s' else ?q d')"
    by (rule queues_inv_deliver)
  moreover have "(\<lambda>d'. if d' = d then queue_ids d s' else ?q d') = (\<lambda>d'. queue_ids d' s')"
    by (auto simp: poll_turn_ids [OF p])
  ultimately show ?thesis by simp
qed

lemma poll_turn_finds_nothing:
  assumes p: "poll_turn now d s = (None, s')" and q: "queues_inv I D (\<lambda>d. queue_ids d s)"
  shows "queues_inv I D (\<lambda>d. queue_ids d s')"
proof -
  have "dropWhile (stale_command now) (device_queue d s) = []"
    using poll_turn_fields(1) [where now = now and d = d and s = s, unfolded p fst_conv]
    by (cases "dropWhile (stale_command now) (device_queue d s)") auto
  then show ?thesis
    by (intro queues_inv_sub [OF q]) (auto simp: poll_turn_ids [OF p] simp del: dropWhile_eq_Nil_conv)
qed

lemma queue_command_inv:
  assumes q: "queues_inv I D (\<lambda>d. queue_ids d s)" and c: "cid \<notin> I"
    and w: "waiters_inv I W (hhas (command_waiters s)) (hhas (oneshots s))"
  shows "queues_inv (insert cid I) D (\<lambda>d'. queue_ids d' (queue_command now d cid kind payload s))"
    and "waiters_inv (insert cid I) (insert cid W) (hhas (command_waiters (queue_command now d cid kind payload s)))
       (hhas (oneshots (queue_command now d cid kind payload s)))"
proof -
  show "queues_inv (insert cid I) D (\<lambda>d'. queue_ids d' (queue_command now d cid kind payload s))"
    using queues_inv_push [OF q c, of d] by (simp add: queue_ids_upd)
  show "waiters_inv (insert cid I) (insert cid W) (hhas (command_waiters (queue_command now d cid kind payload s)))
       (hhas (oneshots (queue_command now d cid kind payload s)))"
    using w c unfolding waiters_inv_def queue_command_fields by blast
qed

lemma cmd_inv_step:
  assumes inv: "cmd_inv c" and step: "cmd_step c c'"
  shows "cmd_inv c'"
proof -
  let ?s = "cs_app c"
  have q: "queues_inv (cs_issued c) (cs_delivered c) (\<lambda>d. queue_ids d ?s)"
    and w: "waiters_inv (cs_issued c) (cs_waiting c) (hhas (command_waiters ?s)) (hhas (oneshots ?s))"
    using inv by (simp_all add: cmd_inv_def)
  from step show ?thesis
  proof (cases rule: cmd_step.cases)
    case (cs_Queue cid now d kind payload)
    with queue_command_inv [OF q cs_Queue(2) w] show ?thesis by (simp add: cmd_inv_def)
  next
    case (cs_Poll now d cmd s')
    with poll_turn_delivers [OF cs_Poll(2) q] poll_turn_waiters [OF cs_Poll(2) w]
    show ?thesis by (simp add: cmd_inv_def)
  next
    case (cs_Poll_none now d s')
    with poll_turn_finds_nothing [OF cs_Poll_none(2) q] poll_turn_waiters [OF cs_Poll_none(2) w]
    show ?thesis by (simp add: cmd_inv_def)
  next
    case (cs_Expire now d)
    have "queues_inv (cs_issued c) (cs_delivered c)
       (\<lambda>d'. queue_ids d' (expire_stale_device_commands now d ?s))"
      by (rule queues_inv_sub [OF q]) (auto simp: queue_ids_def expire_fields intro: dropWhile_suffix)
    moreover have "waiters_inv (cs_issued c) (cs_waiting c)
       (hhas (command_waiters (expire_stale_device_commands now d ?s)))
       (hhas (oneshots (expire_stale_device_commands now d ?s)))"
      by (rule waiters_inv_answer [OF w]) (auto simp: expire_fields)
    ultimately show ?thesis by (simp add: cs_Expire cmd_inv_def)
  next
    case (cs_Result cid r)
    have "waiters_inv (cs_issued c) (cs_waiting c)
       (hhas (command_waiters (send_result cid r ?s))) (hhas (oneshots (send_result cid r ?s)))"
      by (rule waiters_inv_answer [OF w, of _ "\<lambda>k. k = cid"]) (auto simp: hhas_def [of "oneshots _"])
    with q show ?thesis by (simp add: cs_Result cmd_inv_def queue_ids_upd)
  next
    case (cs_Answer cid timed_out outcome s')
    note f = forward_finish_fields [OF cs_Answer(3)]
    have "queue_ids d s' = queue_ids d ?s" for d
      by (simp add: queue_ids_def device_queue_def f(1))
    moreover have "waiters_inv (cs_issued c) (cs_waiting c - {cid})
       (hhas (command_waiters s')) (hhas (oneshots s'))"
      using w f(2-5) unfolding waiters_inv_def by blast
    ultimately show ?thesis using q by (simp add: cs_Answer cmd_inv_def)
  next
    case (cs_Cancel cid)
    have "waiters_inv (cs_issued c) (cs_waiting c - {cid})
       (hhas (command_waiters ?s)) (hhas (oneshots ?s))"
      using w unfolding waiters_inv_def by blast
    with q show ?thesis by (simp add: cs_Cancel cmd_inv_def)
  next
    case (cs_Drop_queue d)
    have "queues_inv (cs_issued c) (cs_delivered c)
       (\<lambda>d'. queue_ids d' (?s\<lparr>command_queues := hrem d (command_queues ?s)\<rparr>))"
      by (rule queues_inv_sub [OF q]) (auto simp: queue_ids_upd)
    with w show ?thesis by (simp add: cs_Drop_queue cmd_inv_def)
  next
    case (cs_Other s')
    then have "queue_ids d s' = queue_ids d ?s" for d
      by (simp add: queue_ids_def device_queue_def same_commands_def)
    with q w cs_Other show ?thesis by (simp add: cmd_inv_def same_commands_def)
  qed
qed

lemma cmd_inv_reachable: "cmd_reachable c \<Longrightarrow> cmd_inv c"
proof (induction rule: cmd_reachable.induct)
  case (cmd_init path fs)
  show ?case
    by (simp add: cmd_inv_def cmd_start_def app_state_new_def queues_inv_def waiters_inv_def
        queue_ids_def device_queue_def)
next
  case (cmd_next c c')
  then show ?case by (blast intro: cmd_inv_step)
qed

text \<open>
  C10: no command is handed to a host twice, over any interleaving of viewers and hosts.  In every
  reachable state the delivered ids are pairwise distinct, and a command still queued is in one place
  of one device's queue and has not been delivered.
\<close>

theorem command_delivered_once:
  assumes "cmd_reachable c"
  shows "distinct (cs_delivered c) \<and> distinct (queue_ids d (cs_app c)) \<and>
    set (queue_ids d (cs_app c)) \<inter> set (cs_delivered c) = {} \<and>
    (d \<noteq> d' \<longrightarrow> set (queue_ids d (cs_app c)) \<inter> set (queue_ids d' (cs_app c)) = {})"
  using cmd_inv_reachable [OF assms] unfolding cmd_inv_def queues_inv_def by blast


text \<open>A run with one viewer and one host, for the concrete instances.\<close>

lemma cmd_demo_reachable:
  "cmd_reachable ((cmd_start ''u'' hempty)
     \<lparr>cs_app := queue_command 1000 ''123'' ''id1'' ''tap'' JNull (app_state_new ''u'' hempty),
      cs_issued := {''id1''}, cs_waiting := {''id1''}\<rparr>)"
  using cmd_next [OF cmd_init, OF cs_Queue [of "''id1''" "cmd_start ''u'' hempty" 1000 "''123''" "''tap''" JNull]]
  by (simp add: cmd_start_def)

theorem command_delivered_once_witness:
  "distinct (queue_ids ''123''
     (queue_command 1000 ''123'' ''id1'' ''tap'' JNull (app_state_new ''u'' hempty)))"
  using command_delivered_once [OF cmd_demo_reachable, of "''123''" "''124''"] by simp


theorem poll_turn_fifo_witness:
  "\<exists>c s'. poll_turn 1100 ''123''
       (queue_command 1000 ''123'' ''id1'' ''tap'' JNull (app_state_new ''u'' hempty)) = (Some c, s') \<and>
     pc_command_id c = ''id1''"
proof -
  let ?s = "queue_command 1000 ''123'' ''id1'' ''tap'' JNull (app_state_new ''u'' hempty)"
  have q: "device_queue ''123'' ?s =
      [\<lparr>pc_command_id = ''id1'', pc_kind = ''tap'', pc_payload = JNull, pc_queued_at_ms = 1000\<rparr>]"
    by (simp add: queue_command_def device_queue_def app_state_new_def)
  obtain r s' where rs: "poll_turn 1100 ''123'' ?s = (r, s')" by fastforce
  from poll_turn_fifo [OF rs] obtain dropped rest where
    dr: "device_queue ''123'' ?s = dropped @ rest"
      "\<forall>c \<in> set dropped. COMMAND_TTL_MS < 1100 - pc_queued_at_ms c"
      "case rest of [] \<Rightarrow> r = None \<and> device_queue ''123'' s' = []
        | c # rest' \<Rightarrow> 1100 - pc_queued_at_ms c \<le> COMMAND_TTL_MS \<and> r = Some c \<and>
             device_queue ''123'' s' = rest'"
    by blast
  from dr(1,2) q have "dropped = []"
    by (cases dropped) (auto simp: COMMAND_TTL_MS_def)
  with dr(1,3) q rs show ?thesis by auto
qed

section \<open>Entering the queue, and the long poll\<close>

text \<open>
  A viewer's command enters the queue of the device its session is bound to, at the end, and only
  if that session is live and the host's registration is fresh (401 and 404 otherwise); no other
  queue changes.
\<close>

lemma forward_start_spec:
  "let (r, s') = forward_start now d tok kind cid payload s;
       host_up = (\<exists>p. hget (previews s) d = Some p \<and> now - pr_updated_at_ms p \<le> PREVIEW_TTL_MS)
   in r = (if \<not> viewer_ok now d tok s then Inl 401 else if host_up then Inr cid else Inl 404) \<and>
      device_queue d' s' =
        (if d' = d \<and> viewer_ok now d tok s \<and> host_up
         then device_queue d s @ [\<lparr>pc_command_id = cid, pc_kind = kind, pc_payload = payload,
                                   pc_queued_at_ms = now\<rparr>]
         else device_queue d' s)"
  by (auto simp: forward_start_def validate_viewer_eq Let_def is_fresh_def queue_command_def
      device_queue_def hor_default_def split: option.splits)

text \<open>
  Kind and payload determine the viewer's request, so a host that reads them back cannot confuse
  one request with another.
\<close>

lemma command_encoding_injective:
  "command_kind c = command_kind c' \<and> command_payload c = command_payload c' \<longleftrightarrow> c = c'"
  by (cases c; cases c') auto

lemma poll_loop_agree:
  assumes "deadline \<le> t + 15 * n"
    and "\<And>j. j \<le> i + n \<Longrightarrow> wall j = wall' j \<and> late j = late' j \<and> env j = env' j"
  shows "poll_loop wall late env d deadline i t s = poll_loop wall' late' env' d deadline i t s"
  using assms
proof (induction n arbitrary: i t s)
  case 0
  then show ?case by (subst (1 2) poll_loop.simps) (simp split: prod.split option.split)
next
  case (Suc n)
  have eq: "wall i = wall' i" "late i = late' i" "env i = env' i"
    using Suc.prems(2) [of i] by simp_all
  have "poll_loop wall late env d deadline (Suc i) (t + HOST_COMMAND_POLL_TICK + late i) s' =
      poll_loop wall' late' env' d deadline (Suc i) (t + HOST_COMMAND_POLL_TICK + late i) s'" for s'
    using Suc.prems by (intro Suc.IH) (auto simp: HOST_COMMAND_POLL_TICK_def)
  then show ?case
    by (subst (1 2) poll_loop.simps) (simp add: eq split: prod.split option.split)
qed

text \<open>
  C13: a long poll ends after at most 335 turns (5 s in ticks of 15 ms), however late its sleeps wake:
  its answer depends on no later reading of the clock and on no later action of the environment.
\<close>

theorem poll_host_command_bound:
  assumes "\<And>j. j \<le> 334 \<Longrightarrow> wall j = wall' j \<and> late j = late' j \<and> env j = env' j"
  shows "poll_host_command wall late env start d ht s = poll_host_command wall' late' env' start d ht s"
proof -
  have "poll_loop wall late env d (start + HOST_COMMAND_LONG_POLL) 0 start s =
        poll_loop wall' late' env' d (start + HOST_COMMAND_LONG_POLL) 0 start s"
    using assms by (intro poll_loop_agree [where n = 334]) (auto simp: HOST_COMMAND_LONG_POLL_def)
  with assms [of 0] show ?thesis by (simp add: poll_host_command_def)
qed

theorem poll_host_command_bound_witness:
  "poll_host_command (\<lambda>i. 1000) (\<lambda>i. 0) (\<lambda>i s. s) 0 ''123'' ''ht'' (app_state_new ''u'' hempty) =
   poll_host_command (\<lambda>i. if i = 400 then 7 else 1000) (\<lambda>i. 0) (\<lambda>i s. s) 0 ''123'' ''ht''
     (app_state_new ''u'' hempty)"
  by (rule poll_host_command_bound) simp

end
