(* ===== verification/Cleanup_Props.thy ===== *)
theory Cleanup_Props
  imports Cleanup Command_Props
begin

text \<open>
  The sweep removes exactly what has expired, and it never moves a live audience.
\<close>

lemma prune_demand_fields [simp]:
  "previews (prune_demand_of now d s) = previews s"
  "account_presence (prune_demand_of now d s) = account_presence s"
  "viewer_sessions (prune_demand_of now d s) = viewer_sessions s"
  "auth_sessions (prune_demand_of now d s) = auth_sessions s"
  "command_queues (prune_demand_of now d s) = command_queues s"
  "file_store (prune_demand_of now d s) = file_store s"
  by (simp_all add: prune_demand_of_def prune_gen put_demand_def)

lemma prune_all_fields [simp]:
  "previews (prune_all_demands now s) = previews s"
  "account_presence (prune_all_demands now s) = account_presence s"
  "viewer_sessions (prune_all_demands now s) = viewer_sessions s"
  "auth_sessions (prune_all_demands now s) = auth_sessions s"
  "command_queues (prune_all_demands now s) = command_queues s"
  "file_store (prune_all_demands now s) = file_store s"
proof -
  have "previews (fold (prune_demand_of now) ks s) = previews s \<and>
    account_presence (fold (prune_demand_of now) ks s) = account_presence s \<and>
    viewer_sessions (fold (prune_demand_of now) ks s) = viewer_sessions s \<and>
    auth_sessions (fold (prune_demand_of now) ks s) = auth_sessions s \<and>
    command_queues (fold (prune_demand_of now) ks s) = command_queues s \<and>
    file_store (fold (prune_demand_of now) ks s) = file_store s" for ks
    by (induction ks arbitrary: s) simp_all
  then show "previews (prune_all_demands now s) = previews s"
    "account_presence (prune_all_demands now s) = account_presence s"
    "viewer_sessions (prune_all_demands now s) = viewer_sessions s"
    "auth_sessions (prune_all_demands now s) = auth_sessions s"
    "command_queues (prune_all_demands now s) = command_queues s"
    "file_store (prune_all_demands now s) = file_store s"
    by (simp_all add: prune_all_demands_def)
qed

lemma fail_all_more [simp]:
  "account_presence (fail_all cids s) = account_presence s"
  "viewer_sessions (fail_all cids s) = viewer_sessions s"
  "auth_sessions (fail_all cids s) = auth_sessions s"
  "file_store (fail_all cids s) = file_store s"
  "frames (fail_all cids s) = frames s"
  "screen_demands (fail_all cids s) = screen_demands s"
  by (induction cids arbitrary: s) (simp_all add: send_result_def)

lemma expire_all_fields:
  "previews (fold (expire_stale_device_commands now) ks s) = previews s"
  "account_presence (fold (expire_stale_device_commands now) ks s) = account_presence s"
  "viewer_sessions (fold (expire_stale_device_commands now) ks s) = viewer_sessions s"
  "auth_sessions (fold (expire_stale_device_commands now) ks s) = auth_sessions s"
  "file_store (fold (expire_stale_device_commands now) ks s) = file_store s"
  "frames (fold (expire_stale_device_commands now) ks s) = frames s"
  "screen_demands (fold (expire_stale_device_commands now) ks s) = screen_demands s"
  by (induction ks arbitrary: s)
    (simp_all add: expire_stale_device_commands_def expire_loop_eq split: option.split)

lemma expire_all_queue:
  "device_queue d (fold (expire_stale_device_commands now) ks s) =
     (if d \<in> set ks then dropWhile (stale_command now) (device_queue d s) else device_queue d s)"
  by (induction ks arbitrary: s) (auto simp: expire_fields dropWhile_idem)

lemma remove_preview_fields:
  "hget (previews (remove_preview_state d s)) k = (if k = d then None else hget (previews s) k)"
  "hget (viewer_sessions (remove_preview_state d s)) t =
     (case hget (viewer_sessions s) t of None \<Rightarrow> None
      | Some v \<Rightarrow> if vs_device_id v = d then None else Some v)"
  "account_presence (remove_preview_state d s) = account_presence s"
  "auth_sessions (remove_preview_state d s) = auth_sessions s"
  "file_store (remove_preview_state d s) = file_store s"
  "hget (frames (remove_preview_state d s)) k = (if k = d then None else hget (frames s) k)"
  "hget (command_queues (remove_preview_state d s)) k = (if k = d then None else hget (command_queues s) k)"
  by (simp_all add: remove_preview_state_def disconnect_viewers_for_device_def put_demand_def Let_def)

lemma remove_previews_fields:
  "hget (previews (fold remove_preview_state ds s)) k = (if k \<in> set ds then None else hget (previews s) k)"
  "hget (viewer_sessions (fold remove_preview_state ds s)) t =
     (case hget (viewer_sessions s) t of None \<Rightarrow> None
      | Some v \<Rightarrow> if vs_device_id v \<in> set ds then None else Some v)"
  "account_presence (fold remove_preview_state ds s) = account_presence s"
  "auth_sessions (fold remove_preview_state ds s) = auth_sessions s"
  "file_store (fold remove_preview_state ds s) = file_store s"
  "hget (frames (fold remove_preview_state ds s)) k = (if k \<in> set ds then None else hget (frames s) k)"
  by (induction ds arbitrary: s) (auto simp: remove_preview_fields split: option.splits)

lemma stale_previews_iff:
  "d \<in> set (stale_previews now s) \<longleftrightarrow>
     (\<exists>p. hget (previews s) d = Some p \<and> PREVIEW_TTL_MS < now - pr_updated_at_ms p)"
  by (simp add: stale_previews_def set_hkeys_where)

definition expired_after :: "ms \<Rightarrow> ms \<Rightarrow> ('v \<Rightarrow> ms) \<Rightarrow> 'v option \<Rightarrow> 'v option" where
  "expired_after now ttl stamp x =
     (case x of None \<Rightarrow> None | Some v \<Rightarrow> if now - stamp v \<le> ttl then Some v else None)"



section \<open>The sweep and the audience\<close>

lemma prune_demand_eq:
  "prune_demand_of now d s =
     (let dem = live_demand now (viewer_sessions s) (demand_entry d s)
      in s\<lparr>screen_demands := hput d dem (screen_demands s),
           frames := cleared (\<not> no_viewers (demand_entry d s) \<and> no_viewers dem) d s\<rparr>)"
  by (simp add: prune_demand_of_def prune_gen put_demand_def Let_def)

lemma lease_move_prune_demand: "lease_move s (prune_demand_of now d s)"
  by (rule lease_move_at [where d = d]) (auto simp: prune_demand_eq Let_def hget_cleared split: if_splits)

lemma lease_move_fold:
  assumes "\<And>k s. lease_move s (f k s)"
  shows "lease_move s (fold f ks s)"
proof (induction ks arbitrary: s)
  case (Cons k ks)
  show ?case using lease_move_trans [OF assms [of s k] Cons] by simp
qed (simp add: lease_move_refl)

lemma lease_move_cleanup: "lease_move s (cleanup_expired now s)"
proof -
  define s1 where "s1 = fold remove_preview_state (stale_previews now s) s"
  define s3 where "s3 = s1\<lparr>account_presence :=
                 hsweep (\<lambda>_ p. ACCOUNT_PRESENCE_TTL_MS < now - ap_updated_at_ms p) (account_presence s1),
               viewer_sessions :=
                 hsweep (\<lambda>_ v. VIEWER_SESSION_TTL_MS < now - vs_last_seen_ms v) (viewer_sessions s1)\<rparr>"
  have c: "frames (cleanup_expired now s) = frames (prune_all_demands now s3)"
    "screen_demands (cleanup_expired now s) = screen_demands (prune_all_demands now s3)"
    "previews (cleanup_expired now s) = previews (prune_all_demands now s3)"
    by (simp_all add: cleanup_expired_def Let_def expire_all_fields s3_def s1_def)
  have s3: "frames s3 = frames s1" "screen_demands s3 = screen_demands s1" "previews s3 = previews s1"
    by (simp_all add: s3_def)
  have same: "lease_move a b"
    if "frames b = frames a" "screen_demands b = screen_demands a" "previews b = previews a" for a b
    using that host_on_demand_cong [OF that(3)] by (intro lease_move_same) auto
  have "lease_move s s1"
    unfolding s1_def by (rule lease_move_fold) (rule lease_move_remove_preview)
  then have "lease_move s s3" by (rule lease_move_trans) (rule same, simp_all add: s3)
  moreover have "lease_move s3 (prune_all_demands now s3)"
    unfolding prune_all_demands_def by (rule lease_move_fold) (rule lease_move_prune_demand)
  ultimately have "lease_move s (prune_all_demands now s3)" by (rule lease_move_trans)
  then show ?thesis by (rule lease_move_trans) (rule same, simp_all add: c)
qed

end
