(* ===== verification/Websockets.thy ===== *)
theory Websockets
  imports Frames Commands
begin

text \<open>
  The two WebSocket endpoints of the relay (\<open>ws_host_handler\<close>, \<open>handle_ws_host\<close>,
  \<open>ws_viewer_handler\<close>, \<open>handle_ws_viewer\<close> of \<open>main.rs\<close>).  A host streams frames and results over its
  socket and receives commands; a viewer receives frames while its lease lives and sends commands.
  JSON parsing is an argument; a send on a socket is an event of the turn, with its success.
\<close>

section \<open>Messages\<close>

datatype ws_message = Binary bytes | Text string | Ping | Pong | Close

text \<open>\<open>CommandResultRequest\<close>\<close>

record command_result_request =
  cq_command_id :: string
  cq_ok :: bool
  cq_text :: "string option"

definition json_get :: "string \<Rightarrow> json \<Rightarrow> json option" where
  "json_get key v = (case v of JObj kvs \<Rightarrow> map_of kvs key | _ \<Rightarrow> None)"

definition json_str :: "json \<Rightarrow> string option" where
  "json_str v = (case v of JStr t \<Rightarrow> Some t | _ \<Rightarrow> None)"

section \<open>The host's socket\<close>

definition ws_host_handler :: "ms \<Rightarrow> string \<Rightarrow> string \<Rightarrow> app_state \<Rightarrow> unit response" where
  "ws_host_handler now device_id host_token s =
     (if \<not> validate_host now device_id host_token s then Status 401
      else if host_on_demand device_id s then Status 400
      else Ok_with ())"

definition ws_host_open :: "string \<Rightarrow> app_state \<Rightarrow> app_state" where
  "ws_host_open device_id s =
     (let (_, s1) = get_or_create_broadcaster device_id s
      in s1\<lparr>ws_host_cmd_tx := hput device_id [] (ws_host_cmd_tx s1)\<rparr>)"

text \<open>
  One message of the loop; the first component says whether the loop goes on.  Broadcasters are never
  removed from their map, so sending on the handler's own clone is sending on the device's channel.
\<close>

definition ws_host_message ::
  "(string \<Rightarrow> command_result_request option) \<Rightarrow> ms \<Rightarrow> string \<Rightarrow> ws_message \<Rightarrow> app_state \<Rightarrow> bool \<times> app_state" where
  "ws_host_message parse_result now device_id msg s =
     (case msg of
        Binary data \<Rightarrow>
          (case parse_host_packet data of
             None \<Rightarrow> (True, s)
           | Some (width, height, host_timestamp_ms, jpeg_data) \<Rightarrow>
               let received_at_ms = now;
                   captured_at_ms =
                     (if 0 < host_timestamp_ms then unat host_timestamp_ms else received_at_ms);
                   s1 = broadcast_frame device_id
                     \<lparr>wf_bytes = jpeg_data, wf_width = width, wf_height = height,
                      wf_captured_at_ms = captured_at_ms, wf_relay_received_at_ms = received_at_ms\<rparr> s
               in (True, s1\<lparr>frames := hput device_id
                     \<lparr>fs_bytes = jpeg_data, fs_width = width, fs_height = height,
                      fs_captured_at_ms = captured_at_ms, fs_relay_received_at_ms = received_at_ms,
                      fs_updated_at_ms = received_at_ms\<rparr> (frames s1)\<rparr>))
      | Text text \<Rightarrow>
          (case parse_result text of
             None \<Rightarrow> (True, s)
           | Some result \<Rightarrow>
               (True, send_result (cq_command_id result) \<lparr>cr_ok = cq_ok result, cr_text = cq_text result\<rparr> s))
      | Close \<Rightarrow> (False, s)
      | _ \<Rightarrow> (True, s))"

text \<open>After the loop: on a close, a receive error or the end of the stream.\<close>

definition ws_host_close :: "string \<Rightarrow> app_state \<Rightarrow> app_state" where
  "ws_host_close device_id s = s\<lparr>ws_host_cmd_tx := hrem device_id (ws_host_cmd_tx s)\<rparr>"

section \<open>The viewer's socket\<close>

definition ws_viewer_handler :: "ms \<Rightarrow> string \<Rightarrow> string \<Rightarrow> app_state \<Rightarrow> unit response \<times> app_state" where
  "ws_viewer_handler now device_id token s =
     (let (ok, s1) = validate_viewer now device_id token s
      in (if ok then Ok_with () else Status 401, s1))"

text \<open>Where the loop stands: waiting in \<open>select!\<close>, waiting for a forwarded command, or over.\<close>

datatype viewer_loop = Running | Forwarding string | Ended

text \<open>What \<open>select!\<close> can return, and the end of the wait for a forwarded command.\<close>

datatype viewer_event =
  Ping_tick bool
| Frame_received ws_frame bool
| Frames_lagged
| Frames_closed
| Socket_message "ws_message option"
| Forward_poll bool

definition ws_viewer_open :: "ms \<Rightarrow> string \<Rightarrow> string \<Rightarrow> string \<Rightarrow> app_state \<Rightarrow> viewer_loop \<times> app_state" where
  "ws_viewer_open now device_id token key s =
     (let (renewed, s1) = renew_screen_lease now device_id token key s
      in if \<not> renewed then (Ended, s1)
         else (Running, snd (get_or_create_broadcaster device_id s1)))"

definition ws_viewer_text ::
  "(string \<Rightarrow> json option) \<Rightarrow> ms \<Rightarrow> string \<Rightarrow> string \<Rightarrow> string \<Rightarrow> string \<Rightarrow> app_state \<Rightarrow> viewer_loop \<times> app_state" where
  "ws_viewer_text parse_json now device_id token command_id text s =
     (let (ok, s1) = validate_viewer now device_id token s in
      if \<not> ok then (Ended, s1)
      else
        case parse_json text of
          None \<Rightarrow> (Running, s1)
        | Some cmd \<Rightarrow>
            let kind = (case Option.bind (json_get ''kind'' cmd) json_str of Some k \<Rightarrow> k | None \<Rightarrow> '''');
                payload = (case json_get ''payload'' cmd of Some p \<Rightarrow> p | None \<Rightarrow> JObj []) in
            (case hget (ws_host_cmd_tx s1) device_id of
               Some sent \<Rightarrow>
                 (Running, s1\<lparr>ws_host_cmd_tx := hput device_id
                    (sent @ [JObj [(''command_id'', JStr command_id), (''kind'', JStr kind),
                                   (''payload'', payload)]]) (ws_host_cmd_tx s1)\<rparr>)
             | None \<Rightarrow>
                 (case forward_start now device_id token kind command_id payload s1 of
                    (Inl _, s2) \<Rightarrow> (Running, s2)
                  | (Inr cid, s2) \<Rightarrow> (Forwarding cid, s2))))"

text \<open>
  One turn: the packets written to the socket, where the loop stands, the state.  While a command is
  being forwarded only its own wait can fire.
\<close>

definition ws_viewer_turn ::
  "(string \<Rightarrow> json option) \<Rightarrow> ms \<Rightarrow> string \<Rightarrow> string \<Rightarrow> string \<Rightarrow> string \<Rightarrow> viewer_event \<Rightarrow> viewer_loop \<Rightarrow>
     app_state \<Rightarrow> bytes list \<times> viewer_loop \<times> app_state" where
  "ws_viewer_turn parse_json now device_id token key command_id e loop s =
     (case loop of
        Ended \<Rightarrow> ([], Ended, s)
      | Forwarding cid \<Rightarrow>
          (case e of
             Forward_poll timed_out \<Rightarrow>
               (case forward_finish cid timed_out s of
                  (None, s1) \<Rightarrow> ([], Forwarding cid, s1)
                | (Some _, s1) \<Rightarrow> ([], Running, s1))
           | _ \<Rightarrow> ([], Forwarding cid, s))
      | Running \<Rightarrow>
          (case e of
             Ping_tick sent \<Rightarrow>
               if \<not> screen_lease_alive now device_id key s \<or> \<not> sent then ([], Ended, s)
               else ([], Running, s)
           | Frame_received frame sent \<Rightarrow>
               if \<not> screen_lease_alive now device_id key s then ([], Ended, s)
               else ([viewer_packet frame], if sent then Running else Ended, s)
           | Frames_lagged \<Rightarrow>
               if \<not> screen_lease_alive now device_id key s then ([], Ended, s) else ([], Running, s)
           | Frames_closed \<Rightarrow> ([], Ended, s)
           | Socket_message m \<Rightarrow>
               (case m of
                  Some Pong \<Rightarrow>
                    if \<not> screen_lease_alive now device_id key s then ([], Ended, s)
                    else
                      let (renewed, s1) = renew_screen_lease now device_id token key s
                      in ([], if renewed then Running else Ended, s1)
                | Some (Text text) \<Rightarrow> ([], ws_viewer_text parse_json now device_id token command_id text s)
                | Some Close \<Rightarrow> ([], Ended, s)
                | None \<Rightarrow> ([], Ended, s)
                | _ \<Rightarrow> ([], Running, s))
           | Forward_poll _ \<Rightarrow> ([], Running, s)))"

text \<open>
  The whole connection: the turns with their clock readings and fresh ids, \<open>env\<close> the other handlers
  between them, then the release of the lease.
\<close>

fun ws_viewer_loop ::
  "(string \<Rightarrow> json option) \<Rightarrow> string \<Rightarrow> string \<Rightarrow> string \<Rightarrow> (ms \<times> string \<times> viewer_event \<times> (app_state \<Rightarrow> app_state)) list \<Rightarrow>
     viewer_loop \<Rightarrow> app_state \<Rightarrow> bytes list \<times> viewer_loop \<times> app_state" where
  "ws_viewer_loop parse_json device_id token key [] loop s = ([], loop, s)"
| "ws_viewer_loop parse_json device_id token key ((now, command_id, e, env) # events) loop s =
     (let (out, loop1, s1) = ws_viewer_turn parse_json now device_id token key command_id e loop s in
      if loop1 = Ended then (out, Ended, release_screen_lease now device_id key s1)
      else
        let (rest, loop2, s2) = ws_viewer_loop parse_json device_id token key events loop1 (env s1)
        in (out @ rest, loop2, s2))"

definition ws_viewer_connection ::
  "(string \<Rightarrow> json option) \<Rightarrow> ms \<Rightarrow> string \<Rightarrow> string \<Rightarrow> string \<Rightarrow> (ms \<times> string \<times> viewer_event \<times> (app_state \<Rightarrow> app_state)) list \<Rightarrow>
     app_state \<Rightarrow> bytes list \<times> viewer_loop \<times> app_state" where
  "ws_viewer_connection parse_json now device_id token key events s =
     (case ws_viewer_open now device_id token key s of
        (Ended, s1) \<Rightarrow> ([], Ended, s1)
      | (loop, s1) \<Rightarrow> ws_viewer_loop parse_json device_id token key events loop s1)"

section \<open>Leases and frames under the sockets\<close>

lemma json_get_simps [simp]:
  "json_get k (JObj kvs) = map_of kvs k" "json_get k (JStr t) = None"
  by (simp_all add: json_get_def)

lemma broadcaster_fields [simp]:
  "frames (snd (get_or_create_broadcaster d s)) = frames s"
  "screen_demands (snd (get_or_create_broadcaster d s)) = screen_demands s"
  "previews (snd (get_or_create_broadcaster d s)) = previews s"
  by (simp_all add: get_or_create_broadcaster_def Let_def)

lemma lease_move_plain:
  "frames s' = frames s \<Longrightarrow> screen_demands s' = screen_demands s \<Longrightarrow> previews s' = previews s \<Longrightarrow> lease_move s s'"
  by (rule lease_move_same) (auto simp: host_on_demand_def)

lemma forward_start_keeps [simp]:
  "frames (snd (forward_start now d tok kind cid payload s)) = frames s"
  "screen_demands (snd (forward_start now d tok kind cid payload s)) = screen_demands s"
  "previews (snd (forward_start now d tok kind cid payload s)) = previews s"
  by (auto simp: forward_start_def check_eqs queue_command_def split: option.split)

lemma forward_finish_keeps [simp]:
  "frames (snd (forward_finish cid t s)) = frames s"
  "screen_demands (snd (forward_finish cid t s)) = screen_demands s"
  "previews (snd (forward_finish cid t s)) = previews s"
  by (auto simp: forward_finish_def split: option.split)

lemma ws_viewer_text_fields:
  "frames (snd (ws_viewer_text pj now d tok cid text s)) = frames s \<and>
   screen_demands (snd (ws_viewer_text pj now d tok cid text s)) = screen_demands s \<and>
   previews (snd (ws_viewer_text pj now d tok cid text s)) = previews s"
proof -
  have "frames s2 = frames s \<and> screen_demands s2 = screen_demands s \<and> previews s2 = previews s"
    if "forward_start now d tok kind cid payload (s\<lparr>viewer_sessions := v\<rparr>) = (r, s2)" for kind payload v r s2
    using that forward_start_keeps [of now d tok kind cid payload "s\<lparr>viewer_sessions := v\<rparr>"] by simp
  then show ?thesis
    by (auto simp: ws_viewer_text_def validate_viewer_eq Let_def split: option.split prod.split sum.split)
qed

lemma lease_move_viewer_turn:
  "lease_move s (snd (snd (ws_viewer_turn pj now d tok key cid e loop s)))"
proof -
  have tx: "lease_move s (snd (ws_viewer_text pj now d tok cid m s))" for m
    using ws_viewer_text_fields [of pj now d tok cid m s] by (intro lease_move_plain) auto
  have fin: "lease_move s (snd (forward_finish c tm s))" for c tm
    by (rule lease_move_plain) simp_all
  have renew: "lease_move s (snd (renew_screen_lease now d tok key s))"
    by (rule lease_move_renew)
  show ?thesis
    using tx fin renew
    by (auto simp: ws_viewer_turn_def lease_move_refl case_prod_beta Let_def
        split: viewer_loop.split viewer_event.split option.split ws_message.split)
qed

lemma lease_move_viewer_open:
  "lease_move s (snd (ws_viewer_open now d tok key s))"
proof -
  have "lease_move s (snd (renew_screen_lease now d tok key s))" by (rule lease_move_renew)
  moreover have "lease_move t (snd (get_or_create_broadcaster d t))" for t
    by (rule lease_move_plain) simp_all
  ultimately show ?thesis
    by (auto simp: ws_viewer_open_def case_prod_beta Let_def intro: lease_move_trans)
qed

lemma ws_host_message_demands:
  "screen_demands (snd (ws_host_message pr now d msg s)) = screen_demands s \<and>
   previews (snd (ws_host_message pr now d msg s)) = previews s \<and>
   (d' \<noteq> d \<longrightarrow> hget (frames (snd (ws_host_message pr now d msg s))) d' = hget (frames s) d')"
  by (auto simp: ws_host_message_def send_result_def Let_def split: ws_message.split option.split prod.split)

end
