(* ===== verification/Capture_Audience.thy ===== *)
theory Capture_Audience
  imports Capture_Props Cleanup_Props Previews Websockets
begin

text \<open>
  The privacy property of on-demand capture, over every interleaving of hosts, viewers and the sweep:
  a frame is only ever served to the audience it was captured for.
\<close>

section \<open>The transition system\<close>

text \<open>
  Ghost state: for each device, the capture epoch its host named when it uploaded the stored frame,
  which is the audience it captured the frame for.  The steps
  are the handlers themselves, those of the sockets included.  Two of them carry a condition, because
  the code lets a host change its mode of capture and the property is about a host that does not:
  a registration does not switch a host with a stored frame to capture on demand, and a host's socket,
  which the relay opens only for hosts that do not capture on demand, sends nothing once its host does.
  \<open>socket_frame_after_switch\<close> in \<open>Websocket_Props\<close> shows what happens otherwise.  \<open>cu_Other\<close> is any step that leaves
  frames and demands alone, under the same condition.
\<close>

record capture_sys =
  ca_app :: app_state
  ca_epoch :: "string \<Rightarrow> nat"

definition named_epoch :: "frame_upload_query \<Rightarrow> nat" where
  "named_epoch q = (case fq_capture_epoch q of Some e \<Rightarrow> e | None \<Rightarrow> 0)"

inductive capture_step :: "capture_sys \<Rightarrow> capture_sys \<Rightarrow> bool" where
  cu_Upload: "upload_frame now q body (ca_app c) = (Ok_with t, s') \<Longrightarrow>
    capture_step c (c\<lparr>ca_app := s',
      ca_epoch := (ca_epoch c)(fq_device_id q := named_epoch q)\<rparr>)"
| cu_Upload_refused: "upload_frame now q body (ca_app c) = (Status n, s') \<Longrightarrow>
    capture_step c (c\<lparr>ca_app := s'\<rparr>)"
| cu_Fetch: "capture_step c (c\<lparr>ca_app := snd (fetch_frame now d tok (ca_app c))\<rparr>)"
| cu_Renew: "capture_step c (c\<lparr>ca_app := snd (renew_screen_lease now d tok key (ca_app c))\<rparr>)"
| cu_Release: "capture_step c (c\<lparr>ca_app := release_screen_lease now d key (ca_app c)\<rparr>)"
| cu_Demand: "capture_step c (c\<lparr>ca_app := snd (host_screen_demand now d ht (ca_app c))\<rparr>)"
| cu_Stop: "capture_step c (c\<lparr>ca_app := snd (stop_viewer_screen now d tok (ca_app c))\<rparr>)"
| cu_Close: "capture_step c (c\<lparr>ca_app := snd (close_viewer_session now d tok (ca_app c))\<rparr>)"
| cu_Disconnect: "capture_step c (c\<lparr>ca_app := snd (disconnect_viewers now d ht (ca_app c))\<rparr>)"
| cu_Unregister: "capture_step c (c\<lparr>ca_app := snd (unregister_preview now d ht (ca_app c))\<rparr>)"
| cu_Stale: "capture_step c (c\<lparr>ca_app := remove_preview_state d (ca_app c)\<rparr>)"
| cu_Cleanup: "capture_step c (c\<lparr>ca_app := cleanup_expired now (ca_app c)\<rparr>)"
| cu_Host_socket: "\<not> host_on_demand d (ca_app c) \<Longrightarrow>
    capture_step c (c\<lparr>ca_app := snd (ws_host_message pr now d msg (ca_app c))\<rparr>)"
| cu_Viewer_open: "capture_step c (c\<lparr>ca_app := snd (ws_viewer_open now d tok key (ca_app c))\<rparr>)"
| cu_Viewer_turn:
    "capture_step c (c\<lparr>ca_app := snd (snd (ws_viewer_turn pj now d tok key cid e loop (ca_app c)))\<rparr>)"
| cu_Register: "rp_on_demand_capture q \<Longrightarrow> host_on_demand (rp_device_id q) (ca_app c) \<or>
      hget (frames (ca_app c)) (rp_device_id q) = None \<Longrightarrow>
    capture_step c (c\<lparr>ca_app := snd (register_preview now new_token q (ca_app c))\<rparr>)"
| cu_Register_continuous: "\<not> rp_on_demand_capture q \<Longrightarrow>
    capture_step c (c\<lparr>ca_app := snd (register_preview now new_token q (ca_app c))\<rparr>)"
| cu_Other: "frames s' = frames (ca_app c) \<Longrightarrow> screen_demands s' = screen_demands (ca_app c) \<Longrightarrow>
    (\<And>d. host_on_demand d s' \<Longrightarrow> host_on_demand d (ca_app c) \<or> hget (frames s') d = None) \<Longrightarrow>
    capture_step c (c\<lparr>ca_app := s'\<rparr>)"

inductive capture_reachable :: "capture_sys \<Rightarrow> bool" where
  capture_init: "capture_reachable \<lparr>ca_app = app_state_new path fs, ca_epoch = e\<rparr>"
| capture_next: "capture_reachable c \<Longrightarrow> capture_step c c' \<Longrightarrow> capture_reachable c'"

definition capture_inv :: "capture_sys \<Rightarrow> bool" where
  "capture_inv c \<longleftrightarrow>
     (\<forall>d. host_on_demand d (ca_app c) \<longrightarrow> hget (frames (ca_app c)) d \<noteq> None \<longrightarrow>
        ca_epoch c d = sd_epoch (demand_entry d (ca_app c)) \<and> \<not> no_viewers (demand_entry d (ca_app c)))"

lemma capture_inv_move:
  assumes inv: "capture_inv c" and move: "lease_move (ca_app c) s'"
  shows "capture_inv (c\<lparr>ca_app := s'\<rparr>)"
  unfolding capture_inv_def
proof (intro allI impI)
  fix d
  assume od: "host_on_demand d (ca_app (c\<lparr>ca_app := s'\<rparr>))"
    and fr: "hget (frames (ca_app (c\<lparr>ca_app := s'\<rparr>))) d \<noteq> None"
  then have m: "host_on_demand d (ca_app c)" "hget (frames s') d = hget (frames (ca_app c)) d"
    "sd_epoch (demand_entry d s') = sd_epoch (demand_entry d (ca_app c))"
    "no_viewers (demand_entry d s') \<Longrightarrow> no_viewers (demand_entry d (ca_app c))"
    using move by (auto simp: lease_move_def)
  moreover have "ca_epoch c d = sd_epoch (demand_entry d (ca_app c))"
    "\<not> no_viewers (demand_entry d (ca_app c))"
    using inv m(1,2) fr by (auto simp: capture_inv_def)
  ultimately show "ca_epoch (c\<lparr>ca_app := s'\<rparr>) d = sd_epoch (demand_entry d (ca_app (c\<lparr>ca_app := s'\<rparr>))) \<and>
      \<not> no_viewers (demand_entry d (ca_app (c\<lparr>ca_app := s'\<rparr>)))"
    by auto
qed

lemma capture_inv_mode:
  assumes "capture_inv c" and "frames s' = frames (ca_app c)" and "screen_demands s' = screen_demands (ca_app c)"
    and "\<And>d. host_on_demand d s' \<Longrightarrow> host_on_demand d (ca_app c) \<or> hget (frames s') d = None"
  shows "capture_inv (c\<lparr>ca_app := s'\<rparr>)"
  using assms by (fastforce simp: capture_inv_def demand_entry_def)

lemma register_move:
  "frames (snd (register_preview now tok q s)) = frames s"
  "screen_demands (snd (register_preview now tok q s)) = screen_demands s"
  "host_on_demand d (snd (register_preview now tok q s)) \<Longrightarrow>
     host_on_demand d s \<or> d = rp_device_id q \<and> rp_on_demand_capture q"
  by (auto simp: register_preview_def check_eqs Let_def host_on_demand_iff split: option.splits if_splits)

lemma lease_move_fetch: "lease_move s (snd (fetch_frame now d tok s))"
proof (cases "viewer_ok now d tok s")
  case True
  then have "snd (fetch_frame now d tok s) = snd (renew_screen_lease now d tok tok s)"
    by (auto simp: fetch_frame_eq Let_def split: option.split)
  then show ?thesis by (simp add: lease_move_renew)
next
  case False
  then show ?thesis by (auto simp: fetch_frame_eq intro: lease_move_same)
qed

lemma capture_inv_step:
  assumes inv: "capture_inv c" and step: "capture_step c c'"
  shows "capture_inv c'"
  using step
proof (cases rule: capture_step.cases)
  case (cu_Upload now q body t s')
  let ?d = "fq_device_id q"
  have s': "s' = snd (upload_frame now q body (ca_app c))"
    using cu_Upload(2) by simp
  have ok: "validate_host now ?d (fq_host_token q) (ca_app c)" "upload_admissible now q (ca_app c)"
    using upload_frame_response [of now q body "ca_app c"] cu_Upload(2) by (auto split: if_splits)
  have fr: "hget (frames s') d = (if d = ?d then Some (uploaded_frame now q body)
      else hget (frames (ca_app c)) d)" for d
    unfolding s' by (rule upload_frame_frames [OF ok])
  have de: "demand_entry d s' = (if d = ?d then (demand_entry d (ca_app c))\<lparr>sd_viewers := audience now d (ca_app c)\<rparr>
      else demand_entry d (ca_app c))" for d
    unfolding s' using ok(1) by (simp add: upload_frame_demand)
  have od: "host_on_demand d s' = host_on_demand d (ca_app c)" for d
    unfolding s' by (rule host_on_demand_cong) simp
  show ?thesis
    using inv ok(2) by (auto simp: cu_Upload(1) capture_inv_def fr de od upload_admissible_def named_epoch_def)
next
  case (cu_Upload_refused now q body n s')
  have "\<not> (validate_host now (fq_device_id q) (fq_host_token q) (ca_app c) \<and> upload_admissible now q (ca_app c))"
    using upload_frame_response [of now q body "ca_app c"] cu_Upload_refused(2) by (auto split: if_splits)
  from upload_frame_rejected [OF this, of body] have "lease_move (ca_app c) s'"
    using cu_Upload_refused(2) by simp
  then show ?thesis unfolding cu_Upload_refused(1) by (rule capture_inv_move [OF inv])
next
  case (cu_Host_socket d pr now msg)
  let ?s' = "snd (ws_host_message pr now d msg (ca_app c))"
  note W = ws_host_message_demands [of pr now d msg "ca_app c"]
  have od: "host_on_demand d' ?s' = host_on_demand d' (ca_app c)" for d'
    using W by (simp add: host_on_demand_def)
  have de: "demand_entry d' ?s' = demand_entry d' (ca_app c)" for d'
    using W by (simp add: demand_entry_def)
  have "hget (frames ?s') d' = hget (frames (ca_app c)) d'" if "host_on_demand d' (ca_app c)" for d'
    using W cu_Host_socket(2) that by metis
  then show ?thesis
    using inv unfolding cu_Host_socket(1) capture_inv_def by (simp add: od de)
next
  case (cu_Register q now new_token)
  let ?s' = "snd (register_preview now new_token q (ca_app c))"
  have "host_on_demand d (ca_app c) \<or> hget (frames ?s') d = None" if "host_on_demand d ?s'" for d
    using register_move(3) [OF that] cu_Register(3) by (auto simp: register_move(1))
  then show ?thesis
    unfolding cu_Register(1) by (intro capture_inv_mode [OF inv] register_move(1,2)) auto
next
  case (cu_Register_continuous q now new_token)
  then show ?thesis
    using register_move(3) [of _ now new_token q "ca_app c"]
    by (auto intro!: capture_inv_mode [OF inv] simp: register_move(1,2))
next
  case (cu_Other s')
  show ?thesis unfolding cu_Other(1) by (rule capture_inv_mode [OF inv cu_Other(2-4)])
qed (use inv in \<open>auto intro!: capture_inv_move lease_move_fetch lease_move_renew lease_move_release
      lease_move_host_demand lease_move_stop lease_move_close lease_move_disconnect
      lease_move_unregister lease_move_remove_preview lease_move_cleanup lease_move_viewer_open
      lease_move_viewer_turn\<close>)

lemma capture_inv_reachable: "capture_reachable c \<Longrightarrow> capture_inv c"
proof (induction rule: capture_reachable.induct)
  case (capture_init path fs e)
  show ?case by (simp add: capture_inv_def app_state_new_def)
next
  case (capture_next c c')
  then show ?case by (blast intro: capture_inv_step)
qed


section \<open>A concrete run\<close>

text \<open>One viewer opens epoch 1 at 2000 ms, the host uploads for it at 2100 ms.\<close>

definition run_viewer :: app_state where
  "run_viewer = snd (renew_screen_lease 2000 ''123'' ''vt'' ''k'' (demo_state True))"

definition run_upload :: frame_upload_query where
  "run_upload = demo_upload\<lparr>fq_capture_epoch := Some 1\<rparr>"

definition run_frame :: app_state where
  "run_frame = snd (upload_frame 2100 run_upload [7] run_viewer)"

lemma run_viewer_facts:
  "demand_entry ''123'' run_viewer =
     \<lparr>sd_epoch = 1, sd_viewers = hput ''k'' (''vt'', 12000) (audience 2000 ''123'' (demo_state True))\<rparr>"
  "host_on_demand ''123'' run_viewer" "validate_host 2100 ''123'' ''ht'' run_viewer"
  "hget (viewer_sessions run_viewer) ''vt'' = Some \<lparr>vs_device_id = ''123'', vs_last_seen_ms = 2000\<rparr>"
proof -
  have e: "audience_empty 2000 ''123'' (demo_state True)"
    by (simp add: audience_empty_alive)
  show "demand_entry ''123'' run_viewer =
     \<lparr>sd_epoch = 1, sd_viewers = hput ''k'' (''vt'', 12000) (audience 2000 ''123'' (demo_state True))\<rparr>"
    "host_on_demand ''123'' run_viewer"
    by (simp_all add: run_viewer_def renew_eq e renewed_epoch_def demand_default_def SCREEN_LEASE_MS_def)
  show "validate_host 2100 ''123'' ''ht'' run_viewer"
    by (simp add: run_viewer_def renew_eq validate_host_iff)
      (simp add: demo_state_def demo_host_def PREVIEW_TTL_MS_def)
  have "hget (viewer_sessions (demo_state True)) ''vt'' =
      Some \<lparr>vs_device_id = ''123'', vs_last_seen_ms = 1000\<rparr>"
    by (simp add: demo_state_def)
  then show "hget (viewer_sessions run_viewer) ''vt'' = Some \<lparr>vs_device_id = ''123'', vs_last_seen_ms = 2000\<rparr>"
    by (simp add: run_viewer_def renew_eq hget_viewers_touched)
qed

lemma run_viewer_audience: "hget (audience t ''123'' run_viewer) ''k'' = Some (''vt'', 12000) \<longleftrightarrow> t < 12000"
  by (simp add: hget_audience run_viewer_facts(1) hhas_def run_viewer_facts(4))

lemma run_admissible: "upload_admissible 2100 run_upload run_viewer"
  using run_viewer_audience [of 2100]
  by (auto simp: upload_admissible_def run_upload_def demo_upload_def run_viewer_facts audience_empty_iff)

lemma run_frame_facts:
  "upload_frame 2100 run_upload [7] run_viewer = (Ok_with 2100, run_frame)"
  "hget (frames run_frame) ''123'' = Some (uploaded_frame 2100 run_upload [7])"
  "host_on_demand ''123'' run_frame" "viewer_sessions run_frame = viewer_sessions run_viewer"
  "demand_entry ''123'' run_frame =
     (demand_entry ''123'' run_viewer)\<lparr>sd_viewers := audience 2100 ''123'' run_viewer\<rparr>"
proof -
  have d: "fq_device_id run_upload = ''123''" "fq_host_token run_upload = ''ht''"
    by (simp_all add: run_upload_def demo_upload_def)
  have "fst (upload_frame 2100 run_upload [7] run_viewer) = Ok_with 2100"
    by (simp add: upload_frame_response d run_viewer_facts run_admissible)
  then show "upload_frame 2100 run_upload [7] run_viewer = (Ok_with 2100, run_frame)"
    unfolding run_frame_def by (metis prod.collapse)
  show "hget (frames run_frame) ''123'' = Some (uploaded_frame 2100 run_upload [7])"
    using upload_frame_frames [OF _ run_admissible, of "[7]" "''123''"]
    by (simp add: run_frame_def d run_viewer_facts)
  show "host_on_demand ''123'' run_frame"
    using run_viewer_facts(2) host_on_demand_cong [OF upload_frame_previews, of "''123''" 2100 run_upload "[7]" run_viewer]
    by (simp add: run_frame_def)
  show "viewer_sessions run_frame = viewer_sessions run_viewer"
    by (simp add: run_frame_def upload_frame_def Let_def prune_eq put_demand_def)
  show "demand_entry ''123'' run_frame =
     (demand_entry ''123'' run_viewer)\<lparr>sd_viewers := audience 2100 ''123'' run_viewer\<rparr>"
    by (simp add: run_frame_def upload_frame_demand d run_viewer_facts)
qed

lemma run_reachable:
  "\<exists>e. e ''123'' = 1 \<and> capture_reachable \<lparr>ca_app = run_frame, ca_epoch = e\<rparr>"
proof -
  let ?e = "\<lambda>_ :: string. 0 :: nat"
  let ?c0 = "\<lparr>ca_app = app_state_new ''data/users.json'' hempty, ca_epoch = ?e\<rparr>"
  have "screen_demands (demo_state True) = screen_demands (ca_app ?c0)"
    by (simp add: demo_state_def)
  then have "capture_step ?c0 \<lparr>ca_app = demo_state True, ca_epoch = ?e\<rparr>"
    using cu_Other [of "demo_state True" ?c0] by (simp add: app_state_new_def)
  then have 1: "capture_reachable \<lparr>ca_app = demo_state True, ca_epoch = ?e\<rparr>"
    by (rule capture_next [OF capture_init])
  have "capture_step \<lparr>ca_app = demo_state True, ca_epoch = ?e\<rparr> \<lparr>ca_app = run_viewer, ca_epoch = ?e\<rparr>"
    using cu_Renew [of "\<lparr>ca_app = demo_state True, ca_epoch = ?e\<rparr>" 2000 "''123''" "''vt''" "''k''"]
    by (simp add: run_viewer_def)
  then have 2: "capture_reachable \<lparr>ca_app = run_viewer, ca_epoch = ?e\<rparr>"
    by (rule capture_next [OF 1])
  have "capture_step \<lparr>ca_app = run_viewer, ca_epoch = ?e\<rparr>
      \<lparr>ca_app = run_frame, ca_epoch = ?e(''123'' := 1)\<rparr>"
    using cu_Upload [of 2100 run_upload "[7]" "\<lparr>ca_app = run_viewer, ca_epoch = ?e\<rparr>" 2100 run_frame] run_frame_facts(1)
    by (simp add: named_epoch_def run_upload_def demo_upload_def)
  from capture_next [OF 2 this] show ?thesis by (intro exI [of _ "?e(''123'' := 1)"]) simp
qed


end
