(* ===== verification/File_Props.thy ===== *)
theory File_Props
  imports Files
begin

text \<open>
  Correctness of file relaying: the names a host may be asked to save under, who may collect a file,
  and the memory budget over every interleaving of uploads, downloads and sweeps.
\<close>

section \<open>File names\<close>

lemma set_concat_sub: "set gs \<subseteq> set hs \<Longrightarrow> set (concat gs) \<subseteq> set (concat hs)"
  by auto

lemma trim_groups_sub: "set (trim_groups gs) \<subseteq> set gs"
  by (rule subseq_set) (rule subseq_trim_groups)

definition cleaned_groups :: "string \<Rightarrow> string list" where
  "cleaned_groups raw =
     trim_groups (take 200 (filter (\<lambda>c. \<not> is_control c) (chars (after_last path_sep raw))))"

lemma subseq_cleaned: "subseq (cleaned_groups raw) (chars (after_last path_sep raw))"
proof -
  let ?f = "filter (\<lambda>c. \<not> is_control c) (chars (after_last path_sep raw))"
  have "subseq (cleaned_groups raw) (take 200 ?f)"
    unfolding cleaned_groups_def by (rule subseq_trim_groups)
  also have "subseq (take 200 ?f) ?f"
    by (rule prefix_imp_subseq) (rule take_is_prefix)
  also have "subseq ?f (chars (after_last path_sep raw))"
    by (rule subseq_filter_left)
  finally show ?thesis .
qed

lemma chars_cleaned: "chars (concat (cleaned_groups raw)) = cleaned_groups raw"
  by (rule chars_concat_sub) (rule subseq_cleaned)

lemma safe_file_name_eq:
  "safe_file_name raw =
     (let n = concat (cleaned_groups raw)
      in if n = [] \<or> n = ''.'' \<or> n = ''..'' then None else Some n)"
proof -
  let ?f = "filter (\<lambda>c. \<not> is_control c) (chars (after_last path_sep raw))"
  have "subseq (take 200 ?f) (chars (after_last path_sep raw))"
    using prefix_imp_subseq [OF take_is_prefix, of 200 ?f] subseq_filter_left subseq_order.trans
    by blast
  then have "chars (concat (take 200 ?f)) = take 200 ?f"
    by (rule chars_concat_sub)
  then have "trim (concat (take 200 ?f)) = concat (cleaned_groups raw)"
    by (simp add: trim_def cleaned_groups_def)
  then show ?thesis
    by (simp add: safe_file_name_def Let_def)
qed

lemma cleaned_chars_no_sep: "c \<in> set (concat (cleaned_groups raw)) \<Longrightarrow> \<not> path_sep c"
proof -
  assume c: "c \<in> set (concat (cleaned_groups raw))"
  have "set (concat (cleaned_groups raw)) \<subseteq> set (concat (chars (after_last path_sep raw)))"
    by (rule set_concat_sub) (rule subseq_set [OF subseq_cleaned])
  with c show "\<not> path_sep c"
    using after_last_no_sep [of c path_sep raw] by auto
qed

lemma cleaned_no_control: "g \<in> set (cleaned_groups raw) \<Longrightarrow> \<not> is_control g"
  using trim_groups_sub [of "take 200 (filter (\<lambda>c. \<not> is_control c) (chars (after_last path_sep raw)))"]
  by (auto simp: cleaned_groups_def dest!: in_set_takeD)

lemma length_cleaned: "length (cleaned_groups raw) \<le> 200"
proof -
  have "length (cleaned_groups raw) \<le>
      length (take 200 (filter (\<lambda>c. \<not> is_control c) (chars (after_last path_sep raw))))"
    unfolding cleaned_groups_def by (rule list_emb_length) (rule subseq_trim_groups)
  then show ?thesis by simp
qed



section \<open>The memory budget\<close>

text \<open>
  The system: the relay's state and, as ghost state, the admitted uploads that have not ended, each
  with its reserved size and whether its file has been put in the store.  The key of an upload is the
  file id it will use, a fresh token.  The steps are the pieces of the handlers between their
  suspension points; \<open>ft_Other\<close> stands for every step that changes neither the total nor the store,
  or only removes files from the store (the sweep).
\<close>

record file_sys =
  fy_app :: app_state
  fy_transfers :: "(string, u64 \<times> bool) hmap"

definition only_removes_files :: "app_state \<Rightarrow> app_state \<Rightarrow> bool" where
  "only_removes_files s s' \<longleftrightarrow> file_bytes s' = file_bytes s \<and>
     (\<forall>k b. hget (file_store s') k = Some b \<longrightarrow> hget (file_store s) k = Some b)"

inductive file_step :: "file_sys \<Rightarrow> file_sys \<Rightarrow> bool" where
  ft_Admit: "admit_file now q h (fy_app f) = (Inr (name, sz), s') \<Longrightarrow>
    hget (fy_transfers f) fid = None \<Longrightarrow> hget (file_store (fy_app f)) fid = None \<Longrightarrow>
    file_step f (f\<lparr>fy_app := s', fy_transfers := hput fid (sz, False) (fy_transfers f)\<rparr>)"
| ft_Reject: "admit_file now q h (fy_app f) = (Inl e, s') \<Longrightarrow> file_step f (f\<lparr>fy_app := s'\<rparr>)"
| ft_Abort: "hget (fy_transfers f) fid = Some (sz, False) \<Longrightarrow>
    file_step f (f\<lparr>fy_app := drop_reservation sz (fy_app f), fy_transfers := hrem fid (fy_transfers f)\<rparr>)"
| ft_Store: "hget (fy_transfers f) fid = Some (sz, False) \<Longrightarrow> body_complete sz received = Some data \<Longrightarrow>
    relay_file_start now q name fid cid data (fy_app f) = (r, s') \<Longrightarrow>
    file_step f (f\<lparr>fy_app := s', fy_transfers := hput fid (sz, True) (fy_transfers f)\<rparr>)"
| ft_End: "hget (fy_transfers f) fid = Some (sz, True) \<Longrightarrow>
    file_step f (f\<lparr>fy_app := relay_file_end fid sz (fy_app f), fy_transfers := hrem fid (fy_transfers f)\<rparr>)"
| ft_Collect: "file_host_download now fid d ht (fy_app f) = (r, s') \<Longrightarrow> file_step f (f\<lparr>fy_app := s'\<rparr>)"
| ft_Read: "file_download now fid tok (fy_app f) = (r', s') \<Longrightarrow> file_step f (f\<lparr>fy_app := s'\<rparr>)"
| ft_Other: "only_removes_files (fy_app f) s' \<Longrightarrow> file_step f (f\<lparr>fy_app := s'\<rparr>)"

inductive file_reachable :: "file_sys \<Rightarrow> bool" where
  file_init: "file_reachable \<lparr>fy_app = app_state_new path fs, fy_transfers = hempty\<rparr>"
| file_next: "file_reachable f \<Longrightarrow> file_step f f' \<Longrightarrow> file_reachable f'"

definition reserved :: "(string, u64 \<times> bool) hmap \<Rightarrow> nat" where
  "reserved = hsum (\<lambda>(sz, _). unat sz)"

definition file_inv :: "file_sys \<Rightarrow> bool" where
  "file_inv f \<longleftrightarrow>
     unat (file_bytes (fy_app f)) = reserved (fy_transfers f) \<and>
     reserved (fy_transfers f) \<le> FILE_STORE_MAX_BYTES \<and>
     (\<forall>k b. hget (file_store (fy_app f)) k = Some b \<longrightarrow>
        (\<exists>sz. hget (fy_transfers f) k = Some (sz, True) \<and> length (fb_data b) = unat sz))"

lemma forward_start_fields:
  "file_bytes (snd (forward_start now d tok kind cid payload s)) = file_bytes s"
  "file_store (snd (forward_start now d tok kind cid payload s)) = file_store s"
  by (simp_all add: forward_start_def validate_viewer_eq Let_def queue_command_def split: option.split)

lemma try_reserve_fields:
  assumes "try_reserve sz s = (True, s')"
  shows "unat (file_bytes s') = unat (file_bytes s) + unat sz"
    and "unat (file_bytes s') \<le> FILE_STORE_MAX_BYTES" and "file_store s' = file_store s"
  using assms
  by (auto simp: try_reserve_def Let_def unat_word_ariths split: if_splits)

lemma admit_file_ok:
  assumes "admit_file now q h s = (Inr (name, sz), s')"
  shows "viewer_ok now (uq_device_id q) (uq_token q) s" "safe_file_name (uq_filename q) = Some name"
    and "\<exists>n. Option.bind (header_str h ''content-length'') parse_usize = Some n \<and>
             n \<le> FILE_MAX_BYTES \<and> sz = of_nat n"
    and "unat (file_bytes s') = unat (file_bytes s) + unat sz"
    and "unat (file_bytes s') \<le> FILE_STORE_MAX_BYTES" "file_store s' = file_store s"
  using assms
  by (auto simp: admit_file_def validate_viewer_eq Let_def split: option.splits if_splits prod.splits
      dest: try_reserve_fields)

lemma admit_file_error:
  assumes "admit_file now q h s = (Inl e, s')"
  shows "file_bytes s' = file_bytes s" "file_store s' = file_store s"
  using assms
  by (auto simp: admit_file_def validate_viewer_eq Let_def try_reserve_def
      split: option.splits if_splits prod.splits)

lemma reserved_simps:
  "hget t k = None \<Longrightarrow> reserved (hput k (sz, b) t) = unat sz + reserved t"
  "hget t k = Some (sz, b) \<Longrightarrow> reserved t = unat sz + reserved (hrem k t)"
  "hget t k = Some (sz, b) \<Longrightarrow> reserved (hput k (sz, b') t) = reserved t"
  by (simp_all add: reserved_def hsum_put_new hsum_rem hsum_put_same)

lemma drop_reservation_fields:
  "unat sz \<le> unat (file_bytes s) \<Longrightarrow>
     unat (file_bytes (drop_reservation sz s)) = unat (file_bytes s) - unat sz"
  "file_store (drop_reservation sz s) = file_store s"
  by (simp_all add: drop_reservation_def unat_sub word_le_nat_alt)

lemma file_inv_step:
  assumes inv: "file_inv f" and step: "file_step f f'"
  shows "file_inv f'"
  using step
proof (cases rule: file_step.cases)
  case (ft_Admit now q h name sz s' fid)
  note ok = admit_file_ok [OF ft_Admit(2)]
  show ?thesis
    using inv ok(4-6) ft_Admit(3,4) by (auto simp: ft_Admit(1) file_inv_def reserved_simps)
next
  case (ft_Reject now q h e s')
  then show ?thesis
    using inv admit_file_error [OF ft_Reject(2)] by (simp add: file_inv_def)
next
  case (ft_Abort fid sz)
  note r = reserved_simps(2) [OF ft_Abort(2)]
  show ?thesis
    using inv r ft_Abort(2)
    by (auto simp: ft_Abort(1) file_inv_def drop_reservation_fields)
      (cases "hget (file_store (fy_app f)) fid"; fastforce)
next
  case (ft_Store fid sz received data now q name cid r s')
  have "length data = unat sz"
    using ft_Store(3) by (auto simp: body_complete_def split: option.splits if_splits)
  moreover have "file_bytes s' = file_bytes (fy_app f)"
    and "hget (file_store s') k = (if k = fid
           then Some \<lparr>fb_data = data, fb_filename = name, fb_created_at_ms = now,
                      fb_device_id = uq_device_id q\<rparr> else hget (file_store (fy_app f)) k)" for k
    using ft_Store(4) by (auto simp: relay_file_start_def Let_def dest!: arg_cong [where f = snd]
        simp: forward_start_fields)
  ultimately show ?thesis
    using inv ft_Store(2)
    by (auto simp: ft_Store(1) file_inv_def reserved_simps(3) [OF ft_Store(2)])
next
  case (ft_End fid sz)
  note r = reserved_simps(2) [OF ft_End(2)]
  show ?thesis
    using inv r ft_End(2)
    by (auto simp: ft_End(1) file_inv_def relay_file_end_def drop_reservation_fields drop_held_def)
next
  case (ft_Collect now fid d ht r s')
  then have "file_bytes s' = file_bytes (fy_app f)"
    "\<And>k b. hget (file_store s') k = Some b \<Longrightarrow> hget (file_store (fy_app f)) k = Some b"
    by (auto simp: file_host_download_def Let_def split: if_splits option.splits)
  then show ?thesis using inv by (simp add: ft_Collect(1) file_inv_def)
next
  case (ft_Read now fid tok r s')
  then have "file_bytes s' = file_bytes (fy_app f)" "file_store s' = file_store (fy_app f)"
    by (auto simp: file_download_def validate_viewer_eq Let_def split: if_splits option.splits)
  then show ?thesis using inv by (simp add: ft_Read(1) file_inv_def)
next
  case (ft_Other s')
  then show ?thesis using inv by (auto simp: file_inv_def only_removes_files_def)
qed

lemma file_inv_reachable: "file_reachable f \<Longrightarrow> file_inv f"
proof (induction rule: file_reachable.induct)
  case (file_init path fs)
  show ?case by (simp add: file_inv_def app_state_new_def reserved_def)
next
  case (file_next f f')
  then show ?case by (blast intro: file_inv_step)
qed

definition stored_bytes :: "app_state \<Rightarrow> nat" where
  "stored_bytes s = hsum (\<lambda>b. length (fb_data b)) (file_store s)"

text \<open>
  C14: over every interleaving of uploads, aborts, downloads and sweeps, the counter is exactly the
  room reserved by the uploads in progress, so it never wraps; it never exceeds 150 MiB; and the
  files held in memory never take more than what is reserved.
\<close>

theorem file_budget:
  assumes "file_reachable f"
  shows "unat (file_bytes (fy_app f)) = reserved (fy_transfers f) \<and>
    stored_bytes (fy_app f) \<le> unat (file_bytes (fy_app f)) \<and>
    unat (file_bytes (fy_app f)) \<le> FILE_STORE_MAX_BYTES"
proof -
  have inv: "file_inv f" using assms by (rule file_inv_reachable)
  then have "stored_bytes (fy_app f) \<le> reserved (fy_transfers f)"
    unfolding stored_bytes_def reserved_def by (intro hsum_le) (fastforce simp: file_inv_def)
  with inv show ?thesis by (simp add: file_inv_def)
qed

text \<open>A relay with one viewer session, for the concrete instance.\<close>

definition file_demo_query :: file_upload_query where
  "file_demo_query =
     \<lparr>uq_device_id = ''123'', uq_token = ''vt'', uq_filename = ''a.txt'', uq_remote_path = ''''\<rparr>"

definition file_demo_state :: app_state where
  "file_demo_state = (app_state_new ''u'' hempty)
     \<lparr>viewer_sessions := hput ''vt'' \<lparr>vs_device_id = ''123'', vs_last_seen_ms = 1000\<rparr> hempty\<rparr>"

abbreviation file_demo_headers :: header_map where
  "file_demo_headers \<equiv> hput ''content-length'' ''5'' hempty"

lemma file_demo_admit:
  "admit_file 2000 file_demo_query file_demo_headers file_demo_state =
     (Inr (''a.txt'', 5), file_demo_state\<lparr>viewer_sessions :=
        viewers_touched 2000 ''123'' ''vt'' file_demo_state, file_bytes := 5\<rparr>)"
proof -
  have "safe_file_name ''a.txt'' = Some ''a.txt''" by code_simp
  moreover have "parse_usize ''5'' = Some 5"
    by (simp add: parse_usize_def is_ascii_digit_def)
  moreover have "header_to_str ''5'' = Some ''5''"
    by (simp add: header_to_str_def)
  moreover have "viewer_ok 2000 ''123'' ''vt'' file_demo_state"
    by (simp add: viewer_ok_def file_demo_state_def relay_constants)
  ultimately show ?thesis
    by (simp add: admit_file_def validate_viewer_eq file_demo_query_def header_str_def relay_constants
        try_reserve_def) (simp add: file_demo_state_def app_state_new_def)
qed

theorem file_budget_witness:
  "\<exists>f. file_reachable f \<and> file_bytes (fy_app f) = 5 \<and> reserved (fy_transfers f) = 5 \<and>
     stored_bytes (fy_app f) \<le> 5"
proof -
  let ?start = "\<lparr>fy_app = file_demo_state, fy_transfers = hempty\<rparr>"
  let ?init = "\<lparr>fy_app = app_state_new ''u'' hempty, fy_transfers = hempty\<rparr>"
  have "only_removes_files (fy_app ?init) file_demo_state"
    by (simp add: only_removes_files_def file_demo_state_def)
  from ft_Other [OF this] have "file_step ?init ?start" by simp
  then have "file_reachable ?start" by (rule file_next [OF file_init])
  moreover
  let ?s = "file_demo_state\<lparr>viewer_sessions :=
        viewers_touched 2000 ''123'' ''vt'' file_demo_state, file_bytes := 5\<rparr>"
  let ?f = "\<lparr>fy_app = ?s, fy_transfers = hput ''id'' (5, False) hempty\<rparr>"
  have "hget (file_store file_demo_state) ''id'' = None"
    by (simp add: file_demo_state_def app_state_new_def)
  with ft_Admit [of 2000 file_demo_query file_demo_headers ?start "''a.txt''" 5 ?s "''id''"]
  have "file_step ?start ?f"
    by (simp add: file_demo_admit)
  ultimately have r: "file_reachable ?f" by (rule file_next)
  have f: "file_bytes (fy_app ?f) = 5" by simp
  from file_budget [OF r] f
  have "reserved (fy_transfers ?f) = 5 \<and> stored_bytes (fy_app ?f) \<le> 5" by simp
  with r f show ?thesis by blast
qed

text \<open>
  An upload is admitted exactly when the session is live for the device, the name is usable, a
  length of at most 50 MiB is declared and that much room is left below 150 MiB; it then holds
  exactly that room.  Every refusal leaves the counter alone.
\<close>

lemma admit_file_spec:
  fixes q
  defines "declared \<equiv> \<lambda>h. Option.bind (header_str h ''content-length'') parse_usize"
  shows "case admit_file now q h s of
      (Inr (name, sz), s') \<Rightarrow>
         viewer_ok now (uq_device_id q) (uq_token q) s \<and> safe_file_name (uq_filename q) = Some name \<and>
         declared h = Some (unat sz) \<and> unat sz \<le> FILE_MAX_BYTES \<and>
         unat (file_bytes s') = unat (file_bytes s) + unat sz \<and>
         unat (file_bytes s') \<le> FILE_STORE_MAX_BYTES
    | (Inl (status, _), s') \<Rightarrow>
         file_bytes s' = file_bytes s \<and>
         status = (if \<not> viewer_ok now (uq_device_id q) (uq_token q) s then 401
                   else if safe_file_name (uq_filename q) = None then 400
                   else if declared h = None then 411
                   else if FILE_MAX_BYTES < the (declared h) then 413 else 507) \<and>
         (status = 507 \<longrightarrow>
            FILE_STORE_MAX_BYTES < unat (file_bytes s) + the (declared h))"
proof (cases "admit_file now q h s")
  case (Pair r s')
  show ?thesis
  proof (cases r)
    case (Inr ok)
    obtain name sz where r: "ok = (name, sz)" by fastforce
    note a = admit_file_ok [OF Pair [unfolded Inr r]]
    obtain n where n: "declared h = Some n" "n \<le> FILE_MAX_BYTES" "sz = of_nat n"
      using a(3) by (auto simp: declared_def)
    then have "unat sz = n"
      by (simp add: FILE_MAX_BYTES_def unat_of_nat)
    with n a show ?thesis by (simp add: Pair Inr r)
  next
    case (Inl e)
    have small: "n \<le> FILE_MAX_BYTES \<Longrightarrow> unat (of_nat n :: u64) = n" for n
      by (simp add: FILE_MAX_BYTES_def unat_of_nat)
    have full: "FILE_STORE_MAX_BYTES < unat (file_bytes s) + n"
      if "\<not> (unat (file_bytes s) + unat (of_nat n :: u64) < 2 ^ 64 \<and>
             unat (file_bytes s + of_nat n) \<le> FILE_STORE_MAX_BYTES)" "n \<le> FILE_MAX_BYTES" for n
      using that small [OF that(2)]
      by (auto simp: FILE_STORE_MAX_BYTES_def unat_word_ariths split: if_splits)
    show ?thesis
      using Pair admit_file_error(1) [OF Pair [unfolded Inl]] full small
      by (auto simp: Inl admit_file_def validate_viewer_eq Let_def try_reserve_def declared_def
          split: option.splits if_splits)
  qed
qed

text \<open>
  C15: only the host a file was sent to can collect it, and only once: a collection needs the host's
  valid token and its own file, and afterwards nobody, host or viewer, gets the file again.
\<close>

theorem file_collected_once:
  assumes "file_host_download now fid d ht s = (Ok_with data, s')"
  shows "validate_host now d ht s \<and>
    (\<exists>blob. hget (file_store s) fid = Some blob \<and> fb_device_id blob = d \<and> fb_data blob = data) \<and>
    fst (file_download t fid tok s') = Status 404 \<and>
    fst (file_host_download t fid d' ht' s') \<in> {Status 401, Status 404}"
  using assms
  by (auto simp: file_host_download_def file_download_def Let_def split: if_splits option.splits)

lemma admit_file_spec_witness:
  "viewer_ok 2000 ''123'' ''vt'' file_demo_state \<and> unat (5 :: u64) \<le> FILE_MAX_BYTES"
  using admit_file_spec [where now = 2000 and q = file_demo_query and h = file_demo_headers
      and s = file_demo_state]
  by (simp add: file_demo_admit) (simp add: file_demo_query_def)

theorem file_collected_once_witness:
  "\<exists>s s'. file_host_download 2000 ''f'' ''123'' ''ht'' s = (Ok_with [7], s') \<and>
     fst (file_download 2001 ''f'' ''vt'' s') = Status 404"
proof -
  define s where "s = (app_state_new ''u'' hempty)
    \<lparr>previews := hput ''123''
       \<lparr>pr_device_id = ''123'', pr_user_id = None, pr_platform = ''macos'', pr_hostname = ''mac'',
        pr_password_hash = ''h'', pr_auto_accept = False, pr_trusted_viewers = [],
        pr_host_token = ''ht'', pr_on_demand_capture = True, pr_updated_at_ms = 1000\<rparr> hempty,
     file_store := hput ''f'' \<lparr>fb_data = [7], fb_filename = ''a'', fb_created_at_ms = 1000,
       fb_device_id = ''123''\<rparr> hempty\<rparr>"
  have "fst (file_host_download 2000 ''f'' ''123'' ''ht'' s) = Ok_with [7]"
    by (simp add: file_host_download_def validate_host_iff s_def relay_constants)
  then obtain s' where s': "file_host_download 2000 ''f'' ''123'' ''ht'' s = (Ok_with [7], s')"
    by (metis prod.collapse)
  with file_collected_once [OF s', of 2001 "''vt''"] show ?thesis by blast
qed

end
