(* ===== verification/Preview_Props.thy ===== *)
theory Preview_Props
  imports Previews
begin

text \<open>
  Who may register a host and who gets a viewer session.
\<close>

section \<open>Registration\<close>


text \<open>What a request must show to get in at once.\<close>

definition shows_right :: "ms \<Rightarrow> resolve_preview_request \<Rightarrow> preview_registration \<Rightarrow> app_state \<Rightarrow> bool" where
  "shows_right now req reg s \<longleftrightarrow> password_ok req reg \<or> trusted_ok req reg \<or>
     (\<exists>uid. uid \<noteq> [] \<and> pr_user_id reg = Some uid \<and> auth_token_ok now (rr_auth_token req) s = Some uid)"

lemma removed_viewers:
  "hget (viewer_sessions (remove_preview_state d s)) t = Some v \<Longrightarrow> hget (viewer_sessions s) t = Some v"
  by (auto simp: remove_preview_state_def disconnect_viewers_for_device_def put_demand_def Let_def
      split: option.splits if_splits)

lemma resolve_stale:
  "hget (previews s) d = Some reg \<Longrightarrow> PREVIEW_TTL_MS < now - pr_updated_at_ms reg \<Longrightarrow>
   resolve_preview now d headers vt cid req s = (Resolved unresolved_response, remove_preview_state d s)"
  by (simp add: resolve_preview_def is_fresh_def)

lemma same_account_spec:
  obtains s1 where
    "same_account now req reg s = ((\<exists>uid. uid \<noteq> [] \<and> pr_user_id reg = Some uid \<and>
        auth_token_ok now (rr_auth_token req) s = Some uid), s1)"
    "viewer_sessions s1 = viewer_sessions s"
  by (cases "pr_user_id reg"; cases "the (pr_user_id reg) = []") (auto simp: same_account_def check_eqs)

lemma resolve_granted:
  assumes "hget (previews s) d = Some reg" "now - pr_updated_at_ms reg \<le> PREVIEW_TTL_MS" "shows_right now req reg s"
    and "resolve_preview now d headers vt cid req s = (r, s')"
  shows "\<exists>resp. r = Resolved resp \<and> rs_authorized resp"
    and "viewer_sessions s' = hput vt \<lparr>vs_device_id = d, vs_last_seen_ms = now\<rparr> (viewer_sessions s)"
proof -
  obtain s1 where s1: "same_account now req reg s = ((\<exists>uid. uid \<noteq> [] \<and> pr_user_id reg = Some uid \<and>
        auth_token_ok now (rr_auth_token req) s = Some uid), s1)" "viewer_sessions s1 = viewer_sessions s"
    by (rule same_account_spec)
  have "(r, s') = (Resolved (fst (grant_viewer now headers d vt reg s1)), snd (grant_viewer now headers d vt reg s1))"
    using assms by (simp add: resolve_preview_def is_fresh_def s1(1) Let_def shows_right_def split: prod.splits)
  then show "\<exists>resp. r = Resolved resp \<and> rs_authorized resp"
    "viewer_sessions s' = hput vt \<lparr>vs_device_id = d, vs_last_seen_ms = now\<rparr> (viewer_sessions s)"
    using s1(2) by (simp_all add: grant_viewer_def)
qed

lemma resolve_not_granted:
  assumes "hget (previews s) d = Some reg" "now - pr_updated_at_ms reg \<le> PREVIEW_TTL_MS" "\<not> shows_right now req reg s"
    and "resolve_preview now d headers vt cid req s = (r, s')"
  shows "r = Resolved resp \<Longrightarrow> \<not> rs_authorized resp" "viewer_sessions s' = viewer_sessions s"
proof -
  obtain s1 where s1: "same_account now req reg s = ((\<exists>uid. uid \<noteq> [] \<and> pr_user_id reg = Some uid \<and>
        auth_token_ok now (rr_auth_token req) s = Some uid), s1)" "viewer_sessions s1 = viewer_sessions s"
    by (rule same_account_spec)
  have no: "\<not> password_ok req reg" "\<not> trusted_ok req reg" and
    sa: "same_account now req reg s = (False, s1)"
    using assms(3) s1(1) by (auto simp: shows_right_def)
  have "(r = Resolved unauthorized_response \<or> (\<exists>ht. r = Waiting ht reg)) \<and> viewer_sessions s' = viewer_sessions s"
    using assms(1,2,4) no sa s1(2)
    by (auto simp: resolve_preview_def is_fresh_def Let_def queue_command_def
        split: option.splits if_splits bool.splits prod.splits)
  then show "r = Resolved resp \<Longrightarrow> \<not> rs_authorized resp" "viewer_sessions s' = viewer_sessions s"
    by (auto simp: unauthorized_response_def unresolved_response_def)
qed

text \<open>
  C1: how a viewer gets in.  Resolving a device issues a viewer session only if its registration is
  fresh and the request has the non-empty device password, names a trusted device under auto-accept,
  or belongs to the account of the host; the session is then bound to that device.  In every other
  case no session is issued.
\<close>

theorem resolve_preview_authorised:
  "case resolve_preview now d headers vt cid req s of (r, s') \<Rightarrow>
     (let granted = (\<exists>resp. r = Resolved resp \<and> rs_authorized resp);
          fresh = (\<exists>reg. hget (previews s) d = Some reg \<and> now - pr_updated_at_ms reg \<le> PREVIEW_TTL_MS \<and>
            (password_ok req reg \<or> trusted_ok req reg \<or>
             (\<exists>uid. uid \<noteq> [] \<and> pr_user_id reg = Some uid \<and>
                auth_token_ok now (rr_auth_token req) s = Some uid)))
      in granted = fresh \<and>
         (\<forall>t v. hget (viewer_sessions s') t = Some v \<longrightarrow>
            hget (viewer_sessions s) t = Some v \<or>
            granted \<and> t = vt \<and> v = \<lparr>vs_device_id = d, vs_last_seen_ms = now\<rparr>))"
proof -
  obtain r s' where r: "resolve_preview now d headers vt cid req s = (r, s')" by fastforce
  show ?thesis
  proof (cases "hget (previews s) d")
    case None
    with r have "r = Resolved unresolved_response" "s' = s" by (simp_all add: resolve_preview_def)
    with None show ?thesis using r by (simp add: unresolved_response_def)
  next
    case (Some reg)
    consider (stale) "PREVIEW_TTL_MS < now - pr_updated_at_ms reg"
      | (yes) "now - pr_updated_at_ms reg \<le> PREVIEW_TTL_MS" "shows_right now req reg s"
      | (no) "now - pr_updated_at_ms reg \<le> PREVIEW_TTL_MS" "\<not> shows_right now req reg s"
      by fastforce
    then show ?thesis
    proof cases
      case stale
      show ?thesis
        unfolding resolve_stale [OF Some stale]
        using Some stale by (auto simp: unresolved_response_def dest: removed_viewers)
    next
      case yes
      obtain resp where g: "r = Resolved resp" "rs_authorized resp" using resolve_granted(1) [OF Some yes r] by blast
      show ?thesis
        using Some yes g by (simp add: r resolve_granted(2) [OF Some yes r] shows_right_def)
    next
      case no
      note g = resolve_not_granted [OF Some no r]
      show ?thesis
        using Some no(1) no(2) [unfolded shows_right_def] g(1) by (auto simp add: r g(2))
    qed
  qed
qed

text \<open>How a request that waited for the host ends.\<close>

lemma resolve_finish_spec:
  fixes s now d cid ht
  defines "accepted \<equiv> (\<exists>r. hget (oneshots s) cid = Some r \<and> cr_ok r) \<and> validate_host now d ht s"
  assumes "resolve_preview_finish now d headers vt cid ht reg timed_out s = (resp, s')"
  shows "(\<exists>r. resp = Some r \<and> rs_authorized r) = accepted"
    and "viewer_sessions s' =
      (if accepted then hput vt \<lparr>vs_device_id = d, vs_last_seen_ms = now\<rparr> (viewer_sessions s)
       else viewer_sessions s)"
proof -
  have vh: "validate_host now d ht (s\<lparr>oneshots := a\<rparr>) = validate_host now d ht s"
    "validate_host now d ht (s\<lparr>command_waiters := w\<rparr>) = validate_host now d ht s" for a w
    by (simp_all add: validate_host_def)
  have "case resolve_preview_finish now d headers vt cid ht reg timed_out s of (resp, s') \<Rightarrow>
      (\<exists>r. resp = Some r \<and> rs_authorized r) = accepted \<and> viewer_sessions s' =
      (if accepted then hput vt \<lparr>vs_device_id = d, vs_last_seen_ms = now\<rparr> (viewer_sessions s)
       else viewer_sessions s)"
  proof (cases "hget (oneshots s) cid")
    case None
    then show ?thesis
      by (auto simp: accepted_def resolve_preview_finish_def forward_finish_def grant_viewer_def
          unauthorized_response_def unresolved_response_def Let_def)
  next
    case (Some r)
    then show ?thesis
      by (auto simp: accepted_def resolve_preview_finish_def forward_finish_def grant_viewer_def vh
          unauthorized_response_def unresolved_response_def Let_def)
  qed
  with assms(2) show "(\<exists>r. resp = Some r \<and> rs_authorized r) = accepted"
    "viewer_sessions s' =
      (if accepted then hput vt \<lparr>vs_device_id = d, vs_last_seen_ms = now\<rparr> (viewer_sessions s)
       else viewer_sessions s)" by auto
qed

section \<open>Concrete instances\<close>

definition preview_demo_entry :: preview_registration where
  "preview_demo_entry =
     \<lparr>pr_device_id = ''123'', pr_user_id = Some ''u1'', pr_platform = ''macos'', pr_hostname = ''mac'',
      pr_password_hash = ''h'', pr_auto_accept = False, pr_trusted_viewers = [],
      pr_host_token = ''ht'', pr_on_demand_capture = True, pr_updated_at_ms = 1000\<rparr>"

definition preview_demo :: app_state where
  "preview_demo = (app_state_new ''u'' hempty)\<lparr>previews := hput ''123'' preview_demo_entry hempty\<rparr>"


theorem resolve_preview_authorised_witness:
  "\<exists>resp s'. resolve_preview 2000 ''123'' hempty ''vt'' ''c''
     \<lparr>rr_password_hash = Some ''h'', rr_requester_id = None, rr_auth_token = None,
      rr_requester_hostname = None, rr_requester_peer_os = None\<rparr> preview_demo = (Resolved resp, s') \<and>
     rs_authorized resp"
proof -
  let ?req = "\<lparr>rr_password_hash = Some ''h'', rr_requester_id = None, rr_auth_token = None,
      rr_requester_hostname = None, rr_requester_peer_os = None\<rparr>"
  have "hget (previews preview_demo) ''123'' = Some preview_demo_entry"
    "2000 - pr_updated_at_ms preview_demo_entry \<le> PREVIEW_TTL_MS" "password_ok ?req preview_demo_entry"
    by (simp_all add: preview_demo_def preview_demo_entry_def PREVIEW_TTL_MS_def password_ok_def)
  then show ?thesis
    using resolve_preview_authorised [where now = 2000 and d = "''123''" and headers = hempty and vt = "''vt''"
        and cid = "''c''" and req = ?req and s = preview_demo]
    by (auto simp: Let_def split: prod.splits)
qed

end
