(* ===== verification/Wake_Routes.thy ===== *)
theory Wake_Routes
  imports Wake_Store
begin

text \<open>
  Remote wake: the endpoints of \<open>wake/routes.rs\<close>.  A target is a computer to wake, an agent a helper in
  the same home; a request travels from the account owner through an agent's long poll, a one-time
  authorization to send and a result.  Each endpoint checks its caller and applies one mutation to the
  account's data under the store lock; the mutations are pure functions, named \<open>m_\<dots>\<close>.

  \<open>digest\<close> is the hex SHA-256 of the \<open>sha2\<close> crate.  A handler that suspends only inside \<open>update_wake\<close>
  reads one clock value.
\<close>

section \<open>Callers\<close>

definition account :: "ms \<Rightarrow> header_map \<Rightarrow> app_state \<Rightarrow> user_record wake_result \<times> app_state" where
  "account now h s =
     (case authenticated_user now h s of
        (None, s1) \<Rightarrow> (Inl ''unauthorized'', s1)
      | (Some u, s1) \<Rightarrow> (Inr u, s1))"

text \<open>\<open>credential()\<close>: two fresh tokens side by side, and the digest that is stored.\<close>

definition credential :: "(string \<Rightarrow> string) \<Rightarrow> string \<Rightarrow> string \<Rightarrow> string \<times> string" where
  "credential digest t1 t2 = (t1 @ t2, digest (t1 @ t2))"

definition wake_bearer :: "header_map \<Rightarrow> string wake_result" where
  "wake_bearer h = (case bearer_of h of None \<Rightarrow> Inl ''unauthorized'' | Some t \<Rightarrow> Inr t)"

fun find_map :: "('a \<Rightarrow> 'b option) \<Rightarrow> 'a list \<Rightarrow> 'b option" where
  "find_map f [] = None"
| "find_map f (x # xs) = (case f x of None \<Rightarrow> find_map f xs | Some y \<Rightarrow> Some y)"

definition holds_credential :: "string \<Rightarrow> string \<Rightarrow> bool \<Rightarrow> user_record \<Rightarrow> bool" where
  "holds_credential hash i agent u \<longleftrightarrow>
     (if agent then \<exists>a \<in> set (wd_agents (ur_wake u)). wa_id a = i \<and> wa_enabled a \<and> wa_token_hash a = hash
      else \<exists>t \<in> set (wd_targets (ur_wake u)). wt_id t = i \<and> wt_token_hash t = hash)"

definition device_owner ::
  "(string \<Rightarrow> string) \<Rightarrow> header_map \<Rightarrow> string \<Rightarrow> bool \<Rightarrow> app_state \<Rightarrow> string wake_result" where
  "device_owner digest h i agent s =
     (case wake_bearer h of
        Inl e \<Rightarrow> Inl e
      | Inr token \<Rightarrow>
          if length token \<noteq> 64 then Inl ''unauthorized''
          else
            (case find_map (\<lambda>u. if holds_credential (digest token) i agent u
                                then Some (ur_user_id u) else None) (hvalues (users s)) of
               None \<Rightarrow> Inl ''unauthorized''
             | Some owner \<Rightarrow> Inr owner))"

definition wake_name :: "string \<Rightarrow> string wake_result" where
  "wake_name raw =
     (let s = trim raw in
      if s = [] \<or> 80 < length (chars s) then Inl ''invalid_name'' else Inr s)"

definition wake_fresh :: "ms \<Rightarrow> ms option \<Rightarrow> bool" where
  "wake_fresh now seen \<longleftrightarrow> (case seen of None \<Rightarrow> False | Some t \<Rightarrow> now - t < 30000)"

definition agent_seen :: "app_state \<Rightarrow> string \<Rightarrow> ms option" where
  "agent_seen s i = hget (wk_agents (wake_rt s)) i"

definition target_seen :: "app_state \<Rightarrow> string \<Rightarrow> ms option" where
  "target_seen s i = hget (wk_targets (wake_rt s)) i"

definition map_agents :: "((string, ms) hmap \<Rightarrow> (string, ms) hmap) \<Rightarrow> app_state \<Rightarrow> app_state" where
  "map_agents f s = s\<lparr>wake_rt := (wake_rt s)\<lparr>wk_agents := f (wk_agents (wake_rt s))\<rparr>\<rparr>"

definition map_targets :: "((string, ms) hmap \<Rightarrow> (string, ms) hmap) \<Rightarrow> app_state \<Rightarrow> app_state" where
  "map_targets f s = s\<lparr>wake_rt := (wake_rt s)\<lparr>wk_targets := f (wk_targets (wake_rt s))\<rparr>\<rparr>"

section \<open>The mutations\<close>

text \<open>\<open>iter_mut().find(P)\<close> followed by an assignment through the reference.\<close>

fun update_first :: "('a \<Rightarrow> bool) \<Rightarrow> ('a \<Rightarrow> 'a) \<Rightarrow> 'a list \<Rightarrow> 'a list" where
  "update_first P f [] = []"
| "update_first P f (x # xs) = (if P x then f x # xs else x # update_first P f xs)"

type_synonym 'a mutation = "wake_account_data \<Rightarrow> wake_error + 'a \<times> wake_account_data"

definition m_advance :: "ms \<Rightarrow> (string \<Rightarrow> ms option) \<Rightarrow> unit mutation" where
  "m_advance now beats d =
     Inr ((), d\<lparr>wd_requests := map (\<lambda>r. request_advance now (beats (wr_target_id r)) r) (wd_requests d)\<rparr>)"

definition m_create_agent :: "string \<Rightarrow> string \<Rightarrow> string \<Rightarrow> unit mutation" where
  "m_create_agent i name hash d =
     (if 5 \<le> length (wd_agents d) then Inl ''rate_limited''
      else Inr ((), d\<lparr>wd_agents := wd_agents d @
             [\<lparr>wa_id = i, wa_name = name, wa_token_hash = hash, wa_enabled = True\<rparr>]\<rparr>))"

record target_input =
  ti_name :: string
  ti_device_id :: string
  ti_mac :: string
  ti_agent_id :: string

definition agent_enabled :: "string \<Rightarrow> wake_account_data \<Rightarrow> bool" where
  "agent_enabled i d \<longleftrightarrow> (\<exists>a \<in> set (wd_agents d). wa_id a = i \<and> wa_enabled a)"

definition m_create_target ::
  "ms \<Rightarrow> string \<Rightarrow> string \<Rightarrow> string \<Rightarrow> string \<Rightarrow> target_input \<Rightarrow> unit mutation" where
  "m_create_target now i name mac hash b d =
     (if 20 \<le> length (wd_targets d) then Inl ''rate_limited''
      else if \<not> agent_enabled (ti_agent_id b) d then Inl ''not_found''
      else if \<exists>t \<in> set (wd_targets d). wt_device_id t = ti_device_id b then Inl ''conflict''
      else Inr ((), d\<lparr>wd_targets := wd_targets d @
             [\<lparr>wt_setup_complete = True, wt_id = i, wt_name = name, wt_device_id = ti_device_id b,
               wt_mac = mac, wt_agent_id = ti_agent_id b, wt_revision = 1, wt_token_hash = hash,
               wt_created_at_ms = now\<rparr>]\<rparr>))"

definition m_update_target :: "string \<Rightarrow> string \<Rightarrow> string \<Rightarrow> target_input \<Rightarrow> unit mutation" where
  "m_update_target i name mac b d =
     (if \<not> agent_enabled (ti_agent_id b) d then Inl ''not_found''
      else if \<not> (\<exists>t \<in> set (wd_targets d). wt_id t = i) then Inl ''not_found''
      else Inr ((), cancel_target i
             (d\<lparr>wd_targets := update_first (\<lambda>t. wt_id t = i)
                  (\<lambda>t. t\<lparr>wt_name := name, wt_mac := mac, wt_agent_id := ti_agent_id b,
                         wt_revision := wt_revision t + 1\<rparr>) (wd_targets d)\<rparr>)))"

definition m_delete_target :: "string \<Rightarrow> unit mutation" where
  "m_delete_target i d =
     (if \<not> (\<exists>t \<in> set (wd_targets d). wt_id t = i) then Inl ''not_found''
      else Inr ((), d\<lparr>wd_targets := filter (\<lambda>t. wt_id t \<noteq> i) (wd_targets d),
                      wd_requests := filter (\<lambda>r. wr_target_id r \<noteq> i) (wd_requests d)\<rparr>))"

definition m_rotate_target :: "string \<Rightarrow> string \<Rightarrow> unit mutation" where
  "m_rotate_target i hash d =
     (if \<not> (\<exists>t \<in> set (wd_targets d). wt_id t = i) then Inl ''not_found''
      else Inr ((), d\<lparr>wd_targets := update_first (\<lambda>t. wt_id t = i)
                        (\<lambda>t. t\<lparr>wt_token_hash := hash\<rparr>) (wd_targets d)\<rparr>))"

definition cancel_agent :: "string \<Rightarrow> wake_account_data \<Rightarrow> wake_account_data" where
  "cancel_agent i d = d\<lparr>wd_requests := cancel_where (\<lambda>r. wr_agent_id r = i) (wd_requests d)\<rparr>"

definition m_revoke :: "string \<Rightarrow> unit mutation" where
  "m_revoke i d =
     (if \<not> (\<exists>a \<in> set (wd_agents d). wa_id a = i) then Inl ''not_found''
      else Inr ((), cancel_agent i (d\<lparr>wd_agents := filter (\<lambda>a. wa_id a \<noteq> i) (wd_agents d)\<rparr>)))"

definition m_stop_helper :: "string \<Rightarrow> string option \<Rightarrow> unit mutation" where
  "m_stop_helper i expected_hash d =
     (case List.find (\<lambda>a. wa_id a = i) (wd_agents d) of
        None \<Rightarrow> Inl ''not_found''
      | Some agent \<Rightarrow>
          if (case expected_hash of
                None \<Rightarrow> False
              | Some hash \<Rightarrow> hash \<noteq> wa_token_hash agent \<or> \<not> wa_enabled agent)
          then Inl ''unauthorized''
          else Inr ((), cancel_agent i (d\<lparr>wd_agents := update_first (\<lambda>a. wa_id a = i)
                 (\<lambda>a. a\<lparr>wa_enabled := False, wa_token_hash := []\<rparr>) (wd_agents d)\<rparr>)))"

definition m_enable_agent :: "string \<Rightarrow> string \<Rightarrow> string \<Rightarrow> unit mutation" where
  "m_enable_agent i name hash d =
     (if \<not> (\<exists>a \<in> set (wd_agents d). wa_id a = i) then Inl ''not_found''
      else Inr ((), cancel_agent i (d\<lparr>wd_agents := update_first (\<lambda>a. wa_id a = i)
             (\<lambda>a. a\<lparr>wa_name := name, wa_enabled := True, wa_token_hash := hash\<rparr>) (wd_agents d)\<rparr>)))"

definition new_request :: "ms \<Rightarrow> string \<Rightarrow> wake_target \<Rightarrow> wake_request" where
  "new_request now i t =
     \<lparr>wr_id = i, wr_target_id = wt_id t, wr_agent_id = wt_agent_id t,
      wr_target_revision = wt_revision t, wr_created_at_ms = now, wr_expires_at_ms = now + 30000,
      wr_observe_until_ms = now + 120000, wr_phase = Queued, wr_claimed_at_ms = None,
      wr_authorized_at_ms = None, wr_sent_at_ms = None, wr_online_at_ms = None,
      wr_error_code = None\<rparr>"

definition m_create_request ::
  "ms \<Rightarrow> (string \<Rightarrow> ms option) \<Rightarrow> (string \<Rightarrow> ms option) \<Rightarrow> string \<Rightarrow> string \<Rightarrow> wake_request mutation" where
  "m_create_request now t_seen a_seen target_id i d =
     (case List.find (\<lambda>t. wt_id t = target_id) (wd_targets d) of
        None \<Rightarrow> Inl ''not_found''
      | Some t \<Rightarrow>
          if \<not> wt_setup_complete t then Inl ''setup_incomplete''
          else
            (case List.find (\<lambda>r. wr_target_id r = wt_id t \<and> phase_active (wr_phase r)) (wd_requests d) of
               Some r \<Rightarrow> Inr (r, d)
             | None \<Rightarrow>
                 if wake_fresh now (t_seen (wt_id t)) then Inl ''target_online''
                 else if \<not> agent_enabled (wt_agent_id t) d \<or> \<not> wake_fresh now (a_seen (wt_agent_id t))
                 then Inl ''agent_offline''
                 else if 10 \<le> length (filter (\<lambda>r. now - wr_created_at_ms r < 60000) (wd_requests d)) \<or>
                         (\<exists>r \<in> set (wd_requests d). wr_target_id r = wt_id t \<and>
                            now - wr_created_at_ms r < 30000)
                 then Inl ''rate_limited''
                 else let r = new_request now i t
                      in Inr (r, d\<lparr>wd_requests := wd_requests d @ [r]\<rparr>)))"

text \<open>A request the agent may take: not yet authorized, not expired.\<close>

definition pollable :: "ms \<Rightarrow> string \<Rightarrow> wake_request \<Rightarrow> bool" where
  "pollable now i r \<longleftrightarrow>
     wr_agent_id r = i \<and> (wr_phase r = Queued \<or> wr_phase r = Claimed) \<and>
     wr_authorized_at_ms r = None \<and> now < wr_expires_at_ms r"

record wake_job =
  wj_id :: string
  wj_target_id :: string
  wj_mac :: string
  wj_revision :: nat
  wj_setup_complete :: bool
  wj_remaining_ms :: ms

definition m_claim :: "ms \<Rightarrow> string \<Rightarrow> wake_job mutation" where
  "m_claim now i d =
     (if \<not> agent_enabled i d then Inl ''unauthorized''
      else
        (case List.find (pollable now i) (wd_requests d) of
           None \<Rightarrow> Inl ''conflict''
         | Some r \<Rightarrow>
             (case List.find (\<lambda>t. wt_id t = wr_target_id r \<and> wt_agent_id t = i \<and>
                     wt_revision t = wr_target_revision r) (wd_targets d) of
                None \<Rightarrow> Inl ''conflict''
              | Some t \<Rightarrow>
                  Inr (\<lparr>wj_id = wr_id r, wj_target_id = wr_target_id r, wj_mac = wt_mac t,
                        wj_revision = wt_revision t, wj_setup_complete = wt_setup_complete t,
                        wj_remaining_ms = wr_expires_at_ms r - now\<rparr>,
                       d\<lparr>wd_requests := update_first (pollable now i)
                          (\<lambda>r. r\<lparr>wr_phase := Claimed,
                                 wr_claimed_at_ms := (case wr_claimed_at_ms r of
                                    None \<Rightarrow> Some now | Some c \<Rightarrow> Some c)\<rparr>) (wd_requests d)\<rparr>))))"

definition m_authorize :: "ms \<Rightarrow> string \<Rightarrow> string \<Rightarrow> ms mutation" where
  "m_authorize now aid i d =
     (if \<not> agent_enabled aid d then Inl ''unauthorized''
      else
        (case List.find (\<lambda>r. wr_id r = i) (wd_requests d) of
           None \<Rightarrow> Inl ''not_found''
         | Some r \<Rightarrow>
             if wr_expires_at_ms r \<le> now then Inl ''expired''
             else if wr_phase r \<noteq> Claimed \<or> wr_authorized_at_ms r \<noteq> None then Inl ''conflict''
             else if \<not> (\<exists>t \<in> set (wd_targets d). wt_id t = wr_target_id r \<and> wt_agent_id t = aid \<and>
                          wt_revision t = wr_target_revision r) then Inl ''conflict''
             else Inr (min (wr_expires_at_ms r - now) 2000,
                       d\<lparr>wd_requests := update_first (\<lambda>r. wr_id r = i)
                          (\<lambda>r. r\<lparr>wr_authorized_at_ms := Some now\<rparr>) (wd_requests d)\<rparr>)))"

definition settle_result ::
  "ms \<Rightarrow> (string \<Rightarrow> ms option) \<Rightarrow> string \<Rightarrow> string option \<Rightarrow> wake_request \<Rightarrow> wake_request" where
  "settle_result now t_seen phase error_code r =
     (if phase = ''sent''
      then request_advance now (t_seen (wr_target_id r))
             (r\<lparr>wr_phase := Sent, wr_sent_at_ms := Some now\<rparr>)
      else r\<lparr>wr_phase := Failed, wr_error_code := error_code\<rparr>)"

definition m_result ::
  "ms \<Rightarrow> (string \<Rightarrow> ms option) \<Rightarrow> string \<Rightarrow> string \<Rightarrow> string \<Rightarrow> string option \<Rightarrow> wake_request mutation" where
  "m_result now t_seen aid i phase error_code d =
     (if \<not> agent_enabled aid d then Inl ''unauthorized''
      else
        (case List.find (\<lambda>r. wr_id r = i) (wd_requests d) of
           None \<Rightarrow> Inl ''not_found''
         | Some r \<Rightarrow>
             if wr_phase r \<in> {Sent, Online, Unconfirmed, Failed} then Inr (r, d)
             else if wr_phase r \<noteq> Claimed then Inl ''conflict''
             else if wr_authorized_at_ms r = None \<and> phase = ''sent'' then Inl ''conflict''
             else if wr_expires_at_ms r \<le> now then Inl ''expired''
             else let r' = settle_result now t_seen phase error_code r
                  in Inr (r', d\<lparr>wd_requests := update_first (\<lambda>r. wr_id r = i) (\<lambda>_. r') (wd_requests d)\<rparr>)))"

section \<open>The endpoints\<close>

text \<open>What the store needs at each call: the clock, where the write fails, the temporary name.\<close>

record store_call =
  sc_now :: ms
  sc_fault :: write_fault
  sc_tmp :: string

definition store_update ::
  "store_call \<Rightarrow> string \<Rightarrow> 'a mutation \<Rightarrow> app_state \<Rightarrow> 'a wake_result \<times> app_state" where
  "store_update c owner mutation s =
     update_wake (sc_now c) (sc_fault c) (sc_tmp c) owner mutation s"

text \<open>Run on the caller's account, or answer with the error of the credential check.\<close>

definition with_account ::
  "ms \<Rightarrow> header_map \<Rightarrow> (user_record \<Rightarrow> app_state \<Rightarrow> 'a wake_result \<times> app_state) \<Rightarrow> app_state \<Rightarrow>
     'a wake_result \<times> app_state" where
  "with_account now h f s =
     (case account now h s of
        (Inl e, s1) \<Rightarrow> (Inl e, s1)
      | (Inr u, s1) \<Rightarrow> f u s1)"

text \<open>
  \<open>advance\<close>: bring the phases up to date; it writes only when something changes.
\<close>

definition advance :: "store_call \<Rightarrow> string \<Rightarrow> app_state \<Rightarrow> unit wake_result \<times> app_state" where
  "advance c owner s =
     (let now = sc_now c;
          beats = target_seen s
      in case hget (users s) owner of
           None \<Rightarrow> (Inl ''not_found'', s)
         | Some user \<Rightarrow>
             let rs = wd_requests (ur_wake user);
                 changed = (\<exists>r \<in> set rs. wr_phase (request_advance now (beats (wr_target_id r)) r) \<noteq> wr_phase r)
                           \<or> (\<exists>r \<in> set rs. 604800000 \<le> now - wr_created_at_ms r)
             in if changed then store_update c owner (m_advance now beats) s else (Inr (), s))"

record target_view =
  tv_target :: wake_target
  tv_online :: bool
  tv_last_seen_ms :: "ms option"
  tv_agent_online :: bool

definition targets ::
  "store_call \<Rightarrow> header_map \<Rightarrow> app_state \<Rightarrow> target_view list wake_result \<times> app_state" where
  "targets c h = with_account (sc_now c) h (\<lambda>u s.
     case advance c (ur_user_id u) s of
       (Inl e, s1) \<Rightarrow> (Inl e, s1)
     | (Inr _, s1) \<Rightarrow>
         (case hget (users s1) (ur_user_id u) of
            None \<Rightarrow> (Inl ''not_found'', s1)
          | Some u \<Rightarrow>
              (Inr (map (\<lambda>t. \<lparr>tv_target = t, tv_online = wake_fresh (sc_now c) (target_seen s1 (wt_id t)),
                             tv_last_seen_ms = target_seen s1 (wt_id t),
                             tv_agent_online = agent_enabled (wt_agent_id t) (ur_wake u) \<and>
                               wake_fresh (sc_now c) (agent_seen s1 (wt_agent_id t))\<rparr>)
                     (wd_targets (ur_wake u))), s1)))"

definition agents ::
  "ms \<Rightarrow> header_map \<Rightarrow> app_state \<Rightarrow> (wake_agent \<times> bool \<times> ms option) list wake_result \<times> app_state" where
  "agents now h = with_account now h (\<lambda>u s.
     (Inr (map (\<lambda>a. (a, wa_enabled a \<and> wake_fresh now (agent_seen s (wa_id a)), agent_seen s (wa_id a)))
        (wd_agents (ur_wake u))), s))"

definition create_agent ::
  "(string \<Rightarrow> string) \<Rightarrow> store_call \<Rightarrow> header_map \<Rightarrow> string \<Rightarrow> string \<Rightarrow> string \<Rightarrow> string \<Rightarrow> app_state \<Rightarrow>
     (string \<times> string) wake_result \<times> app_state" where
  "create_agent digest c h raw_name i t1 t2 = with_account (sc_now c) h (\<lambda>u s.
     case wake_name raw_name of
       Inl e \<Rightarrow> (Inl e, s)
     | Inr name \<Rightarrow>
         let (token, hash) = credential digest t1 t2 in
         (case store_update c (ur_user_id u) (m_create_agent i name hash) s of
            (Inl e, s1) \<Rightarrow> (Inl e, s1)
          | (Inr _, s1) \<Rightarrow> (Inr (i, token), s1)))"

definition create_target ::
  "(string \<Rightarrow> string) \<Rightarrow> store_call \<Rightarrow> header_map \<Rightarrow> target_input \<Rightarrow> string \<Rightarrow> string \<Rightarrow> string \<Rightarrow>
     app_state \<Rightarrow> (string \<times> string) wake_result \<times> app_state" where
  "create_target digest c h b i t1 t2 = with_account (sc_now c) h (\<lambda>u s.
     case wake_name (ti_name b) of
       Inl e \<Rightarrow> (Inl e, s)
     | Inr name \<Rightarrow>
         (case mac_parse (ti_mac b) of
            Inl e \<Rightarrow> (Inl e, s)
          | Inr m \<Rightarrow>
              if trim (ti_device_id b) = [] \<or> 128 < length (ti_device_id b)
              then (Inl ''invalid_device'', s)
              else
                let (token, hash) = credential digest t1 t2 in
                (case store_update c (ur_user_id u)
                        (m_create_target (sc_now c) i name (mac_normalized m) hash b) s of
                   (Inl e, s1) \<Rightarrow> (Inl e, s1)
                 | (Inr _, s1) \<Rightarrow> (Inr (i, token), s1))))"

definition update_target ::
  "store_call \<Rightarrow> header_map \<Rightarrow> string \<Rightarrow> target_input \<Rightarrow> app_state \<Rightarrow> unit wake_result \<times> app_state" where
  "update_target c h i b = with_account (sc_now c) h (\<lambda>u s.
     case wake_name (ti_name b) of
       Inl e \<Rightarrow> (Inl e, s)
     | Inr name \<Rightarrow>
         (case mac_parse (ti_mac b) of
            Inl e \<Rightarrow> (Inl e, s)
          | Inr m \<Rightarrow> store_update c (ur_user_id u) (m_update_target i name (mac_normalized m) b) s))"

definition delete_target ::
  "store_call \<Rightarrow> header_map \<Rightarrow> string \<Rightarrow> app_state \<Rightarrow> unit wake_result \<times> app_state" where
  "delete_target c h i = with_account (sc_now c) h (\<lambda>u s.
     case store_update c (ur_user_id u) (m_delete_target i) s of
       (Inl e, s1) \<Rightarrow> (Inl e, s1)
     | (Inr _, s1) \<Rightarrow> (Inr (), map_targets (hrem i) s1))"

definition rotate_target ::
  "(string \<Rightarrow> string) \<Rightarrow> store_call \<Rightarrow> header_map \<Rightarrow> string \<Rightarrow> string \<Rightarrow> string \<Rightarrow> app_state \<Rightarrow>
     (string \<times> string) wake_result \<times> app_state" where
  "rotate_target digest c h i t1 t2 = with_account (sc_now c) h (\<lambda>u s.
     let (token, hash) = credential digest t1 t2 in
     case store_update c (ur_user_id u) (m_rotate_target i hash) s of
       (Inl e, s1) \<Rightarrow> (Inl e, s1)
     | (Inr _, s1) \<Rightarrow> (Inr (i, token), map_targets (hrem i) s1))"

definition heartbeat ::
  "(string \<Rightarrow> string) \<Rightarrow> ms \<Rightarrow> header_map \<Rightarrow> string \<Rightarrow> app_state \<Rightarrow> unit wake_result \<times> app_state" where
  "heartbeat digest now h i s =
     (case device_owner digest h i False s of
        Inl e \<Rightarrow> (Inl e, s)
      | Inr _ \<Rightarrow> (Inr (), map_targets (hput i now) s))"

definition revoke ::
  "store_call \<Rightarrow> string \<Rightarrow> string \<Rightarrow> app_state \<Rightarrow> unit wake_result \<times> app_state" where
  "revoke c owner i s =
     (case store_update c owner (m_revoke i) s of
        (Inl e, s1) \<Rightarrow> (Inl e, s1)
      | (Inr _, s1) \<Rightarrow> (Inr (), map_agents (hrem i) s1))"

definition delete_agent ::
  "store_call \<Rightarrow> header_map \<Rightarrow> string \<Rightarrow> app_state \<Rightarrow> unit wake_result \<times> app_state" where
  "delete_agent c h i = with_account (sc_now c) h (\<lambda>u. revoke c (ur_user_id u) i)"

definition stop_helper ::
  "store_call \<Rightarrow> string \<Rightarrow> string \<Rightarrow> string option \<Rightarrow> app_state \<Rightarrow> unit wake_result \<times> app_state" where
  "stop_helper c owner i expected_hash s =
     (case store_update c owner (m_stop_helper i expected_hash) s of
        (Inl e, s1) \<Rightarrow> (Inl e, s1)
      | (Inr _, s1) \<Rightarrow> (Inr (), map_agents (hrem i) s1))"

definition stop_agent ::
  "store_call \<Rightarrow> header_map \<Rightarrow> string \<Rightarrow> app_state \<Rightarrow> unit wake_result \<times> app_state" where
  "stop_agent c h i = with_account (sc_now c) h (\<lambda>u. stop_helper c (ur_user_id u) i None)"

definition disable_agent ::
  "(string \<Rightarrow> string) \<Rightarrow> store_call \<Rightarrow> header_map \<Rightarrow> string \<Rightarrow> app_state \<Rightarrow> unit wake_result \<times> app_state" where
  "disable_agent digest c h i s =
     (case device_owner digest h i True s of
        Inl e \<Rightarrow> (Inl e, s)
      | Inr owner \<Rightarrow>
          (case wake_bearer h of
             Inl e \<Rightarrow> (Inl e, s)
           | Inr token \<Rightarrow> stop_helper c owner i (Some (digest token)) s))"

definition enable_agent ::
  "(string \<Rightarrow> string) \<Rightarrow> store_call \<Rightarrow> header_map \<Rightarrow> string \<Rightarrow> string \<Rightarrow> string \<Rightarrow> string \<Rightarrow> app_state \<Rightarrow>
     (string \<times> string) wake_result \<times> app_state" where
  "enable_agent digest c h i raw_name t1 t2 = with_account (sc_now c) h (\<lambda>u s.
     case wake_name raw_name of
       Inl e \<Rightarrow> (Inl e, s)
     | Inr name \<Rightarrow>
         let (token, hash) = credential digest t1 t2 in
         (case store_update c (ur_user_id u) (m_enable_agent i name hash) s of
            (Inl e, s1) \<Rightarrow> (Inl e, s1)
          | (Inr _, s1) \<Rightarrow> (Inr (i, token), map_agents (hrem i) s1)))"

text \<open>Two writes: bringing the phases up to date, then the request itself (its own clock \<open>c'\<close>).\<close>

definition create_request ::
  "store_call \<Rightarrow> store_call \<Rightarrow> header_map \<Rightarrow> string \<Rightarrow> string \<Rightarrow> app_state \<Rightarrow>
     wake_request wake_result \<times> app_state" where
  "create_request c c' h target_id i = with_account (sc_now c) h (\<lambda>u s.
     case advance c (ur_user_id u) s of
       (Inl e, s1) \<Rightarrow> (Inl e, s1)
     | (Inr _, s1) \<Rightarrow>
         store_update c' (ur_user_id u)
           (m_create_request (sc_now c') (target_seen s1) (agent_seen s1) target_id i) s1)"

definition request_status ::
  "store_call \<Rightarrow> header_map \<Rightarrow> string \<Rightarrow> app_state \<Rightarrow> wake_request wake_result \<times> app_state" where
  "request_status c h i = with_account (sc_now c) h (\<lambda>u s.
     case advance c (ur_user_id u) s of
       (Inl e, s1) \<Rightarrow> (Inl e, s1)
     | (Inr _, s1) \<Rightarrow>
         (case hget (users s1) (ur_user_id u) of
            None \<Rightarrow> (Inl ''not_found'', s1)
          | Some u \<Rightarrow>
              (case List.find (\<lambda>r. wr_id r = i) (wd_requests (ur_wake u)) of
                 None \<Rightarrow> (Inl ''not_found'', s1)
               | Some r \<Rightarrow> (Inr r, s1))))"

definition history ::
  "store_call \<Rightarrow> header_map \<Rightarrow> string \<Rightarrow> app_state \<Rightarrow> wake_request list wake_result \<times> app_state" where
  "history c h target_id = with_account (sc_now c) h (\<lambda>u s.
     case advance c (ur_user_id u) s of
       (Inl e, s1) \<Rightarrow> (Inl e, s1)
     | (Inr _, s1) \<Rightarrow>
         (case hget (users s1) (ur_user_id u) of
            None \<Rightarrow> (Inl ''not_found'', s1)
          | Some u \<Rightarrow>
              if \<not> (\<exists>t \<in> set (wd_targets (ur_wake u)). wt_id t = target_id) then (Inl ''not_found'', s1)
              else (Inr (filter (\<lambda>r. wr_target_id r = target_id) (wd_requests (ur_wake u))), s1)))"

section \<open>The agent's long poll\<close>

text \<open>One turn: the credential again, then claim a request if there is one.\<close>

definition wake_poll_turn ::
  "(string \<Rightarrow> string) \<Rightarrow> store_call \<Rightarrow> header_map \<Rightarrow> string \<Rightarrow> string \<Rightarrow> app_state \<Rightarrow>
     wake_job option wake_result \<times> app_state" where
  "wake_poll_turn digest c h i owner s =
     (case device_owner digest h i True s of
        Inl e \<Rightarrow> (Inl e, s)
      | Inr _ \<Rightarrow>
          if (case hget (users s) owner of
                None \<Rightarrow> False
              | Some u \<Rightarrow> \<exists>r \<in> set (wd_requests (ur_wake u)). pollable (sc_now c) i r)
          then (case store_update c owner (m_claim (sc_now c) i) s of
                  (Inl e, s1) \<Rightarrow> (Inl e, s1)
                | (Inr job, s1) \<Rightarrow> (Inr (Some job), s1))
          else (Inr None, s))"

function wake_poll_loop ::
  "(string \<Rightarrow> string) \<Rightarrow> (nat \<Rightarrow> store_call) \<Rightarrow> (nat \<Rightarrow> ms) \<Rightarrow> (nat \<Rightarrow> app_state \<Rightarrow> app_state) \<Rightarrow>
   header_map \<Rightarrow> string \<Rightarrow> string \<Rightarrow> ms \<Rightarrow> nat \<Rightarrow> ms \<Rightarrow> app_state \<Rightarrow>
     wake_job option wake_result \<times> app_state" where
  "wake_poll_loop digest call late env h i owner deadline k t s =
     (case wake_poll_turn digest (call k) h i owner s of
        (Inl e, s1) \<Rightarrow> (Inl e, s1)
      | (Inr (Some job), s1) \<Rightarrow> (Inr (Some job), s1)
      | (Inr None, s1) \<Rightarrow>
          if deadline \<le> t then (Inr None, s1)
          else wake_poll_loop digest call late env h i owner deadline (Suc k) (t + 100 + late k) (env k s1))"
  by pat_completeness auto

termination
  by (relation "measure (\<lambda>(_, _, _, _, _, _, _, deadline, _, t, _). Suc deadline - t)") auto

declare wake_poll_loop.simps [simp del]

definition wake_poll ::
  "(string \<Rightarrow> string) \<Rightarrow> (nat \<Rightarrow> store_call) \<Rightarrow> (nat \<Rightarrow> ms) \<Rightarrow> (nat \<Rightarrow> app_state \<Rightarrow> app_state) \<Rightarrow>
   header_map \<Rightarrow> string \<Rightarrow> ms \<Rightarrow> app_state \<Rightarrow> wake_job option wake_result \<times> app_state" where
  "wake_poll digest call late env h i start s =
     (case device_owner digest h i True s of
        Inl e \<Rightarrow> (Inl e, s)
      | Inr owner \<Rightarrow>
          wake_poll_loop digest call late env h i owner (start + 5000) 0 start
            (map_agents (hput i (sc_now (call 0))) s))"

section \<open>The agent's answers\<close>

definition owner_for_request ::
  "(string \<Rightarrow> string) \<Rightarrow> header_map \<Rightarrow> string \<Rightarrow> app_state \<Rightarrow> (string \<times> string) wake_result" where
  "owner_for_request digest h i s =
     (case find_map (\<lambda>u. case List.find (\<lambda>r. wr_id r = i) (wd_requests (ur_wake u)) of
                           None \<Rightarrow> None | Some r \<Rightarrow> Some (ur_user_id u, wr_agent_id r)) (hvalues (users s)) of
        None \<Rightarrow> Inl ''unauthorized''
      | Some found \<Rightarrow>
          (case device_owner digest h (snd found) True s of
             Inl e \<Rightarrow> Inl e
           | Inr owner \<Rightarrow> if owner \<noteq> fst found then Inl ''unauthorized'' else Inr found))"

definition authorize ::
  "(string \<Rightarrow> string) \<Rightarrow> store_call \<Rightarrow> header_map \<Rightarrow> string \<Rightarrow> app_state \<Rightarrow> ms wake_result \<times> app_state" where
  "authorize digest c h i s =
     (case owner_for_request digest h i s of
        Inl e \<Rightarrow> (Inl e, s)
      | Inr (owner, aid) \<Rightarrow> store_update c owner (m_authorize (sc_now c) aid i) s)"

definition error_code_ok :: "string \<Rightarrow> bool" where
  "error_code_ok e \<longleftrightarrow> length e \<le> 64 \<and> (\<forall>c \<in> set e. is_ascii_lower c \<or> c = CHR ''_'')"

definition wake_result_post ::
  "(string \<Rightarrow> string) \<Rightarrow> store_call \<Rightarrow> header_map \<Rightarrow> string \<Rightarrow> string \<Rightarrow> string option \<Rightarrow> app_state \<Rightarrow>
     wake_request wake_result \<times> app_state" where
  "wake_result_post digest c h i phase error_code s =
     (case owner_for_request digest h i s of
        Inl e \<Rightarrow> (Inl e, s)
      | Inr (owner, aid) \<Rightarrow>
          if phase \<noteq> ''sent'' \<and> phase \<noteq> ''failed'' then (Inl ''invalid_phase'', s)
          else
            let err = (case error_code of
                         None \<Rightarrow> None | Some e \<Rightarrow> if error_code_ok e then Some e else None)
            in store_update c owner (m_result (sc_now c) (target_seen s) aid i phase err) s)"

section \<open>The periodic sweep\<close>

definition live_ids :: "(wake_account_data \<Rightarrow> string list) \<Rightarrow> app_state \<Rightarrow> string set" where
  "live_ids f s = set (concat (map (\<lambda>u. f (ur_wake u)) (hvalues (users s))))"

definition wake_cleanup :: "(nat \<Rightarrow> store_call) \<Rightarrow> ms \<Rightarrow> app_state \<Rightarrow> app_state" where
  "wake_cleanup calls now s0 =
     (let s1 = s0\<lparr>wake_rt := (wake_rt s0)\<lparr>wk_pairings := pairing_prune now (wk_pairings (wake_rt s0))\<rparr>\<rparr>;
          live = (\<lambda>f. live_ids f s1);
          keep = (\<lambda>ids i seen. i \<in> ids \<and> now - seen < 604800000);
          s2 = map_agents (hretain (keep (live (\<lambda>d. map wa_id (wd_agents d))))) s1;
          s3 = map_targets (hretain (keep (live (\<lambda>d. map wt_id (wd_targets d))))) s2;
          owners = map ur_user_id (hvalues (users s3))
      in fold (\<lambda>(k, owner) s. snd (advance (calls k) owner s)) (enumerate 0 owners) s3)"

end
