(* ===== verification/Pairing_Routes.thy ===== *)
theory Pairing_Routes
  imports Wake_Routes Pairing_Model
begin

text \<open>
  Enrollment of a computer for remote wake: the endpoints of \<open>wake/pairing.rs\<close>.  The desktop opens a
  session and shows a QR or manual code, a phone signed in to the same account confirms it, and the
  desktop then claims it, which adds the computer to the account.

  The handlers hold the lock of the pairing runtime from its acquisition to their end.  \<open>env\<close> is what
  other handlers do while a handler waits for that lock; \<open>env'\<close> what they do while it waits for the
  store lock, when no one else can change the pairings (\<open>while_locked\<close>).  The random bytes of the
  operating system are arguments, \<open>None\<close> when the generator fails.
\<close>

abbreviation pairings :: "app_state \<Rightarrow> pairing_runtime" where
  "pairings s \<equiv> wk_pairings (wake_rt s)"

definition set_pairings :: "pairing_runtime \<Rightarrow> app_state \<Rightarrow> app_state" where
  "set_pairings rt s = s\<lparr>wake_rt := (wake_rt s)\<lparr>wk_pairings := rt\<rparr>\<rparr>"

definition while_locked :: "(app_state \<Rightarrow> app_state) \<Rightarrow> app_state \<Rightarrow> app_state" where
  "while_locked env s = set_pairings (pairings s) (env s)"

text \<open>Assignment through \<open>sessions.get_mut(&id)\<close>, for an id that is present.\<close>

definition update_session :: "string \<Rightarrow> (pairing \<Rightarrow> pairing) \<Rightarrow> app_state \<Rightarrow> app_state" where
  "update_session i f s =
     (case hget (prt_sessions (pairings s)) i of
        None \<Rightarrow> s
      | Some p \<Rightarrow> set_pairings ((pairings s)\<lparr>prt_sessions := hput i (f p) (prt_sessions (pairings s))\<rparr>) s)"

section \<open>Validity of a session\<close>

definition creator_valid :: "(string \<Rightarrow> string) \<Rightarrow> ms \<Rightarrow> pairing \<Rightarrow> app_state \<Rightarrow> bool" where
  "creator_valid digest now p s \<longleftrightarrow>
     hhas (users s) (pg_owner p) \<and>
     (\<exists>(token, a) \<in> set (hlist (auth_sessions s)).
        au_user_id a = pg_owner p \<and> now - au_last_seen_ms a \<le> AUTH_SESSION_TTL_MS \<and>
        ct_equal (digest token) (pg_creator p))"

definition pairing_valid ::
  "(string \<Rightarrow> string) \<Rightarrow> ms \<Rightarrow> string \<Rightarrow> pairing \<Rightarrow> app_state \<Rightarrow> unit wake_result" where
  "pairing_valid digest now owner p s =
     (if pg_owner p \<noteq> owner then Inl ''not_found''
      else if pg_expires p \<le> now then Inl ''expired''
      else if pg_cancelled p \<or> \<not> creator_valid digest now p s then Inl ''conflict''
      else Inr ())"

definition pairing_phase :: "ms \<Rightarrow> pairing \<Rightarrow> string" where
  "pairing_phase now p =
     (if pg_expires p \<le> now then ''expired''
      else if pg_claimed p \<noteq> None then ''claimed''
      else if pg_confirmed p then ''confirmed''
      else ''pending'')"

record pairing_summary =
  sm_id :: string
  sm_name :: string
  sm_device_id :: string
  sm_state :: string
  sm_expires_at_ms :: ms
  sm_target_id :: "string option"

definition summary :: "ms \<Rightarrow> string \<Rightarrow> pairing \<Rightarrow> pairing_summary" where
  "summary now i p =
     \<lparr>sm_id = i, sm_name = pg_name p, sm_device_id = pg_device_id p, sm_state = pairing_phase now p,
      sm_expires_at_ms = pg_expires p, sm_target_id = map_option fst (pg_claimed p)\<rparr>"

section \<open>Opening a session\<close>

record random_bytes =
  rn_id :: "bytes option"
  rn_qr :: "bytes option"
  rn_desktop :: "bytes option"
  rn_manual :: "bytes option"

definition hex_of :: "bytes \<Rightarrow> string" where
  "hex_of bs = concat (map (fmt_hex False) bs)"

definition manual_of :: "bytes \<Rightarrow> string" where
  "manual_of bs = map (\<lambda>b. ALPHABET ! unat (b AND 31)) bs"

record pairing_offer =
  of_id :: string
  of_qr_proof :: string
  of_desktop_proof :: string
  of_manual_code :: string
  of_expires_at_ms :: ms

definition pairing_open :: "string \<Rightarrow> pairing \<Rightarrow> bool" where
  "pairing_open owner p \<longleftrightarrow> pg_owner p = owner \<and> pg_claimed p = None \<and> \<not> pg_cancelled p"

text \<open>\<open>create\<close> from the moment it holds the lock.\<close>

definition create_locked ::
  "(string \<Rightarrow> string) \<Rightarrow> ms \<Rightarrow> random_bytes \<Rightarrow> header_map \<Rightarrow> string \<Rightarrow> string \<Rightarrow> string \<Rightarrow> string \<Rightarrow> app_state \<Rightarrow>
     pairing_offer wake_result \<times> app_state" where
  "create_locked digest now rnd h owner name device_id mac s =
     (case pairing_limit owner now (pairing_prune now (pairings s)) of
        (Inl e, rt) \<Rightarrow> (Inl e, set_pairings rt s)
      | (Inr l, rt) \<Rightarrow>
          let s1 = set_pairings rt s in
          if 6 \<le> lm_creates l \<or> 1000 \<le> length (hlist (prt_sessions rt)) \<or>
             3 \<le> length (filter (pairing_open owner) (hvalues (prt_sessions rt)))
          then (Inl ''rate_limited'', s1)
          else
            (case (rn_id rnd, rn_qr rnd, rn_desktop rnd, rn_manual rnd, wake_bearer h) of
               (Some b_id, Some b_qr, Some b_desktop, Some b_manual, Inr token) \<Rightarrow>
                 let i = hex_of b_id; qr = hex_of b_qr; desktop = hex_of b_desktop;
                     code = manual_of b_manual;
                     p = \<lparr>pg_owner = owner, pg_creator = digest token, pg_name = name,
                          pg_device_id = device_id, pg_mac = mac, pg_qr_hash = digest qr,
                          pg_desktop_hash = digest desktop, pg_manual_hash = digest code,
                          pg_expires = now + TTL, pg_confirmed = False, pg_cancelled = False,
                          pg_claimed = None\<rparr>
                 in (case pairing_valid digest now owner p s1 of
                       Inl e \<Rightarrow> (Inl e, s1)
                     | Inr _ \<Rightarrow>
                         (case pairing_limit owner now rt of
                            (Inl e, rt2) \<Rightarrow> (Inl e, set_pairings rt2 s1)
                          | (Inr l2, rt2) \<Rightarrow>
                              let rt3 = set_limit owner (l2\<lparr>lm_creates := lm_creates l2 + 1\<rparr>) rt2
                              in (Inr \<lparr>of_id = i, of_qr_proof = qr, of_desktop_proof = desktop,
                                       of_manual_code = code, of_expires_at_ms = now + TTL\<rparr>,
                                  set_pairings (rt3\<lparr>prt_sessions := hput i p (prt_sessions rt3)\<rparr>) s1)))
             | (Some _, Some _, Some _, Some _, Inl e) \<Rightarrow> (Inl e, s1)
             | _ \<Rightarrow> (Inl ''storage'', s1)))"

definition pairing_create ::
  "(string \<Rightarrow> string) \<Rightarrow> ms \<Rightarrow> ms \<Rightarrow> random_bytes \<Rightarrow> (app_state \<Rightarrow> app_state) \<Rightarrow> header_map \<Rightarrow>
   string \<Rightarrow> string \<Rightarrow> string \<Rightarrow> app_state \<Rightarrow> pairing_offer wake_result \<times> app_state" where
  "pairing_create digest now now' rnd env h raw_name device_id raw_mac = with_account now h (\<lambda>u s.
     case wake_name raw_name of
       Inl e \<Rightarrow> (Inl e, s)
     | Inr name \<Rightarrow>
         if trim device_id = [] \<or> 128 < length device_id then (Inl ''invalid_device'', s)
         else
           (case mac_parse raw_mac of
              Inl e \<Rightarrow> (Inl e, s)
            | Inr m \<Rightarrow>
                create_locked digest now' rnd h (ur_user_id u) name device_id (mac_normalized m) (env s)))"

section \<open>The phone\<close>

record phone_proof =
  ph_id :: "string option"
  ph_qr_proof :: "string option"
  ph_manual_code :: "string option"

definition phone_matches :: "(string \<Rightarrow> string) \<Rightarrow> pairing \<Rightarrow> phone_proof \<Rightarrow> bool" where
  "phone_matches digest p b \<longleftrightarrow>
     (case (ph_qr_proof b, ph_manual_code b) of
        (Some qr, None) \<Rightarrow> valid_proof qr \<and> ct_equal (digest qr) (pg_qr_hash p)
      | (None, Some code) \<Rightarrow>
          (case manual code of None \<Rightarrow> False | Some c \<Rightarrow> ct_equal (digest c) (pg_manual_hash p))
      | _ \<Rightarrow> False)"

text \<open>The session a proof names: by id, or by manual code in the order of iteration.\<close>

definition phone_found ::
  "(string \<Rightarrow> string) \<Rightarrow> string \<Rightarrow> string option \<Rightarrow> phone_proof \<Rightarrow> pairing_runtime \<Rightarrow>
     (string \<times> pairing) option" where
  "phone_found digest owner i b rt =
     (case i of
        Some i \<Rightarrow>
          (case hget (prt_sessions rt) i of
             None \<Rightarrow> None
           | Some p \<Rightarrow> if pg_owner p = owner \<and> phone_matches digest p b then Some (i, p) else None)
      | None \<Rightarrow>
          if ph_id b = None \<and> ph_qr_proof b = None
          then List.find (\<lambda>(_, p). pg_owner p = owner \<and> phone_matches digest p b) (hlist (prt_sessions rt))
          else None)"

definition phone_session ::
  "(string \<Rightarrow> string) \<Rightarrow> ms \<Rightarrow> string \<Rightarrow> string option \<Rightarrow> phone_proof \<Rightarrow> app_state \<Rightarrow>
     (string \<times> pairing) wake_result \<times> app_state" where
  "phone_session digest now owner i b s =
     (case pairing_limit owner now (pairings s) of
        (Inl e, rt) \<Rightarrow> (Inl e, set_pairings rt s)
      | (Inr l, rt) \<Rightarrow>
          let s1 = set_pairings rt s in
          if 20 \<le> lm_failures l then (Inl ''rate_limited'', s1)
          else
            let result =
              (case phone_found digest owner i b rt of
                 None \<Rightarrow> Inl ''not_found''
               | Some (i, p) \<Rightarrow>
                   (case pairing_valid digest now owner p s1 of Inl e \<Rightarrow> Inl e | Inr _ \<Rightarrow> Inr (i, p)))
            in (case result of
                  Inr found \<Rightarrow> (Inr found, s1)
                | Inl e \<Rightarrow>
                    (case pairing_limit owner now rt of
                       (Inl e', rt2) \<Rightarrow> (Inl e', set_pairings rt2 s1)
                     | (Inr l2, rt2) \<Rightarrow>
                         (Inl e, set_pairings (set_limit owner (l2\<lparr>lm_failures := lm_failures l2 + 1\<rparr>) rt2) s1))))"

definition proof_shape :: "phone_proof \<Rightarrow> bool" where
  "proof_shape b \<longleftrightarrow>
     (ph_id b \<noteq> None \<and> ph_qr_proof b \<noteq> None \<and> ph_manual_code b = None) \<or>
     (ph_id b = None \<and> ph_qr_proof b = None \<and> ph_manual_code b \<noteq> None)"

definition pairing_resolve ::
  "(string \<Rightarrow> string) \<Rightarrow> ms \<Rightarrow> ms \<Rightarrow> (app_state \<Rightarrow> app_state) \<Rightarrow> header_map \<Rightarrow> phone_proof \<Rightarrow> app_state \<Rightarrow>
     pairing_summary wake_result \<times> app_state" where
  "pairing_resolve digest now now' env h b = with_account now h (\<lambda>u s0.
     let s = env s0 in
     if \<not> proof_shape b then (Inl ''invalid_proof'', s)
     else
       (case phone_session digest now' (ur_user_id u) (ph_id b) b s of
          (Inl e, s1) \<Rightarrow> (Inl e, s1)
        | (Inr (i, p), s1) \<Rightarrow> (Inr (summary now' i p), s1)))"

definition confirm_locked ::
  "(string \<Rightarrow> string) \<Rightarrow> ms \<Rightarrow> string \<Rightarrow> string \<Rightarrow> phone_proof \<Rightarrow> app_state \<Rightarrow>
     pairing_summary wake_result \<times> app_state" where
  "confirm_locked digest now owner i b s =
     (case phone_session digest now owner (Some i) b s of
        (Inl e, s1) \<Rightarrow> (Inl e, s1)
      | (Inr (_, p), s1) \<Rightarrow>
          if pg_confirmed p \<or> pg_claimed p \<noteq> None then (Inl ''conflict'', s1)
          else (Inr (summary now i (p\<lparr>pg_confirmed := True\<rparr>)),
                update_session i (\<lambda>p. p\<lparr>pg_confirmed := True\<rparr>) s1))"

definition pairing_confirm ::
  "(string \<Rightarrow> string) \<Rightarrow> ms \<Rightarrow> ms \<Rightarrow> (app_state \<Rightarrow> app_state) \<Rightarrow> header_map \<Rightarrow> string \<Rightarrow> phone_proof \<Rightarrow> app_state \<Rightarrow>
     pairing_summary wake_result \<times> app_state" where
  "pairing_confirm digest now now' env h i b = with_account now h (\<lambda>u s.
     if ph_id b \<noteq> None then (Inl ''invalid_proof'', s)
     else confirm_locked digest now' (ur_user_id u) i b (env s))"

section \<open>The desktop\<close>

definition desktop_session ::
  "(string \<Rightarrow> string) \<Rightarrow> ms \<Rightarrow> string \<Rightarrow> string \<Rightarrow> string \<Rightarrow> app_state \<Rightarrow> pairing wake_result" where
  "desktop_session digest now owner i proof s =
     (case hget (prt_sessions (pairings s)) i of
        None \<Rightarrow> Inl ''not_found''
      | Some p \<Rightarrow>
          if pg_owner p = owner \<and> valid_proof proof \<and> ct_equal (digest proof) (pg_desktop_hash p)
          then (case pairing_valid digest now owner p s of Inl e \<Rightarrow> Inl e | Inr _ \<Rightarrow> Inr p)
          else Inl ''not_found'')"

definition pairing_status ::
  "(string \<Rightarrow> string) \<Rightarrow> ms \<Rightarrow> ms \<Rightarrow> (app_state \<Rightarrow> app_state) \<Rightarrow> header_map \<Rightarrow> string \<Rightarrow> string \<Rightarrow> app_state \<Rightarrow>
     pairing_summary wake_result \<times> app_state" where
  "pairing_status digest now now' env h i proof = with_account now h (\<lambda>u s0.
     let s = env s0 in
     (case desktop_session digest now' (ur_user_id u) i proof s of
        Inl e \<Rightarrow> (Inl e, s)
      | Inr p \<Rightarrow> (Inr (summary now' i p), s)))"

definition m_enroll :: "ms \<Rightarrow> string \<Rightarrow> string \<Rightarrow> pairing \<Rightarrow> unit mutation" where
  "m_enroll now target_id hash p d =
     (if 20 \<le> length (wd_targets d) then Inl ''rate_limited''
      else if \<exists>t \<in> set (wd_targets d). wt_device_id t = pg_device_id p then Inl ''conflict''
      else Inr ((), d\<lparr>wd_targets := wd_targets d @
             [\<lparr>wt_setup_complete = False, wt_id = target_id, wt_name = pg_name p,
               wt_device_id = pg_device_id p, wt_mac = pg_mac p, wt_agent_id = [], wt_revision = 1,
               wt_token_hash = hash, wt_created_at_ms = now\<rparr>]\<rparr>))"

text \<open>
  The closure that \<open>claim\<close> passes to \<open>update_wake\<close> checks the session and the account once more before
  it changes the data.
\<close>

definition enroll ::
  "(string \<Rightarrow> string) \<Rightarrow> store_call \<Rightarrow> header_map \<Rightarrow> string \<Rightarrow> string \<Rightarrow> string \<Rightarrow> pairing \<Rightarrow> app_state \<Rightarrow>
     unit wake_result \<times> app_state" where
  "enroll digest c h owner target_id hash p s =
     (if find_user owner (hvalues (users s)) = None then (Inl ''not_found'', s)
      else
        (case pairing_valid digest (sc_now c) owner p s of
           Inl e \<Rightarrow> (Inl e, s)
         | Inr _ \<Rightarrow>
             (case account (sc_now c) h s of
                (Inl e, s1) \<Rightarrow> (Inl e, s1)
              | (Inr _, s1) \<Rightarrow> store_update c owner (m_enroll (sc_now c) target_id hash p) s1)))"

definition claim_locked ::
  "(string \<Rightarrow> string) \<Rightarrow> ms \<Rightarrow> store_call \<Rightarrow> (app_state \<Rightarrow> app_state) \<Rightarrow> header_map \<Rightarrow> string \<Rightarrow> string \<Rightarrow>
   string \<Rightarrow> string \<Rightarrow> string \<Rightarrow> app_state \<Rightarrow> string wake_result \<times> app_state" where
  "claim_locked digest now c env' h target_id owner i proof token s =
     (case desktop_session digest now owner i proof s of
        Inl e \<Rightarrow> (Inl e, s)
      | Inr p \<Rightarrow>
          if \<not> pg_confirmed p then (Inl ''conflict'', s)
          else
            let hash = digest token in
            (case pg_claimed p of
               Some (tid, old_hash) \<Rightarrow>
                 if \<not> ct_equal old_hash hash then (Inl ''conflict'', s)
                 else
                   (case hget (users s) owner of
                      None \<Rightarrow> (Inl ''not_found'', s)
                    | Some user \<Rightarrow>
                        if \<not> (\<exists>t \<in> set (wd_targets (ur_wake user)). wt_id t = tid \<and> ct_equal (wt_token_hash t) hash)
                        then (Inl ''conflict'', s)
                        else (Inr tid, s))
             | None \<Rightarrow>
                 (case enroll digest c h owner target_id hash p (while_locked env' s) of
                    (Inl e, s1) \<Rightarrow> (Inl e, s1)
                  | (Inr _, s1) \<Rightarrow>
                      (Inr target_id, update_session i (\<lambda>p. p\<lparr>pg_claimed := Some (target_id, hash)\<rparr>) s1))))"

definition pairing_claim ::
  "(string \<Rightarrow> string) \<Rightarrow> ms \<Rightarrow> ms \<Rightarrow> store_call \<Rightarrow> (app_state \<Rightarrow> app_state) \<Rightarrow> (app_state \<Rightarrow> app_state) \<Rightarrow>
   header_map \<Rightarrow> string \<Rightarrow> string \<Rightarrow> string \<Rightarrow> string \<Rightarrow> app_state \<Rightarrow> string wake_result \<times> app_state" where
  "pairing_claim digest now now' c env env' h target_id i proof token = with_account now h (\<lambda>u s.
     if \<not> valid_proof token then (Inl ''invalid_token'', s)
     else claim_locked digest now' c env' h target_id (ur_user_id u) i proof token (env s))"

definition cancel_locked ::
  "(string \<Rightarrow> string) \<Rightarrow> ms \<Rightarrow> string \<Rightarrow> string \<Rightarrow> string \<Rightarrow> app_state \<Rightarrow> unit wake_result \<times> app_state" where
  "cancel_locked digest now owner i proof s =
     (case desktop_session digest now owner i proof s of
        Inl e \<Rightarrow> (Inl e, s)
      | Inr p \<Rightarrow>
          if pg_claimed p \<noteq> None then (Inl ''conflict'', s)
          else (Inr (), update_session i (\<lambda>p. p\<lparr>pg_cancelled := True\<rparr>) s))"

definition pairing_cancel ::
  "(string \<Rightarrow> string) \<Rightarrow> ms \<Rightarrow> ms \<Rightarrow> (app_state \<Rightarrow> app_state) \<Rightarrow> header_map \<Rightarrow> string \<Rightarrow> string \<Rightarrow> app_state \<Rightarrow>
     unit wake_result \<times> app_state" where
  "pairing_cancel digest now now' env h i proof =
     with_account now h (\<lambda>u s. cancel_locked digest now' (ur_user_id u) i proof (env s))"

definition cancel_all_locked :: "string \<Rightarrow> string \<Rightarrow> app_state \<Rightarrow> app_state" where
  "cancel_all_locked owner creator s =
     set_pairings ((pairings s)\<lparr>prt_sessions := hmap_values
       (\<lambda>p. if pg_owner p = owner \<and> ct_equal (pg_creator p) creator \<and> pg_claimed p = None
            then p\<lparr>pg_cancelled := True\<rparr> else p) (prt_sessions (pairings s))\<rparr>) s"

definition pairing_cancel_all ::
  "(string \<Rightarrow> string) \<Rightarrow> ms \<Rightarrow> (app_state \<Rightarrow> app_state) \<Rightarrow> header_map \<Rightarrow> app_state \<Rightarrow>
     unit wake_result \<times> app_state" where
  "pairing_cancel_all digest now env h = with_account now h (\<lambda>u s.
     (case wake_bearer h of
        Inl e \<Rightarrow> (Inl e, s)
      | Inr token \<Rightarrow> (Inr (), cancel_all_locked (ur_user_id u) (digest token) (env s))))"

section \<open>Completing the set-up\<close>

definition m_complete :: "string \<Rightarrow> string \<Rightarrow> unit mutation" where
  "m_complete i agent_id d =
     (if \<not> agent_enabled agent_id d then Inl ''not_found''
      else if \<not> (\<exists>t \<in> set (wd_targets d). wt_id t = i) then Inl ''not_found''
      else Inr ((), cancel_target i
             (d\<lparr>wd_targets := update_first (\<lambda>t. wt_id t = i)
                  (\<lambda>t. t\<lparr>wt_agent_id := agent_id, wt_setup_complete := True,
                         wt_revision := wt_revision t + 1\<rparr>) (wd_targets d)\<rparr>)))"

definition complete_target ::
  "ms \<Rightarrow> store_call \<Rightarrow> (app_state \<Rightarrow> app_state) \<Rightarrow> header_map \<Rightarrow> string \<Rightarrow> string \<Rightarrow> bool \<Rightarrow> app_state \<Rightarrow>
     string wake_result \<times> app_state" where
  "complete_target now c env h i agent_id bios_confirmed = with_account now h (\<lambda>u s0.
     if \<not> bios_confirmed then (Inl ''setup_incomplete'', s0)
     else
       let s = env s0 in
       if find_user (ur_user_id u) (hvalues (users s)) = None then (Inl ''not_found'', s)
       else
         (case account (sc_now c) h s of
            (Inl e, s1) \<Rightarrow> (Inl e, s1)
          | (Inr _, s1) \<Rightarrow>
              (case store_update c (ur_user_id u) (m_complete i agent_id) s1 of
                 (Inl e, s2) \<Rightarrow> (Inl e, s2)
               | (Inr _, s2) \<Rightarrow> (Inr i, s2))))"

end
