(* ===== verification/Wake_Props.thy ===== *)
theory Wake_Props
  imports Pairing_Routes "HOL-Library.Multiset"
begin

text \<open>
  Correctness of remote wake: every operation keeps the limits and the shape of an account's data and
  moves each request along its life cycle; a magic packet is authorized at most once per request.
\<close>

section \<open>Well-formed data\<close>

text \<open>What the fields of a request say about each other, in every phase.\<close>

definition request_wf :: "wake_request \<Rightarrow> bool" where
  "request_wf r \<longleftrightarrow>
     wr_expires_at_ms r = wr_created_at_ms r + 30000 \<and>
     wr_observe_until_ms r = wr_created_at_ms r + 120000 \<and>
     (wr_authorized_at_ms r \<noteq> None \<longrightarrow> wr_claimed_at_ms r \<noteq> None) \<and>
     (wr_phase r \<in> {Sent, Online, Unconfirmed} \<longrightarrow> wr_sent_at_ms r \<noteq> None) \<and>
     (wr_phase r \<in> {Queued, Claimed, Failed, Expired} \<longrightarrow> wr_sent_at_ms r = None) \<and>
     (wr_sent_at_ms r \<noteq> None \<longrightarrow> wr_authorized_at_ms r \<noteq> None) \<and>
     (wr_phase r = Queued \<longrightarrow> wr_claimed_at_ms r = None) \<and>
     (wr_phase r = Claimed \<longrightarrow> wr_claimed_at_ms r \<noteq> None) \<and>
     (\<forall>a. wr_authorized_at_ms r = Some a \<longrightarrow> a < wr_created_at_ms r + 30000) \<and>
     (\<forall>a. wr_sent_at_ms r = Some a \<longrightarrow> a < wr_created_at_ms r + 30000) \<and>
     (wr_phase r = Online \<longrightarrow> (\<exists>h. wr_online_at_ms r = Some h \<and> wr_created_at_ms r < h))"

definition active_targets :: "wake_account_data \<Rightarrow> string list" where
  "active_targets d = map wr_target_id (filter (\<lambda>r. phase_active (wr_phase r)) (wd_requests d))"

definition wake_ok :: "wake_account_data \<Rightarrow> bool" where
  "wake_ok d \<longleftrightarrow>
     length (wd_targets d) \<le> 20 \<and> length (wd_agents d) \<le> 5 \<and>
     distinct (map wt_device_id (wd_targets d)) \<and>
     (\<forall>t \<in> set (wd_targets d). \<exists>m. mac_valid m \<and> wt_mac t = mac_normalized m) \<and>
     (\<forall>r \<in> set (wd_requests d). request_wf r) \<and>
     distinct (active_targets d)"

text \<open>One step of a request's life: its identity stays, its phase moves forward, its stamps stay.\<close>

definition evolves :: "wake_request \<Rightarrow> wake_request \<Rightarrow> bool" where
  "evolves r r' \<longleftrightarrow>
     wr_id r' = wr_id r \<and> wr_target_id r' = wr_target_id r \<and> wr_agent_id r' = wr_agent_id r \<and>
     wr_target_revision r' = wr_target_revision r \<and> wr_created_at_ms r' = wr_created_at_ms r \<and>
     wr_expires_at_ms r' = wr_expires_at_ms r \<and>
     phase_le (wr_phase r) (wr_phase r') \<and>
     (wr_claimed_at_ms r \<noteq> None \<longrightarrow> wr_claimed_at_ms r' = wr_claimed_at_ms r) \<and>
     (wr_authorized_at_ms r \<noteq> None \<longrightarrow> wr_authorized_at_ms r' = wr_authorized_at_ms r) \<and>
     (wr_sent_at_ms r \<noteq> None \<longrightarrow> wr_sent_at_ms r' = wr_sent_at_ms r)"

lemma evolves_refl [simp]: "evolves r r"
  by (simp add: evolves_def)

lemma evolves_trans: "evolves a b \<Longrightarrow> evolves b c \<Longrightarrow> evolves a c"
  by (auto simp: evolves_def intro: rtranclp_trans)

lemma phase_le_step: "phase_step p q \<Longrightarrow> phase_le p q"
  by (rule r_into_rtranclp)

lemma phase_les [simp]:
  "phase_le Queued Claimed" "phase_le Claimed Sent" "phase_le Claimed Failed" "phase_le Sent Online"
  "phase_le Sent Unconfirmed" "phase_le Queued Expired" "phase_le Claimed Expired"
  "phase_active p \<Longrightarrow> phase_le p Cancelled" "phase_active p \<Longrightarrow> phase_le p Interrupted"
  by (simp_all add: phase_le_step phase_step.intros)

lemma phase_le_Claimed_Sent_next [simp]:
  "phase_le Claimed Online" "phase_le Claimed Unconfirmed"
  using phase_les(2,4,5) rtranclp_trans [of phase_step] by blast+

lemma evolves_advance: "evolves r (request_advance now h r)"
  by (auto simp: request_advance_def evolves_def)

text \<open>By cases on the phase, \<open>advance\<close> changes the phase and the time of sighting only.\<close>

lemma advance_cases:
  obtains (same) "request_advance now h r = r"
  | (online) seen where "wr_phase r = Sent" "h = Some seen" "wr_created_at_ms r < seen"
      "request_advance now h r = r\<lparr>wr_phase := Online, wr_online_at_ms := h\<rparr>"
  | (unconfirmed) "wr_phase r = Sent" "request_advance now h r = r\<lparr>wr_phase := Unconfirmed\<rparr>"
  | (expired) "wr_phase r = Queued \<or> wr_phase r = Claimed"
      "request_advance now h r = r\<lparr>wr_phase := Expired\<rparr>"
proof -
  have "request_advance now h r = r \<or>
    (\<exists>seen. wr_phase r = Sent \<and> h = Some seen \<and> wr_created_at_ms r < seen \<and>
       request_advance now h r = r\<lparr>wr_phase := Online, wr_online_at_ms := h\<rparr>) \<or>
    wr_phase r = Sent \<and> request_advance now h r = r\<lparr>wr_phase := Unconfirmed\<rparr> \<or>
    (wr_phase r = Queued \<or> wr_phase r = Claimed) \<and> request_advance now h r = r\<lparr>wr_phase := Expired\<rparr>"
    by (cases h) (simp_all add: request_advance_def observed_online_def)
  then show ?thesis
    using same online unconfirmed expired by blast
qed

lemma request_wf_advance: "request_wf r \<Longrightarrow> request_wf (request_advance now h r)"
proof (cases now h r rule: advance_cases)
  case same
  then show "request_wf r \<Longrightarrow> ?thesis" by simp
next
  case (online seen)
  then show "request_wf r \<Longrightarrow> ?thesis" unfolding request_wf_def by simp
next
  case unconfirmed
  then show "request_wf r \<Longrightarrow> ?thesis" by (simp add: request_wf_def)
next
  case expired
  then show "request_wf r \<Longrightarrow> ?thesis" by (auto simp: request_wf_def)
qed

lemma advance_active: "phase_active (wr_phase (request_advance now h r)) \<Longrightarrow> phase_active (wr_phase r)"
  by (auto simp: request_advance_def phase_active_def split: if_splits)

lemma advance_target [simp]: "wr_target_id (request_advance now h r) = wr_target_id r"
  by (simp add: request_advance_def)

section \<open>Request lists\<close>

text \<open>
  A mutation rewrites requests in place: it keeps the order, evolves each one, keeps it well formed
  and never makes a settled request active.
\<close>

definition good_rewrite :: "(wake_request \<Rightarrow> wake_request) \<Rightarrow> bool" where
  "good_rewrite f \<longleftrightarrow>
     (\<forall>r. evolves r (f r) \<and> (request_wf r \<longrightarrow> request_wf (f r)) \<and>
          (phase_active (wr_phase (f r)) \<longrightarrow> phase_active (wr_phase r)))"

lemma good_rewriteD:
  assumes "good_rewrite f"
  shows "evolves r (f r)" "request_wf r \<Longrightarrow> request_wf (f r)"
    "phase_active (wr_phase (f r)) \<Longrightarrow> phase_active (wr_phase r)" "wr_target_id (f r) = wr_target_id r"
  using assms by (auto simp: good_rewrite_def evolves_def)

lemma active_map:
  assumes "good_rewrite f" "distinct (map wr_target_id (filter (\<lambda>r. phase_active (wr_phase r)) rs))"
  shows "distinct (map wr_target_id (filter (\<lambda>r. phase_active (wr_phase r)) (map f rs)))"
  using assms(2)
proof (induction rs)
  case (Cons r rs)
  have "wr_target_id r \<in> wr_target_id ` {x \<in> f ` set rs. phase_active (wr_phase x)} \<Longrightarrow>
      wr_target_id r \<in> wr_target_id ` {x \<in> set rs. phase_active (wr_phase x)}"
    using good_rewriteD(3,4) [OF assms(1)] by (auto simp: image_iff)
  with Cons show ?case
    using good_rewriteD(3,4) [OF assms(1)] by (auto split: if_splits)
qed simp

lemma wake_ok_rewrite:
  assumes "good_rewrite f" "wake_ok d"
  shows "wake_ok (d\<lparr>wd_requests := map f (wd_requests d)\<rparr>)"
  using assms active_map [OF assms(1)] good_rewriteD(2) [OF assms(1)]
  by (auto simp: wake_ok_def active_targets_def)

lemma good_advance: "good_rewrite (\<lambda>r. request_advance now (beats (wr_target_id r)) r)"
  using evolves_advance request_wf_advance advance_active by (simp add: good_rewrite_def)

lemma request_wf_cancel:
  "request_wf r \<Longrightarrow> p \<in> {Cancelled, Interrupted} \<Longrightarrow> request_wf (r\<lparr>wr_phase := p, wr_error_code := e\<rparr>)"
  unfolding request_wf_def by (elim insertE) simp_all

lemma good_cancel:
  "good_rewrite (\<lambda>r. if P r \<and> phase_active (wr_phase r) then r\<lparr>wr_phase := Cancelled\<rparr> else r)"
proof -
  have "request_wf (r\<lparr>wr_phase := Cancelled\<rparr>)" if "request_wf r" for r
    using request_wf_cancel [OF that, of Cancelled "wr_error_code r"] by simp
  then show ?thesis by (simp add: good_rewrite_def evolves_def)
qed

lemma good_interrupt:
  "good_rewrite (\<lambda>r. if phase_active (wr_phase r)
     then r\<lparr>wr_phase := Interrupted, wr_error_code := Some e\<rparr> else r)"
  using request_wf_cancel [of _ Interrupted "Some e"]
  by (simp add: good_rewrite_def evolves_def)

section \<open>Replacing one request\<close>

lemma update_first_split:
  assumes "List.find P xs = Some x"
  shows "\<exists>pre post. xs = pre @ x # post \<and> P x \<and> (\<forall>y \<in> set pre. \<not> P y) \<and>
    (\<forall>f. update_first P f xs = pre @ f x # post)"
  using assms
proof (induction xs)
  case (Cons y ys)
  show ?case
  proof (cases "P y")
    case True
    then have "x = y" using Cons.prems by simp
    with True show ?thesis by (intro exI [of _ "[]"] exI [of _ ys]) simp
  next
    case False
    with Cons obtain pre post where "ys = pre @ x # post" "P x" "\<forall>y \<in> set pre. \<not> P y"
      "\<forall>f. update_first P f ys = pre @ f x # post" by auto
    with False show ?thesis by (intro exI [of _ "y # pre"] exI [of _ post]) simp
  qed
qed simp

text \<open>One request of the list moves on.\<close>

definition moves_to :: "wake_request \<Rightarrow> wake_request \<Rightarrow> bool" where
  "moves_to r r' \<longleftrightarrow>
     (request_wf r \<longrightarrow> evolves r r' \<and> request_wf r' \<and>
        (phase_active (wr_phase r') \<longrightarrow> phase_active (wr_phase r)))"

lemma wake_ok_replace:
  assumes ok: "wake_ok d" and rs: "wd_requests d = pre @ r # post" and mv: "moves_to r r'"
  shows "wake_ok (d\<lparr>wd_requests := pre @ r' # post\<rparr>)"
proof -
  have wf: "request_wf r" using ok rs by (simp add: wake_ok_def)
  then have t: "wr_target_id r' = wr_target_id r" using mv by (simp add: moves_to_def evolves_def)
  have "distinct (active_targets (d\<lparr>wd_requests := pre @ r' # post\<rparr>))"
    using ok rs mv t wf
    by (cases "phase_active (wr_phase r)"; cases "phase_active (wr_phase r')")
      (auto simp: wake_ok_def active_targets_def moves_to_def)
  moreover have "\<forall>x \<in> set (pre @ r' # post). request_wf x"
    using ok rs mv by (auto simp: wake_ok_def moves_to_def)
  ultimately show ?thesis using ok by (simp add: wake_ok_def)
qed

lemma claim_moves:
  assumes "pollable now i r"
  shows "moves_to r (r\<lparr>wr_phase := Claimed,
     wr_claimed_at_ms := (case wr_claimed_at_ms r of None \<Rightarrow> Some now | Some c \<Rightarrow> Some c)\<rparr>)"
proof -
  have le: "phase_le (wr_phase r) Claimed" "phase_active (wr_phase r)"
    using assms by (auto simp: pollable_def phase_active_def)
  moreover have "request_wf (r\<lparr>wr_phase := Claimed,
     wr_claimed_at_ms := (case wr_claimed_at_ms r of None \<Rightarrow> Some now | Some c \<Rightarrow> Some c)\<rparr>)"
    if "request_wf r"
    using that assms unfolding request_wf_def pollable_def by (cases "wr_claimed_at_ms r") auto
  ultimately show ?thesis
    unfolding moves_to_def evolves_def by (auto split: option.splits)
qed

lemma authorize_moves:
  assumes "wr_phase r = Claimed" "wr_authorized_at_ms r = None" "now < wr_expires_at_ms r"
  shows "moves_to r (r\<lparr>wr_authorized_at_ms := Some now\<rparr>)"
proof -
  have "request_wf (r\<lparr>wr_authorized_at_ms := Some now\<rparr>)" if "request_wf r"
    using that assms unfolding request_wf_def by simp
  then show ?thesis using assms unfolding moves_to_def evolves_def by simp
qed

lemma settle_moves:
  assumes "wr_phase r = Claimed" "phase = ''sent'' \<Longrightarrow> wr_authorized_at_ms r \<noteq> None"
    "now < wr_expires_at_ms r"
  shows "moves_to r (settle_result now t_seen phase e r)"
  unfolding moves_to_def
proof (intro impI)
  assume r: "request_wf r"
  have active: "phase_active (wr_phase r)" using assms(1) by (simp add: phase_active_def)
  show "evolves r (settle_result now t_seen phase e r) \<and> request_wf (settle_result now t_seen phase e r) \<and>
      (phase_active (wr_phase (settle_result now t_seen phase e r)) \<longrightarrow> phase_active (wr_phase r))"
  proof (cases "phase = ''sent''")
    case True
    let ?s = "r\<lparr>wr_phase := Sent, wr_sent_at_ms := Some now\<rparr>"
    have sr: "settle_result now t_seen phase e r = request_advance now (t_seen (wr_target_id r)) ?s"
      using True by (simp add: settle_result_def)
    have "request_wf ?s" using r assms True unfolding request_wf_def by auto
    moreover have "evolves r ?s" using r assms(1) by (simp add: evolves_def request_wf_def)
    ultimately show ?thesis
      unfolding sr using evolves_advance evolves_trans request_wf_advance active by blast
  next
    case False
    then have sr: "settle_result now t_seen phase e r = r\<lparr>wr_phase := Failed, wr_error_code := e\<rparr>"
      by (simp add: settle_result_def)
    have "request_wf (r\<lparr>wr_phase := Failed, wr_error_code := e\<rparr>)"
      using r assms(1) unfolding request_wf_def by simp
    with active show ?thesis unfolding sr using assms(1) by (simp add: evolves_def)
  qed
qed

section \<open>Every mutation keeps the data well formed\<close>

text \<open>
  The mutations an account's data can go through: those of the endpoints, the pruning that ends each
  of them and the recovery after a restart.
\<close>

inductive wake_mutation :: "ms \<Rightarrow> wake_account_data \<Rightarrow> wake_account_data \<Rightarrow> bool" for now where
  mu_advance: "m_advance now beats d = Inr (u, d') \<Longrightarrow> wake_mutation now d d'"
| mu_create_agent: "m_create_agent i name hash d = Inr (u, d') \<Longrightarrow> wake_mutation now d d'"
| mu_create_target: "mac_valid m \<Longrightarrow> m_create_target now i name (mac_normalized m) hash b d = Inr (u, d') \<Longrightarrow>
    wake_mutation now d d'"
| mu_update_target: "mac_valid m \<Longrightarrow> m_update_target i name (mac_normalized m) b d = Inr (u, d') \<Longrightarrow>
    wake_mutation now d d'"
| mu_delete_target: "m_delete_target i d = Inr (u, d') \<Longrightarrow> wake_mutation now d d'"
| mu_rotate_target: "m_rotate_target i hash d = Inr (u, d') \<Longrightarrow> wake_mutation now d d'"
| mu_revoke: "m_revoke i d = Inr (u, d') \<Longrightarrow> wake_mutation now d d'"
| mu_stop_helper: "m_stop_helper i expected d = Inr (u, d') \<Longrightarrow> wake_mutation now d d'"
| mu_enable_agent: "m_enable_agent i name hash d = Inr (u, d') \<Longrightarrow> wake_mutation now d d'"
| mu_create_request: "m_create_request now t_seen a_seen target_id i d = Inr (r, d') \<Longrightarrow>
    wake_mutation now d d'"
| mu_claim: "m_claim now i d = Inr (job, d') \<Longrightarrow> wake_mutation now d d'"
| mu_authorize: "m_authorize now aid i d = Inr (left, d') \<Longrightarrow> wake_mutation now d d'"
| mu_result: "m_result now t_seen aid i phase e d = Inr (r, d') \<Longrightarrow> wake_mutation now d d'"
| mu_enroll: "mac_valid m \<Longrightarrow> pg_mac p = mac_normalized m \<Longrightarrow> m_enroll now i hash p d = Inr (u, d') \<Longrightarrow>
    wake_mutation now d d'"
| mu_complete: "m_complete i aid d = Inr (u, d') \<Longrightarrow> wake_mutation now d d'"
| mu_prune: "wake_mutation now d (wake_prune now d)"
| mu_recover: "wake_mutation now d (recover_after_restart now d)"

lemma wake_ok_agents: "wake_ok d \<Longrightarrow> length as \<le> 5 \<Longrightarrow> wake_ok (d\<lparr>wd_agents := as\<rparr>)"
  by (simp add: wake_ok_def active_targets_def)

lemma wake_ok_cancel_agent: "wake_ok d \<Longrightarrow> wake_ok (cancel_agent i d)"
  unfolding cancel_agent_def cancel_where_def by (rule wake_ok_rewrite [OF good_cancel])

lemma wake_ok_cancel_target: "wake_ok d \<Longrightarrow> wake_ok (cancel_target i d)"
  unfolding cancel_target_def cancel_where_def by (rule wake_ok_rewrite [OF good_cancel])

lemma length_update_first [simp]: "length (update_first P f xs) = length xs"
  by (induction xs) auto

lemma map_update_first: "(\<And>x. g (f x) = g x) \<Longrightarrow> map g (update_first P f xs) = map g xs"
  by (induction xs) auto

lemma set_update_first: "y \<in> set (update_first P f xs) \<Longrightarrow> y \<in> set xs \<or> (\<exists>x \<in> set xs. P x \<and> y = f x)"
  by (induction xs) (auto split: if_splits)

lemma distinct_sub:
  assumes s: "mset ys \<subseteq># mset xs" and d: "distinct xs"
  shows "distinct ys"
proof -
  have "count (mset ys) a \<le> 1" for a
  proof -
    have "count (mset xs) a \<le> 1"
      using d by (simp add: distinct_count_atmost_1)
    then show ?thesis using mset_subset_eq_count [OF s, of a] by linarith
  qed
  then have "count (mset ys) a = (if a \<in> set ys then 1 else 0)" for a
    using count_mset_0_iff [of ys a] by (cases "a \<in> set ys") (metis One_nat_def le_Suc_eq le_zero_eq)+
  then show "distinct ys" by (simp add: distinct_count_atmost_1)
qed

lemma wake_ok_sub:
  assumes "wake_ok d" "mset rs \<subseteq># mset (wd_requests d)"
  shows "wake_ok (d\<lparr>wd_requests := rs\<rparr>)"
proof -
  have "mset (map wr_target_id (filter (\<lambda>r. phase_active (wr_phase r)) rs)) \<subseteq>#
      mset (map wr_target_id (filter (\<lambda>r. phase_active (wr_phase r)) (wd_requests d)))"
    using assms(2) by (simp add: image_mset_subseteq_mono multiset_filter_mono)
  then have "distinct (active_targets (d\<lparr>wd_requests := rs\<rparr>))"
    using assms(1) distinct_sub by (fastforce simp: wake_ok_def active_targets_def)
  moreover have "set rs \<subseteq> set (wd_requests d)"
    using assms(2) set_mset_mono by fastforce
  ultimately show ?thesis using assms(1) by (auto simp: wake_ok_def)
qed

lemma prune_subset: "mset (wd_requests (wake_prune now d)) \<subseteq># mset (wd_requests d)"
proof -
  let ?f = "filter (\<lambda>r. now - wr_created_at_ms r < 604800000) (wd_requests d)"
  have "mset (take 50 (newest_first ?f)) \<subseteq># mset (newest_first ?f)"
    by (metis append_take_drop_id mset_append mset_subset_eq_add_left)
  also have "mset (newest_first ?f) = mset ?f" by (simp add: newest_first_def)
  also have "mset ?f \<subseteq># mset (wd_requests d)" by (simp add: multiset_filter_subset)
  finally show ?thesis by (simp add: wake_prune_def)
qed

lemma wake_ok_prune: "wake_ok d \<Longrightarrow> wake_ok (wake_prune now d)"
  using wake_ok_sub [OF _ prune_subset, of d now] by (simp add: wake_prune_def)

lemma wake_ok_recover: "wake_ok d \<Longrightarrow> wake_ok (recover_after_restart now d)"
  unfolding recover_after_restart_def Let_def
  by (rule wake_ok_rewrite [OF good_interrupt]) (rule wake_ok_prune)

lemma wake_ok_default: "wake_ok wake_default"
  by (simp add: wake_ok_def wake_default_def active_targets_def)

lemma wake_ok_targets:
  assumes "wake_ok d" "map wt_device_id ts = map wt_device_id (wd_targets d)"
    and "\<And>t. t \<in> set ts \<Longrightarrow> \<exists>m. mac_valid m \<and> wt_mac t = mac_normalized m"
  shows "wake_ok (d\<lparr>wd_targets := ts\<rparr>)"
  using assms map_eq_imp_length_eq [OF assms(2)] by (simp add: wake_ok_def active_targets_def)

lemma wake_ok_create_target:
  assumes "wake_ok d" "mac_valid m" "m_create_target now i name (mac_normalized m) hash b d = Inr (u, d')"
  shows "wake_ok d'"
proof -
  from assms(3) have new: "length (wd_targets d) < 20" "ti_device_id b \<notin> wt_device_id ` set (wd_targets d)"
    and d': "d' = d\<lparr>wd_targets := wd_targets d @
             [\<lparr>wt_setup_complete = True, wt_id = i, wt_name = name, wt_device_id = ti_device_id b,
               wt_mac = mac_normalized m, wt_agent_id = ti_agent_id b, wt_revision = 1,
               wt_token_hash = hash, wt_created_at_ms = now\<rparr>]\<rparr>"
    by (auto simp: m_create_target_def split: if_splits)
  show ?thesis
    using assms(1,2) new unfolding d' wake_ok_def active_targets_def by auto
qed

lemma wake_ok_update_target:
  assumes ok: "wake_ok d" and m: "mac_valid m"
    and r: "m_update_target i name (mac_normalized m) b d = Inr (u, d')"
  shows "wake_ok d'"
proof -
  let ?f = "\<lambda>t. t\<lparr>wt_name := name, wt_mac := mac_normalized m, wt_agent_id := ti_agent_id b,
                         wt_revision := wt_revision t + 1\<rparr>"
  let ?ts = "update_first (\<lambda>t. wt_id t = i) ?f (wd_targets d)"
  have "wake_ok (d\<lparr>wd_targets := ?ts\<rparr>)"
  proof (rule wake_ok_targets [OF ok])
    show "map wt_device_id ?ts = map wt_device_id (wd_targets d)"
      by (rule map_update_first) simp
    show "\<exists>m. mac_valid m \<and> wt_mac t = mac_normalized m" if "t \<in> set ?ts" for t
      using set_update_first [OF that] ok m by (auto simp: wake_ok_def)
  qed
  with r show ?thesis
    by (auto simp: m_update_target_def split: if_splits intro: wake_ok_cancel_target)
qed

lemma wake_ok_enroll:
  assumes "wake_ok d" "mac_valid m" "pg_mac p = mac_normalized m" "m_enroll now i hash p d = Inr (u, d')"
  shows "wake_ok d'"
proof -
  from assms(4) have new: "length (wd_targets d) < 20" "pg_device_id p \<notin> wt_device_id ` set (wd_targets d)"
    and d': "d' = d\<lparr>wd_targets := wd_targets d @
             [\<lparr>wt_setup_complete = False, wt_id = i, wt_name = pg_name p, wt_device_id = pg_device_id p,
               wt_mac = pg_mac p, wt_agent_id = [], wt_revision = 1, wt_token_hash = hash,
               wt_created_at_ms = now\<rparr>]\<rparr>"
    by (auto simp: m_enroll_def split: if_splits)
  show ?thesis
    using assms(1-3) new unfolding d' wake_ok_def active_targets_def by auto
qed

lemma wake_ok_complete:
  assumes ok: "wake_ok d" and r: "m_complete i aid d = Inr (u, d')"
  shows "wake_ok d'"
proof -
  let ?f = "\<lambda>t. t\<lparr>wt_agent_id := aid, wt_setup_complete := True, wt_revision := wt_revision t + 1\<rparr>"
  let ?ts = "update_first (\<lambda>t. wt_id t = i) ?f (wd_targets d)"
  have "wake_ok (d\<lparr>wd_targets := ?ts\<rparr>)"
  proof (rule wake_ok_targets [OF ok])
    show "map wt_device_id ?ts = map wt_device_id (wd_targets d)"
      by (rule map_update_first) simp
    show "\<exists>m. mac_valid m \<and> wt_mac t = mac_normalized m" if "t \<in> set ?ts" for t
      using set_update_first [OF that] ok by (auto simp: wake_ok_def)
  qed
  with r show ?thesis
    by (auto simp: m_complete_def split: if_splits intro: wake_ok_cancel_target)
qed

lemma wake_ok_delete_target:
  assumes "wake_ok d" "m_delete_target i d = Inr (u, d')"
  shows "wake_ok d'"
proof -
  have "wake_ok (d\<lparr>wd_requests := filter (\<lambda>r. wr_target_id r \<noteq> i) (wd_requests d)\<rparr>)"
    by (rule wake_ok_sub [OF assms(1)]) (simp add: multiset_filter_subset)
  moreover have "length (filter (\<lambda>t. wt_id t \<noteq> i) (wd_targets d)) \<le> length (wd_targets d)" by simp
  ultimately show ?thesis
    using assms by (auto simp: m_delete_target_def wake_ok_def active_targets_def distinct_map_filter
        split: if_splits intro: le_trans [OF length_filter_le])
qed

lemma wake_ok_rotate_target:
  assumes ok: "wake_ok d" and r: "m_rotate_target i hash d = Inr (u, d')"
  shows "wake_ok d'"
proof -
  let ?ts = "update_first (\<lambda>t. wt_id t = i) (\<lambda>t. t\<lparr>wt_token_hash := hash\<rparr>) (wd_targets d)"
  have "wake_ok (d\<lparr>wd_targets := ?ts\<rparr>)"
  proof (rule wake_ok_targets [OF ok])
    show "map wt_device_id ?ts = map wt_device_id (wd_targets d)"
      by (rule map_update_first) simp
    show "\<exists>m. mac_valid m \<and> wt_mac t = mac_normalized m" if "t \<in> set ?ts" for t
      using set_update_first [OF that] ok by (auto simp: wake_ok_def)
  qed
  with r show ?thesis by (auto simp: m_rotate_target_def split: if_splits)
qed

lemma wake_ok_create_request:
  assumes ok: "wake_ok d" and r: "m_create_request now t_seen a_seen tid i d = Inr (q, d')"
  shows "wake_ok d'"
proof -
  obtain t where t: "List.find (\<lambda>t. wt_id t = tid) (wd_targets d) = Some t"
    using r by (auto simp: m_create_request_def split: option.splits)
  show ?thesis
  proof (cases "List.find (\<lambda>r. wr_target_id r = wt_id t \<and> phase_active (wr_phase r)) (wd_requests d)")
    case (Some x)
    with r t ok show ?thesis by (auto simp: m_create_request_def split: if_splits)
  next
    case None
    then have new: "wt_id t \<notin> set (active_targets d)"
      by (auto simp: find_None_iff active_targets_def)
    have "d' = d\<lparr>wd_requests := wd_requests d @ [new_request now i t]\<rparr>"
      using r t None by (auto simp: m_create_request_def Let_def split: if_splits)
    moreover have "request_wf (new_request now i t)"
      by (simp add: request_wf_def new_request_def)
    ultimately show ?thesis
      using ok new by (auto simp: wake_ok_def active_targets_def new_request_def phase_active_def)
  qed
qed

lemma wake_ok_claim:
  assumes ok: "wake_ok d" and r: "m_claim now i d = Inr (job, d')"
  shows "wake_ok d'"
proof -
  obtain x where x: "List.find (pollable now i) (wd_requests d) = Some x"
    using r by (auto simp: m_claim_def split: if_splits option.splits)
  from update_first_split [OF x] obtain pre post where s:
    "wd_requests d = pre @ x # post" "pollable now i x"
    "\<And>f. update_first (pollable now i) f (wd_requests d) = pre @ f x # post" by blast
  from wake_ok_replace [OF ok s(1) claim_moves [OF s(2)]] r x show ?thesis
    by (auto simp: m_claim_def s(3) split: if_splits option.splits)
qed

lemma wake_ok_authorize:
  assumes ok: "wake_ok d" and r: "m_authorize now aid i d = Inr (left, d')"
  shows "wake_ok d'"
proof -
  obtain x where x: "List.find (\<lambda>r. wr_id r = i) (wd_requests d) = Some x"
    using r by (auto simp: m_authorize_def split: if_splits option.splits)
  from update_first_split [OF x] obtain pre post where s:
    "wd_requests d = pre @ x # post"
    "\<And>f. update_first (\<lambda>r. wr_id r = i) f (wd_requests d) = pre @ f x # post" by blast
  have c: "wr_phase x = Claimed" "wr_authorized_at_ms x = None" "now < wr_expires_at_ms x"
    and d': "d' = d\<lparr>wd_requests := pre @ x\<lparr>wr_authorized_at_ms := Some now\<rparr> # post\<rparr>"
    using r x by (auto simp: m_authorize_def s(2) split: if_splits)
  show ?thesis unfolding d' by (rule wake_ok_replace [OF ok s(1) authorize_moves [OF c]])
qed

lemma wake_ok_result:
  assumes ok: "wake_ok d" and r: "m_result now t_seen aid i phase e d = Inr (q, d')"
  shows "wake_ok d'"
proof -
  obtain x where x: "List.find (\<lambda>r. wr_id r = i) (wd_requests d) = Some x"
    using r by (auto simp: m_result_def split: if_splits option.splits)
  from update_first_split [OF x] obtain pre post where s:
    "wd_requests d = pre @ x # post"
    "\<And>f. update_first (\<lambda>r. wr_id r = i) f (wd_requests d) = pre @ f x # post" by blast
  consider "d' = d" | (settle) "wr_phase x = Claimed" "phase = ''sent'' \<Longrightarrow> wr_authorized_at_ms x \<noteq> None"
    "now < wr_expires_at_ms x"
    "d' = d\<lparr>wd_requests := pre @ settle_result now t_seen phase e x # post\<rparr>"
    using r x by (fastforce simp: m_result_def s(2) Let_def split: if_splits)
  then show ?thesis
  proof cases
    case settle
    show ?thesis unfolding settle(4)
      by (rule wake_ok_replace [OF ok s(1) settle_moves [OF settle(1-3)]])
  qed (simp add: ok)
qed

lemma wake_ok_new_agents:
  "wake_ok d \<Longrightarrow> length as \<le> length (wd_agents d) \<Longrightarrow> wake_ok (cancel_agent i (d\<lparr>wd_agents := as\<rparr>))"
  by (rule wake_ok_cancel_agent, rule wake_ok_agents) (simp_all add: wake_ok_def)

lemma wake_mutation_ok:
  assumes "wake_mutation now d d'" and ok: "wake_ok d"
  shows "wake_ok d'"
  using assms(1)
proof cases
  case (mu_advance beats u)
  then show ?thesis using wake_ok_rewrite [OF good_advance ok] by (auto simp: m_advance_def)
next
  case (mu_create_agent i name hash u)
  then show ?thesis using ok by (auto simp: m_create_agent_def intro: wake_ok_agents split: if_splits)
next
  case (mu_revoke i u)
  then show ?thesis
    using ok by (auto simp: m_revoke_def split: if_splits intro!: wake_ok_new_agents)
next
  case (mu_stop_helper i expected u)
  then show ?thesis
    using ok by (auto simp: m_stop_helper_def split: if_splits option.splits intro!: wake_ok_new_agents)
next
  case (mu_enable_agent i name hash u)
  then show ?thesis
    using ok by (auto simp: m_enable_agent_def split: if_splits intro!: wake_ok_new_agents)
qed (use ok in \<open>auto intro: wake_ok_create_target wake_ok_update_target wake_ok_delete_target
      wake_ok_rotate_target wake_ok_enroll wake_ok_complete wake_ok_create_request wake_ok_claim wake_ok_authorize wake_ok_result
      wake_ok_prune wake_ok_recover\<close>)

interpretation wi: wake_invariant wake_ok
  by unfold_locales (rule wake_ok_default, rule wake_ok_prune)

section \<open>The life cycle of requests\<close>

lemma list_evolves:
  assumes "xs = pre @ x # post" "evolves x x'" "r' \<in> set (pre @ x' # post)"
  shows "\<exists>r \<in> set xs. evolves r r'"
proof -
  have "r' = x' \<or> r' \<in> set xs" using assms(1,3) by auto
  then show ?thesis using assms(1,2) evolves_refl by fastforce
qed

lemma map_evolves:
  "(\<And>r. evolves r (f r)) \<Longrightarrow> r' \<in> set (map f rs) \<Longrightarrow> \<exists>r \<in> set rs. evolves r r'"
  by auto

lemma cancel_evolves: "r' \<in> set (cancel_where P rs) \<Longrightarrow> \<exists>r \<in> set rs. evolves r r'"
  unfolding cancel_where_def by (rule map_evolves) (rule good_rewriteD(1) [OF good_cancel])

lemma prune_in: "r \<in> set (wd_requests (wake_prune now d)) \<Longrightarrow> r \<in> set (wd_requests d)"
  using set_mset_mono [OF prune_subset [of now d]] by auto

text \<open>The mutations that make, take or settle a request.\<close>

definition continued :: "ms \<Rightarrow> wake_account_data \<Rightarrow> wake_request \<Rightarrow> bool" where
  "continued now d r' \<longleftrightarrow> (\<exists>r \<in> set (wd_requests d). evolves r r') \<or>
     (\<exists>t \<in> set (wd_targets d). \<exists>i. r' = new_request now i t)"

lemma continued_old: "r' \<in> set (wd_requests d) \<Longrightarrow> continued now d r'"
  unfolding continued_def using evolves_refl by metis

lemma continued_evolves: "\<exists>r \<in> set (wd_requests d). evolves r r' \<Longrightarrow> continued now d r'"
  by (simp add: continued_def)

lemma create_request_continues:
  assumes m: "m_create_request now t_seen a_seen tid i d = Inr (q, d')" and r': "r' \<in> set (wd_requests d')"
  shows "continued now d r'"
proof -
  obtain t where t: "List.find (\<lambda>t. wt_id t = tid) (wd_targets d) = Some t"
    using m by (auto simp: m_create_request_def split: option.splits)
  then have "t \<in> set (wd_targets d)" by (auto simp: find_Some_iff)
  moreover have "d' = d \<or> d' = d\<lparr>wd_requests := wd_requests d @ [new_request now i t]\<rparr>"
    using m t by (auto simp: m_create_request_def Let_def split: if_splits option.splits)
  ultimately have "r' \<in> set (wd_requests d) \<or> (r' = new_request now i t \<and> t \<in> set (wd_targets d))"
    using r' by auto
  then show ?thesis using continued_old by (auto simp: continued_def)
qed

lemma claim_continues:
  assumes m: "m_claim now i d = Inr (job, d')" and ok: "wake_ok d" and r': "r' \<in> set (wd_requests d')"
  shows "continued now d r'"
proof (cases "List.find (pollable now i) (wd_requests d)")
  case None
  then show ?thesis using m r' by (auto simp: m_claim_def intro: continued_old split: if_splits)
next
  case (Some x)
  from update_first_split [OF Some] obtain pre post where s:
    "wd_requests d = pre @ x # post" "pollable now i x"
    "\<And>f. update_first (pollable now i) f (wd_requests d) = pre @ f x # post" by blast
  have "request_wf x" using ok s(1) by (simp add: wake_ok_def)
  then have "evolves x (x\<lparr>wr_phase := Claimed, wr_claimed_at_ms :=
      (case wr_claimed_at_ms x of None \<Rightarrow> Some now | Some c \<Rightarrow> Some c)\<rparr>)"
    using claim_moves [OF s(2)] by (simp add: moves_to_def)
  from list_evolves [OF s(1) this] r' m Some show ?thesis
    by (auto simp: m_claim_def s(3) intro: continued_evolves continued_old split: if_splits option.splits)
qed

lemma authorize_continues:
  assumes m: "m_authorize now aid i d = Inr (left, d')" and r': "r' \<in> set (wd_requests d')"
  shows "continued now d r'"
proof -
  obtain x where x: "List.find (\<lambda>r. wr_id r = i) (wd_requests d) = Some x"
    using m by (auto simp: m_authorize_def split: if_splits option.splits)
  from update_first_split [OF x] obtain pre post where s:
    "wd_requests d = pre @ x # post"
    "\<And>f. update_first (\<lambda>r. wr_id r = i) f (wd_requests d) = pre @ f x # post" by blast
  have c: "wr_authorized_at_ms x = None" "d' = d\<lparr>wd_requests := pre @ x\<lparr>wr_authorized_at_ms := Some now\<rparr> # post\<rparr>"
    using m x by (auto simp: m_authorize_def s(2) split: if_splits)
  have "evolves x (x\<lparr>wr_authorized_at_ms := Some now\<rparr>)"
    using c(1) by (simp add: evolves_def)
  from list_evolves [OF s(1) this] r' c(2) show ?thesis by (auto intro: continued_evolves)
qed

lemma result_continues:
  assumes m: "m_result now t_seen aid i phase e d = Inr (q, d')" and ok: "wake_ok d"
    and r': "r' \<in> set (wd_requests d')"
  shows "continued now d r'"
proof -
  obtain x where x: "List.find (\<lambda>r. wr_id r = i) (wd_requests d) = Some x"
    using m by (auto simp: m_result_def split: if_splits option.splits)
  from update_first_split [OF x] obtain pre post where s:
    "wd_requests d = pre @ x # post"
    "\<And>f. update_first (\<lambda>r. wr_id r = i) f (wd_requests d) = pre @ f x # post" by blast
  have wf: "request_wf x" using ok s(1) by (simp add: wake_ok_def)
  consider "d' = d" | (settle) "wr_phase x = Claimed" "phase = ''sent'' \<Longrightarrow> wr_authorized_at_ms x \<noteq> None"
    "now < wr_expires_at_ms x"
    "d' = d\<lparr>wd_requests := pre @ settle_result now t_seen phase e x # post\<rparr>"
    using m x by (fastforce simp: m_result_def s(2) Let_def split: if_splits)
  then show ?thesis
  proof cases
    case settle
    have "evolves x (settle_result now t_seen phase e x)"
      using settle_moves [OF settle(1-3)] wf by (simp add: moves_to_def)
    from list_evolves [OF s(1) this] r' settle(4) show ?thesis by (auto intro: continued_evolves)
  qed (use r' in \<open>simp add: continued_old\<close>)
qed

lemma cancel_continues: "r' \<in> set (cancel_where P (wd_requests d)) \<Longrightarrow> continued now d r'"
  by (intro continued_evolves cancel_evolves)

lemma mutation_evolves:
  assumes mut: "wake_mutation now d d'" and ok: "wake_ok d" and r': "r' \<in> set (wd_requests d')"
  shows "continued now d r'"
  using mut
proof cases
  case (mu_advance beats u)
  then have "r' \<in> set (map (\<lambda>r. request_advance now (beats (wr_target_id r)) r) (wd_requests d))"
    using r' by (auto simp: m_advance_def)
  then have "\<exists>r \<in> set (wd_requests d). evolves r r'"
    by (rule map_evolves [rotated]) (rule evolves_advance)
  then show ?thesis by (rule continued_evolves)
next
  case (mu_create_request t_seen a_seen tid i q)
  then show ?thesis by (rule create_request_continues [OF _ r'])
next
  case (mu_claim i job)
  then show ?thesis by (rule claim_continues [OF _ ok r'])
next
  case (mu_authorize aid i left)
  then show ?thesis by (rule authorize_continues [OF _ r'])
next
  case (mu_result t_seen aid i phase e q)
  then show ?thesis by (rule result_continues [OF _ ok r'])
next
  case mu_prune
  then show ?thesis using r' prune_in continued_old by metis
next
  case mu_recover
  then have "\<exists>r \<in> set (wd_requests (wake_prune now d)). evolves r r'"
    using r' map_evolves [OF good_rewriteD(1) [OF good_interrupt]]
    by (simp add: recover_after_restart_def Let_def)
  then show ?thesis using prune_in by (auto simp: continued_def)
qed (use r' in \<open>auto simp: m_update_target_def m_complete_def m_delete_target_def m_revoke_def m_stop_helper_def
    m_enable_agent_def cancel_target_def cancel_agent_def m_create_agent_def m_create_target_def m_enroll_def
    m_rotate_target_def intro: continued_old cancel_continues split: if_splits option.splits\<close>)

text \<open>
  C25: every operation moves requests along their life cycle.  After any mutation of a well-formed
  account each request either is a queued request just made for one of the targets, or continues an
  earlier one: same identity, agent, target and deadline, a phase reached by steps of the life cycle
  (so a settled request never changes phase), and no time of claim, authorization or sending rewritten.
\<close>

theorem wake_mutation_evolves:
  assumes "wake_mutation now d d'" "wake_ok d" "r' \<in> set (wd_requests d')"
  shows "wake_ok d' \<and> ((\<exists>r \<in> set (wd_requests d). evolves r r') \<or>
    (\<exists>t \<in> set (wd_targets d). \<exists>i. r' = new_request now i t))"
  using mutation_evolves [OF assms] wake_mutation_ok [OF assms(1,2)] unfolding continued_def by blast

section \<open>All accounts, all endpoints\<close>

definition accounts_ok :: "app_state \<Rightarrow> bool" where
  "accounts_ok s \<longleftrightarrow> (\<forall>i u. hget (users s) i = Some u \<longrightarrow> wake_ok (ur_wake u))"

lemma accounts_ok_wi: "accounts_ok = wi.all_accounts"
  by (rule ext) (simp add: accounts_ok_def wi.all_accounts_def)

text \<open>A state the endpoints may run on: users under their ids, well-formed data, a fixed store path.\<close>

definition wake_safe :: "string \<Rightarrow> app_state \<Rightarrow> bool" where
  "wake_safe p s \<longleftrightarrow> users_keyed s \<and> accounts_ok s \<and> user_store_path s = p"

lemma wake_safe_upd [simp]:
  "wake_safe p (s\<lparr>auth_sessions := a\<rparr>) = wake_safe p s"
  "wake_safe p (map_agents f s) = wake_safe p s" "wake_safe p (map_targets g s) = wake_safe p s"
  by (simp_all add: wake_safe_def users_keyed_def accounts_ok_def map_agents_def map_targets_def)

definition safe_mutation :: "'a mutation \<Rightarrow> bool" where
  "safe_mutation mutation \<longleftrightarrow> (\<forall>d v d'. mutation d = Inr (v, d') \<longrightarrow> (\<exists>now. wake_mutation now d d'))"

text \<open>
  The endpoints, each as one step, with the two halves an endpoint falls into when others act while it
  waits for the store lock: the credential check (\<open>wo_auth\<close>) and a mutation under the lock (\<open>wo_store\<close>).
  \<open>p\<close> is the path of the database; temporary files have other names.
\<close>

inductive wake_op :: "(string \<Rightarrow> string) \<Rightarrow> string \<Rightarrow> app_state \<Rightarrow> app_state \<Rightarrow> bool" for digest p where
  wo_auth: "wake_op digest p s (snd (authenticated_user now h s))"
| wo_store: "safe_mutation m \<Longrightarrow> sc_tmp c \<noteq> p \<Longrightarrow>
    wake_op digest p s (snd (store_update c owner (m :: unit mutation) s))"
| wo_targets: "sc_tmp c \<noteq> p \<Longrightarrow> wake_op digest p s (snd (targets c h s))"
| wo_agents: "wake_op digest p s (snd (agents now h s))"
| wo_create_agent: "sc_tmp c \<noteq> p \<Longrightarrow> wake_op digest p s (snd (create_agent digest c h name i t1 t2 s))"
| wo_create_target: "sc_tmp c \<noteq> p \<Longrightarrow> wake_op digest p s (snd (create_target digest c h b i t1 t2 s))"
| wo_update_target: "sc_tmp c \<noteq> p \<Longrightarrow> wake_op digest p s (snd (update_target c h i b s))"
| wo_delete_target: "sc_tmp c \<noteq> p \<Longrightarrow> wake_op digest p s (snd (delete_target c h i s))"
| wo_rotate_target: "sc_tmp c \<noteq> p \<Longrightarrow> wake_op digest p s (snd (rotate_target digest c h i t1 t2 s))"
| wo_heartbeat: "wake_op digest p s (snd (heartbeat digest now h i s))"
| wo_delete_agent: "sc_tmp c \<noteq> p \<Longrightarrow> wake_op digest p s (snd (delete_agent c h i s))"
| wo_stop_agent: "sc_tmp c \<noteq> p \<Longrightarrow> wake_op digest p s (snd (stop_agent c h i s))"
| wo_disable_agent: "sc_tmp c \<noteq> p \<Longrightarrow> wake_op digest p s (snd (disable_agent digest c h i s))"
| wo_enable_agent: "sc_tmp c \<noteq> p \<Longrightarrow> wake_op digest p s (snd (enable_agent digest c h i name t1 t2 s))"
| wo_create_request: "sc_tmp c \<noteq> p \<Longrightarrow> sc_tmp c' \<noteq> p \<Longrightarrow>
    wake_op digest p s (snd (create_request c c' h tid i s))"
| wo_request_status: "sc_tmp c \<noteq> p \<Longrightarrow> wake_op digest p s (snd (request_status c h i s))"
| wo_history: "sc_tmp c \<noteq> p \<Longrightarrow> wake_op digest p s (snd (history c h tid s))"
| wo_poll_begin: "device_owner digest h i True s = Inr owner \<Longrightarrow>
    wake_op digest p s (map_agents (hput i now) s)"
| wo_poll_turn: "sc_tmp c \<noteq> p \<Longrightarrow> wake_op digest p s (snd (wake_poll_turn digest c h i owner s))"
| wo_authorize: "sc_tmp c \<noteq> p \<Longrightarrow> wake_op digest p s (snd (authorize digest c h i s))"
| wo_result: "sc_tmp c \<noteq> p \<Longrightarrow> wake_op digest p s (snd (wake_result_post digest c h i phase err s))"
| wo_complete: "sc_tmp c \<noteq> p \<Longrightarrow>
    wake_op digest p s (snd (complete_target now c (\<lambda>t. t) h i aid bios s))"
| wo_sweep_seen: "wake_op digest p s (map_targets (hretain Q) (map_agents (hretain P) s))"
| wo_advance: "sc_tmp c \<noteq> p \<Longrightarrow> wake_op digest p s (snd (advance c owner s))"

text \<open>What the value of a mutation is does not matter for the state.\<close>

definition forget_value :: "'a mutation \<Rightarrow> unit mutation" where
  "forget_value m d = (case m d of Inl e \<Rightarrow> Inl e | Inr (_, d') \<Rightarrow> Inr ((), d'))"

lemma store_update_forget: "snd (store_update c owner m s) = snd (store_update c owner (forget_value m) s)"
  by (simp add: store_update_def update_wake_def forget_value_def Let_def case_prod_beta
      split: option.split sum.split)

lemma safe_forget: "safe_mutation (forget_value m) = safe_mutation m"
  by (auto simp: safe_mutation_def forget_value_def split: sum.splits prod.splits)

lemma safe_mutations:
  "safe_mutation (m_advance now beats)" "safe_mutation (m_create_agent i name hash)"
  "mac_parse raw = Inr m \<Longrightarrow> safe_mutation (m_create_target now i name (mac_normalized m) hash b)"
  "mac_parse raw = Inr m \<Longrightarrow> safe_mutation (m_update_target i name (mac_normalized m) b)"
  "safe_mutation (m_delete_target i)" "safe_mutation (m_rotate_target i hash)" "safe_mutation (m_revoke i)"
  "safe_mutation (m_stop_helper i expected)" "safe_mutation (m_enable_agent i name hash)"
  "safe_mutation (m_create_request now t_seen a_seen target_id i)" "safe_mutation (m_claim now i)"
  "safe_mutation (m_authorize now aid i)" "safe_mutation (m_result now t_seen aid i phase e)"
  "safe_mutation (m_complete i aid)"
  "mac_valid m \<Longrightarrow> pg_mac q = mac_normalized m \<Longrightarrow> safe_mutation (m_enroll now i hash q)"
  unfolding safe_mutation_def by (blast intro: wake_mutation.intros mac_parse_valid)+

text \<open>
  The contract between the endpoints and whoever relies on the state: a property that survives a
  credential check, a change of the times devices were seen and a safe mutation of the store survives
  every endpoint.
\<close>

locale endpoint_invariant =
  fixes I :: "app_state \<Rightarrow> bool" and p :: string
  assumes auth: "I s \<Longrightarrow> I (s\<lparr>auth_sessions := a\<rparr>)"
    and seen_agents: "I s \<Longrightarrow> I (map_agents f s)"
    and seen_targets: "I s \<Longrightarrow> I (map_targets f s)"
    and unit_update: "I s \<Longrightarrow> sc_tmp c \<noteq> p \<Longrightarrow> safe_mutation (m :: unit mutation) \<Longrightarrow>
      I (snd (store_update c owner m s))"
begin

lemma update: "I s \<Longrightarrow> sc_tmp c \<noteq> p \<Longrightarrow> safe_mutation m \<Longrightarrow> I (snd (store_update c owner m s))"
  using unit_update [of s c "forget_value m" owner] store_update_forget [of c owner m s]
  by (simp add: safe_forget)

lemma caller: "I s \<Longrightarrow> (\<And>u t. I t \<Longrightarrow> I (snd (f u t))) \<Longrightarrow> I (snd (with_account now h f s))"
  by (auto simp: with_account_def account_def authenticated_user_eq intro: auth split: option.split)

lemma update_then:
  assumes "I s" "sc_tmp c \<noteq> p" "safe_mutation m" "\<And>v t. I t \<Longrightarrow> I (snd (g v t))"
  shows "I (snd (case store_update c owner m s of (Inl e, s1) \<Rightarrow> (Inl e, s1) | (Inr v, s1) \<Rightarrow> g v s1))"
  using update [OF assms(1-3), of owner] assms(4) by (auto split: prod.split sum.split)

lemma advancing: "I s \<Longrightarrow> sc_tmp c \<noteq> p \<Longrightarrow> I (snd (advance c owner s))"
  by (auto simp: advance_def Let_def split: option.split intro!: update safe_mutations)

lemma advance_then:
  assumes "I s" "sc_tmp c \<noteq> p" "\<And>v t. I t \<Longrightarrow> I (snd (g v t))"
  shows "I (snd (case advance c owner s of (Inl e, s1) \<Rightarrow> (Inl e, s1) | (Inr v, s1) \<Rightarrow> g v s1))"
  using advancing [OF assms(1,2), of owner] assms(3) by (auto split: prod.split sum.split)

lemma stopping: "I s \<Longrightarrow> sc_tmp c \<noteq> p \<Longrightarrow> I (snd (stop_helper c owner i e s))"
  unfolding stop_helper_def by (auto intro!: update_then safe_mutations seen_agents)

lemma target_endpoints:
  assumes s: "I s" and c: "sc_tmp c \<noteq> p"
  shows "I (snd (targets c h s))" "I (snd (create_target digest c h b i t1 t2 s))"
    "I (snd (update_target c h i b s))" "I (snd (delete_target c h i s))"
    "I (snd (rotate_target digest c h i t1 t2 s))"
    "I (snd (complete_target now c (\<lambda>t. t) h i aid bios s))"
  unfolding targets_def create_target_def update_target_def delete_target_def rotate_target_def
    complete_target_def credential_def Let_def prod.case
  by (rule caller [OF s], auto split: sum.split option.split simp: account_def authenticated_user_eq
        intro!: advance_then update_then update c safe_mutations seen_targets auth)+

lemma seen_endpoints:
  assumes s: "I s"
  shows "I (snd (heartbeat digest now h i s))" "I (snd (agents now h s))"
  by (auto simp: heartbeat_def agents_def s intro: seen_targets caller split: sum.split)

lemma agent_endpoints:
  assumes s: "I s" and c: "sc_tmp c \<noteq> p"
  shows "I (snd (create_agent digest c h name i t1 t2 s))" "I (snd (delete_agent c h i s))" "I (snd (stop_agent c h i s))" "I (snd (enable_agent digest c h i name t1 t2 s))"
    "I (snd (disable_agent digest c h i s))"
  unfolding create_agent_def delete_agent_def revoke_def stop_agent_def enable_agent_def
    credential_def Let_def prod.case
  by (rule caller [OF s], auto split: sum.split intro!: update_then c safe_mutations seen_agents stopping)+
    (auto simp: disable_agent_def s intro: stopping [OF s c] split: sum.split)

lemma request_endpoints:
  assumes s: "I s" and c: "sc_tmp c \<noteq> p"
  shows "sc_tmp c' \<noteq> p \<Longrightarrow> I (snd (create_request c c' h tid i s))"
    "I (snd (request_status c h i s))" "I (snd (history c h tid s))"
    "I (snd (wake_poll_turn digest c h i owner s))" "I (snd (authorize digest c h i s))"
    "I (snd (wake_result_post digest c h i phase err s))"
  unfolding create_request_def request_status_def history_def
  by (rule caller [OF s], auto split: option.split intro!: advance_then update c safe_mutations)+
    (auto simp: wake_poll_turn_def authorize_def wake_result_post_def Let_def s
      split: sum.split intro!: update_then update c safe_mutations)

lemma every_endpoint: "wake_op digest p s s' \<Longrightarrow> I s \<Longrightarrow> I s'"
  by (cases rule: wake_op.cases, assumption)
    (simp_all add: target_endpoints agent_endpoints request_endpoints unit_update advancing seen_agents seen_targets
      seen_endpoints auth authenticated_user_eq)

end

lemma store_update_safe:
  assumes "wake_safe p s" "sc_tmp c \<noteq> p" and "safe_mutation mutation"
  shows "wake_safe p (snd (store_update c owner mutation s))"
proof -
  have k: "users_keyed s" and t: "sc_tmp c \<noteq> user_store_path s" and a: "wi.all_accounts s"
    using assms(1,2) by (auto simp: wake_safe_def accounts_ok_wi)
  have "wi.all_accounts (snd (store_update c owner mutation s))"
    unfolding store_update_def
    by (rule wi.update_wake_keeps [OF k t a]) (use assms(3) wake_mutation_ok in \<open>unfold safe_mutation_def, blast\<close>)
  moreover have "users_keyed (snd (store_update c owner mutation s))"
    "user_store_path (snd (store_update c owner mutation s)) = user_store_path s"
    using k by (auto simp: store_update_def update_wake_cases [OF k t] users_keyed_def Let_def
        split: option.split sum.split prod.split)
  ultimately show ?thesis using assms(1) by (simp add: wake_safe_def accounts_ok_wi)
qed

interpretation ws: endpoint_invariant "wake_safe p" p for p
  by unfold_locales (simp_all add: store_update_safe)

text \<open>
  C24: the endpoints of remote wake keep every account well formed.  Whatever write fails, after any
  endpoint every account has at most 20 targets with distinct devices and valid MAC addresses, at most
  5 agents, well-formed requests, and at most one request under way per target.
\<close>

theorem wake_endpoints_keep_accounts:
  assumes s: "users_keyed s" "accounts_ok s" and c: "sc_tmp c \<noteq> user_store_path s"
    and c': "sc_tmp c' \<noteq> user_store_path s"
  shows "accounts_ok (snd (create_agent digest c h name i t1 t2 s)) \<and>
    accounts_ok (snd (create_target digest c h b i t1 t2 s)) \<and>
    accounts_ok (snd (update_target c h i b s)) \<and>
    accounts_ok (snd (delete_target c h i s)) \<and>
    accounts_ok (snd (rotate_target digest c h i t1 t2 s)) \<and>
    accounts_ok (snd (delete_agent c h i s)) \<and>
    accounts_ok (snd (stop_agent c h i s)) \<and>
    accounts_ok (snd (disable_agent digest c h i s)) \<and>
    accounts_ok (snd (enable_agent digest c h i name t1 t2 s)) \<and>
    accounts_ok (snd (create_request c c' h tid i s)) \<and>
    accounts_ok (snd (wake_poll_turn digest c h i owner s)) \<and>
    accounts_ok (snd (authorize digest c h i s)) \<and>
    accounts_ok (snd (wake_result_post digest c h i phase err s))"
proof -
  have s0: "wake_safe (user_store_path s) s" using s by (simp add: wake_safe_def)
  have ok: "wake_safe (user_store_path s) t \<Longrightarrow> accounts_ok t" for t by (simp add: wake_safe_def)
  show ?thesis
    by (intro conjI; rule ok)
      (rule ws.agent_endpoints [OF s0 c] ws.target_endpoints [OF s0 c] ws.request_endpoints [OF s0 c] c')+
qed

text \<open>A mutation that makes no new request under the id \<open>i\<close> (ids are fresh 128-bit tokens).\<close>

definition keeps_id :: "string \<Rightarrow> wake_account_data \<Rightarrow> wake_account_data \<Rightarrow> bool" where
  "keeps_id i a b \<longleftrightarrow>
     (\<exists>now. wake_mutation now a b \<and> (\<forall>t. new_request now i t \<notin> set (wd_requests b)))"

definition all_authorized :: "string \<Rightarrow> wake_account_data \<Rightarrow> bool" where
  "all_authorized i d \<longleftrightarrow> (\<forall>r \<in> set (wd_requests d). wr_id r = i \<longrightarrow> wr_authorized_at_ms r \<noteq> None)"

lemma new_request_id [simp]: "wr_id (new_request now i t) = i"
  by (simp add: new_request_def)

lemma keeps_id_authorized:
  assumes "keeps_id i a b" "wake_ok a" "all_authorized i a"
  shows "wake_ok b \<and> all_authorized i b"
proof -
  obtain now where mut: "wake_mutation now a b" and new: "\<And>t. new_request now i t \<notin> set (wd_requests b)"
    using assms(1) by (auto simp: keeps_id_def)
  have "wr_authorized_at_ms r' \<noteq> None" if r': "r' \<in> set (wd_requests b)" "wr_id r' = i" for r'
  proof -
    obtain r where "r \<in> set (wd_requests a)" "evolves r r'"
      using mutation_evolves [OF mut assms(2) r'(1)] new r' by (auto simp: continued_def)
    then show ?thesis
      using assms(3) r'(2) by (auto simp: all_authorized_def evolves_def)
  qed
  then show ?thesis using wake_mutation_ok [OF mut assms(2)] by (simp add: all_authorized_def)
qed

lemma authorize_marks:
  assumes "m_authorize now aid i d = Inr (left, d1)" "distinct (map wr_id (wd_requests d))"
  shows "all_authorized i d1"
proof -
  obtain x where x: "List.find (\<lambda>r. wr_id r = i) (wd_requests d) = Some x"
    using assms(1) by (auto simp: m_authorize_def split: if_splits option.splits)
  from update_first_split [OF x] obtain pre post where s:
    "wd_requests d = pre @ x # post" "wr_id x = i"
    "\<And>f. update_first (\<lambda>r. wr_id r = i) f (wd_requests d) = pre @ f x # post" by blast
  have "d1 = d\<lparr>wd_requests := pre @ x\<lparr>wr_authorized_at_ms := Some now\<rparr> # post\<rparr>"
    using assms(1) x by (auto simp: m_authorize_def s(3) split: if_splits)
  moreover have "\<forall>r \<in> set pre \<union> set post. wr_id r \<noteq> i"
    using assms(2) s(2) unfolding s(1) by (auto, (metis imageI)+)
  ultimately show ?thesis by (auto simp: all_authorized_def)
qed

lemma authorized_refuses:
  assumes "all_authorized i d"
  shows "\<exists>e. m_authorize now aid i d = Inl e"
proof (cases "List.find (\<lambda>r. wr_id r = i) (wd_requests d)")
  case (Some r)
  then have "wr_authorized_at_ms r \<noteq> None"
    using assms by (auto simp: all_authorized_def find_Some_iff)
  with Some show ?thesis by (auto simp: m_authorize_def)
qed (simp add: m_authorize_def)

text \<open>
  C23: a request is authorized at most once, so at most one agent broadcasts its magic packet.  After an
  authorization no later one of the same request succeeds, by whichever agent and whenever it asks, even
  if the account goes through any number of other mutations in between.
\<close>

theorem authorize_once:
  assumes auth: "m_authorize now aid i d = Inr (left, d1)" and wf: "wake_ok d"
    and ids: "distinct (map wr_id (wd_requests d))"
    and later: "(keeps_id i)\<^sup>*\<^sup>* d1 d2"
  shows "\<exists>e. m_authorize now' aid' i d2 = Inl e"
proof -
  from later have "wake_ok d2 \<and> all_authorized i d2"
  proof (induction rule: rtranclp_induct)
    case base
    show ?case using wake_ok_authorize [OF wf auth] authorize_marks [OF auth ids] by blast
  next
    case (step a b)
    then show ?case using keeps_id_authorized by blast
  qed
  then show ?thesis using authorized_refuses by blast
qed

section \<open>Witnesses\<close>

text \<open>An account with one helper, one computer and one request the helper has claimed.\<close>

definition demo_mac :: mac_address where
  "demo_mac = MacAddress [2, 0, 0, 0, 0, 1]"

definition demo_target :: wake_target where
  "demo_target = \<lparr>wt_setup_complete = True, wt_id = ''t1'', wt_name = ''desk'', wt_device_id = ''dev1'',
     wt_mac = mac_normalized demo_mac, wt_agent_id = ''a1'', wt_revision = 1, wt_token_hash = ''h'',
     wt_created_at_ms = 500\<rparr>"

definition demo_wake :: wake_account_data where
  "demo_wake = \<lparr>wd_targets = [demo_target],
     wd_agents = [\<lparr>wa_id = ''a1'', wa_name = ''hub'', wa_token_hash = ''h'', wa_enabled = True\<rparr>],
     wd_requests = [(new_request 1000 ''r1'' demo_target)\<lparr>wr_phase := Claimed, wr_claimed_at_ms := Some 1500\<rparr>]\<rparr>"

lemma demo_wake_ok: "wake_ok demo_wake"
proof -
  have "mac_valid demo_mac" by (simp add: mac_valid_def demo_mac_def all_zero_def)
  then show ?thesis
    by (auto simp: wake_ok_def demo_wake_def active_targets_def request_wf_def new_request_def
        demo_target_def)
qed

definition demo_authorized :: wake_account_data where
  "demo_authorized = demo_wake\<lparr>wd_requests :=
     map (\<lambda>r. r\<lparr>wr_authorized_at_ms := Some 2000\<rparr>) (wd_requests demo_wake)\<rparr>"

definition demo_sent :: wake_account_data where
  "demo_sent = demo_authorized\<lparr>wd_requests :=
     map (\<lambda>r. r\<lparr>wr_phase := Sent, wr_sent_at_ms := Some 2500\<rparr>) (wd_requests demo_authorized)\<rparr>"

lemmas demo_wake_defs = demo_sent_def demo_authorized_def demo_wake_def demo_target_def new_request_def
  agent_enabled_def

lemma demo_authorize: "m_authorize 2000 ''a1'' ''r1'' demo_wake = Inr (2000, demo_authorized)"
  by (simp add: m_authorize_def demo_wake_defs)

lemma demo_result:
  "m_result 2500 (\<lambda>_. None) ''a1'' ''r1'' ''sent'' None demo_authorized =
   Inr (hd (wd_requests demo_sent), demo_sent)"
  by (simp add: m_result_def Let_def demo_wake_defs settle_result_def request_advance_def observed_online_def)

lemma wake_mutation_evolves_witness:
  "wake_ok demo_authorized \<and> ((\<exists>r \<in> set (wd_requests demo_wake). evolves r (hd (wd_requests demo_authorized))) \<or>
    (\<exists>t \<in> set (wd_targets demo_wake). \<exists>i. hd (wd_requests demo_authorized) = new_request 2000 i t))"
proof (rule wake_mutation_evolves)
  show "wake_mutation 2000 demo_wake demo_authorized"
    by (rule mu_authorize) (rule demo_authorize)
  show "hd (wd_requests demo_authorized) \<in> set (wd_requests demo_authorized)"
    by (simp add: demo_wake_defs)
qed (rule demo_wake_ok)

lemma authorize_once_witness:
  "\<exists>e. m_authorize 3000 ''a1'' ''r1'' demo_sent = Inl e"
proof (rule authorize_once)
  show "m_authorize 2000 ''a1'' ''r1'' demo_wake = Inr (2000, demo_authorized)"
    by (rule demo_authorize)
  show "distinct (map wr_id (wd_requests demo_wake))"
    by (simp add: demo_wake_defs)
  have "keeps_id ''r1'' demo_authorized demo_sent"
    unfolding keeps_id_def
  proof (intro exI conjI)
    show "wake_mutation 2500 demo_authorized demo_sent"
      by (rule mu_result) (rule demo_result)
  qed (simp add: demo_wake_defs)
  then show "(keeps_id ''r1'')\<^sup>*\<^sup>* demo_authorized demo_sent" ..
qed (rule demo_wake_ok)

definition demo_account :: user_record where
  "demo_account = \<lparr>ur_user_id = ''u1'', ur_username = ''ann'', ur_display_name = ''Ann'',
     ur_password_hash = ''h'', ur_created_at_ms = 100, ur_wake = demo_wake\<rparr>"

definition demo_server :: app_state where
  "demo_server = (app_state_new ''users.json'' (hput ''users.json'' (Users_file [demo_account]) hempty))
     \<lparr>users := hput ''u1'' demo_account hempty\<rparr>"

lemma demo_server_safe:
  "users_keyed demo_server" "accounts_ok demo_server" "''.t'' \<noteq> user_store_path demo_server"
  using demo_wake_ok
  by (auto simp: users_keyed_def accounts_ok_def demo_server_def demo_account_def app_state_new_def
      split: if_splits)

abbreviation demo_call :: store_call where
  "demo_call \<equiv> \<lparr>sc_now = 2000, sc_fault = At_write, sc_tmp = ''.t''\<rparr>"

lemma wake_endpoints_keep_accounts_witness:
  "accounts_ok (snd (create_agent id demo_call hempty ''hub'' ''a2'' ''t1'' ''t2'' demo_server))"
  using wake_endpoints_keep_accounts [OF demo_server_safe(1,2), of demo_call demo_call] demo_server_safe(3)
  by simp

end
