(* ===== verification/Pairing_Props.thy ===== *)
theory Pairing_Props
  imports Pairing_Routes Wake_Props
begin

text \<open>
  Correctness of enrollment: a computer enters an account only through a phone proof and a desktop
  proof presented by that account, and creations and wrong proofs are limited per account.
\<close>

section \<open>The pairings through the other parts of the state\<close>

lemma set_pairings_fields [simp]:
  "pairings (set_pairings rt s) = rt" "users (set_pairings rt s) = users s"
  "auth_sessions (set_pairings rt s) = auth_sessions s"
  "user_store_path (set_pairings rt s) = user_store_path s"
  "pairings (s\<lparr>auth_sessions := a\<rparr>) = pairings s"
  "pairings (while_locked env s) = pairings s"
  by (simp_all add: set_pairings_def while_locked_def)

lemma store_update_wake_rt [simp]: "wake_rt (snd (store_update c owner mutation s)) = wake_rt s"
proof -
  have w: "write_user_snapshot f t us s = (ok, s') \<Longrightarrow> wake_rt s' = wake_rt s" for f t us ok s'
    by (metis file_ops_fields(7) snd_conv)
  show ?thesis
    by (auto simp: store_update_def update_wake_def Let_def dest: w
        split: option.split sum.split prod.split)
qed

lemma with_account_eq:
  "with_account now h f s =
     (let s1 = s\<lparr>auth_sessions := auth_token_touched now (bearer_of h) s\<rparr> in
      case account_ok now h s of None \<Rightarrow> (Inl ''unauthorized'', s1) | Some u \<Rightarrow> f u s1)"
  by (simp add: with_account_def account_def authenticated_user_eq split: option.split)

lemma hget_update_session:
  "hget (prt_sessions (pairings (update_session i f s))) j =
     (if j = i then map_option f (hget (prt_sessions (pairings s)) i)
      else hget (prt_sessions (pairings s)) j)"
  by (auto simp: update_session_def split: option.split)

lemma update_session_limits [simp]:
  "prt_limits (pairings (update_session i f s)) = prt_limits (pairings s)"
  by (simp add: update_session_def split: option.split)

section \<open>Counting the entries of a map\<close>

lemma filter_values_hsum: "length (filter P (hvalues m)) = hsum (\<lambda>v. if P v then 1 else 0) m"
proof -
  have d: "distinct (map fst (hlist m))" by (rule DAList.impl_of_distinct)
  have "hsum (\<lambda>v. if P v then 1 else 0) m = (\<Sum>k \<in> fst ` set (hlist m). if P (the (hget m k)) then 1 else 0)"
    by (simp add: hsum_def hkeys_list)
  also have "\<dots> = (\<Sum>(k, v) \<in> set (hlist m). if P v then 1 else 0)"
    using d by (auto simp: sum.reindex distinct_map case_prod_beta hlist_hget intro!: sum.cong)
  also have "\<dots> = length (filter P (map snd (hlist m)))"
  proof -
    have "distinct xs \<Longrightarrow> (\<Sum>(k, v) \<in> set xs. if P v then 1 else 0) = length (filter P (map snd xs))" for xs
      by (induction xs) (auto simp: case_prod_beta)
    from this [of "hlist m"] d show ?thesis by (simp add: distinct_map)
  qed
  finally show ?thesis by (simp add: hvalues_def)
qed

lemma length_hlist_hsum: "length (hlist m) = hsum (\<lambda>_. 1) m"
  using filter_values_hsum [of "\<lambda>_. True" m] by (simp add: hvalues_def)

lemma filter_values_mono:
  assumes "\<And>k v. hget m k = Some v \<Longrightarrow> P v \<Longrightarrow> \<exists>v'. hget m' k = Some v' \<and> P' v'"
  shows "length (filter P (hvalues m)) \<le> length (filter P' (hvalues m'))"
proof -
  let ?m = "hretain (\<lambda>_. P) m"
  have "length (filter P (hvalues m)) = length (filter (\<lambda>_. True) (hvalues ?m))"
    by (simp add: hvalues_def filter_map comp_def case_prod_beta)
  also have "\<dots> \<le> length (filter P' (hvalues m'))"
    unfolding filter_values_hsum
    by (rule hsum_le) (use assms in \<open>force split: option.splits if_splits\<close>)
  finally show ?thesis .
qed

lemma filter_values_put: "length (filter P (hvalues (hput k v m))) \<le> Suc (length (filter P (hvalues m)))"
proof -
  have "length (filter P (hvalues (hrem k (hput k v m)))) \<le> length (filter P (hvalues m))"
    by (rule filter_values_mono) (auto split: if_splits)
  moreover have "hget (hput k v m) k = Some v" by simp
  from hsum_rem [OF this, of "\<lambda>v. if P v then 1 else 0"]
  have "length (filter P (hvalues (hput k v m))) \<le> Suc (length (filter P (hvalues (hrem k (hput k v m)))))"
    by (simp add: filter_values_hsum del: hget_hput)
  ultimately show ?thesis by linarith
qed

section \<open>The limits of an account\<close>

definition limits_ok :: "pairing_runtime \<Rightarrow> bool" where
  "limits_ok rt \<longleftrightarrow>
     length (hlist (prt_sessions rt)) \<le> 1000 \<and>
     (\<forall>owner. length (filter (pairing_open owner) (hvalues (prt_sessions rt))) \<le> 3) \<and>
     (\<forall>owner l. hget (prt_limits rt) owner = Some l \<longrightarrow> lm_creates l \<le> 6 \<and> lm_failures l \<le> 20) \<and>
     length (hlist (prt_limits rt)) \<le> 2000"

text \<open>A change that opens no session.\<close>

definition fewer_open :: "pairing_runtime \<Rightarrow> pairing_runtime \<Rightarrow> bool" where
  "fewer_open rt rt' \<longleftrightarrow>
     (\<forall>i p'. hget (prt_sessions rt') i = Some p' \<longrightarrow>
        (\<exists>p. hget (prt_sessions rt) i = Some p \<and> (\<forall>owner. pairing_open owner p' \<longrightarrow> pairing_open owner p)))"

lemma fewer_open_counts:
  assumes "fewer_open rt rt'"
  shows "length (hlist (prt_sessions rt')) \<le> length (hlist (prt_sessions rt))"
    "length (filter (pairing_open owner) (hvalues (prt_sessions rt'))) \<le>
     length (filter (pairing_open owner) (hvalues (prt_sessions rt)))"
proof -
  show "length (hlist (prt_sessions rt')) \<le> length (hlist (prt_sessions rt))"
    unfolding length_hlist_hsum
    by (rule hsum_le) (use assms in \<open>fastforce simp: fewer_open_def\<close>)
  show "length (filter (pairing_open owner) (hvalues (prt_sessions rt'))) \<le>
     length (filter (pairing_open owner) (hvalues (prt_sessions rt)))"
    by (rule filter_values_mono) (use assms in \<open>fastforce simp: fewer_open_def\<close>)
qed

lemma limits_ok_fewer:
  "limits_ok rt \<Longrightarrow> fewer_open rt rt' \<Longrightarrow> prt_limits rt' = prt_limits rt \<Longrightarrow> limits_ok rt'"
  using fewer_open_counts [of rt rt'] unfolding limits_ok_def by (simp, meson le_trans)

lemma limits_fresh_ok:
  "length (hlist ls) \<le> n \<Longrightarrow> length (hlist (limits_fresh now ls)) \<le> n"
  by (simp add: limits_fresh_def le_trans [OF length_filter_le])

lemma limits_ok_prune: "limits_ok rt \<Longrightarrow> limits_ok (pairing_prune now rt)"
proof -
  assume ok: "limits_ok rt"
  let ?rt = "rt\<lparr>prt_sessions := hretain (\<lambda>_ p. now < pg_expires p) (prt_sessions rt)\<rparr>"
  have "limits_ok ?rt"
    by (rule limits_ok_fewer [OF ok]) (auto simp: fewer_open_def split: option.splits if_splits)
  then show ?thesis
    unfolding limits_ok_def pairing_prune_def
    by (auto simp: limits_fresh_ok) (auto simp: limits_fresh_def split: option.splits if_splits)
qed

lemma pairing_limit_limits_ok:
  assumes ok: "limits_ok rt" and r: "pairing_limit owner now rt = (r, rt')"
  shows "limits_ok rt' \<and> prt_sessions rt' = prt_sessions rt"
proof -
  let ?ls = "limits_fresh now (prt_limits rt)"
  have fresh: "limits_ok (rt\<lparr>prt_limits := ?ls\<rparr>)"
    using ok unfolding limits_ok_def
    by (auto simp: limits_fresh_ok) (auto simp: limits_fresh_def split: option.splits if_splits)
  show ?thesis
  proof (cases "\<not> hhas ?ls owner \<and> 2000 \<le> length (hlist ?ls)")
    case True
    with r fresh show ?thesis by (auto simp: pairing_limit_def Let_def)
  next
    case False
    let ?l = "hor_default \<lparr>lm_since = now, lm_creates = 0, lm_failures = 0\<rparr> owner ?ls"
    have rt': "rt' = rt\<lparr>prt_limits := hput owner ?l ?ls\<rparr>"
      using r False by (auto simp: pairing_limit_def Let_def)
    have "length (hlist (hput owner ?l ?ls)) \<le> 2000"
    proof (cases "hhas ?ls owner")
      case True
      then have "length (hlist (hput owner ?l ?ls)) \<le> length (hlist ?ls)"
        unfolding length_hlist_hsum by (intro hsum_le) (auto simp: hhas_def split: if_splits)
      with fresh show ?thesis by (simp add: limits_ok_def)
    next
      case no: False
      with False have "length (hlist ?ls) < 2000" by simp
      then show ?thesis
        using filter_values_put [of "\<lambda>_. True" owner ?l ?ls] by (simp add: hvalues_def)
    qed
    then show ?thesis
      unfolding rt' using fresh
      by (auto simp: limits_ok_def hor_default_def split: option.splits)
  qed
qed

lemma pairing_limit_again:
  assumes "pairing_limit owner now rt = (Inr l, rt1)"
  shows "fst (pairing_limit owner now rt1) = Inr l"
proof -
  have l: "hget (prt_limits rt1) owner = Some l" "now - lm_since l < TTL"
    using pairing_limit_ok [OF assms] by auto
  then have "hget (limits_fresh now (prt_limits rt1)) owner = Some l"
    by (simp add: limits_fresh_def)
  then show ?thesis by (simp add: pairing_limit_def Let_def hhas_def hor_default_def)
qed

lemma word_Suc_le: "(x :: u8) < n \<Longrightarrow> x + 1 \<le> n"
  by (simp add: inc_le)

lemma limits_ok_set_limit:
  assumes "limits_ok rt" "hget (prt_limits rt) owner \<noteq> None" "lm_creates l \<le> 6" "lm_failures l \<le> 20"
  shows "limits_ok (set_limit owner l rt)"
proof -
  have "length (hlist (hput owner l (prt_limits rt))) \<le> length (hlist (prt_limits rt))"
    unfolding length_hlist_hsum using assms(2) by (intro hsum_le) (auto split: if_splits)
  then show ?thesis using assms by (auto simp: limits_ok_def set_limit_def)
qed

section \<open>What each handler does to the sessions\<close>

text \<open>A session only gains a confirmation, a claim or a cancellation.\<close>

definition sessions :: "app_state \<Rightarrow> (string, pairing) hmap" where
  "sessions s = prt_sessions (pairings s)"

lemma sessions_simps [simp]:
  "sessions (set_pairings rt s) = prt_sessions rt"
  "sessions (while_locked env s) = sessions s"
  "prt_sessions (set_limit owner l rt) = prt_sessions rt"
  by (simp_all add: sessions_def set_limit_def)

lemma hget_update [simp]:
  "hget (sessions (update_session i f s)) j =
     (if j = i then map_option f (hget (sessions s) i) else hget (sessions s) j)"
  by (simp add: sessions_def hget_update_session)

lemma pairing_valid_Inr:
  "pairing_valid digest now owner p s = Inr u \<longleftrightarrow>
     pg_owner p = owner \<and> now < pg_expires p \<and> \<not> pg_cancelled p \<and> creator_valid digest now p s"
  by (auto simp: pairing_valid_def)

lemma phone_found_Some:
  "phone_found digest owner i b rt = Some (j, p) \<Longrightarrow>
     hget (prt_sessions rt) j = Some p \<and> pg_owner p = owner \<and> phone_matches digest p b \<and>
     (\<forall>k. i = Some k \<longrightarrow> j = k)"
  by (auto simp: phone_found_def find_Some_iff hlist_hget [symmetric] split: option.splits if_splits)
    (metis fst_conv nth_mem snd_conv)+

lemma phone_session_effect:
  assumes r: "phone_session digest now owner i b s = (r, s')"
  shows "sessions s' = sessions s" and "limits_ok (pairings s) \<Longrightarrow> limits_ok (pairings s')"
    and "r = Inr (j, p) \<Longrightarrow> hget (sessions s) j = Some p \<and> phone_matches digest p b \<and>
      pg_owner p = owner \<and> now < pg_expires p \<and> \<not> pg_cancelled p \<and> (\<forall>k. i = Some k \<longrightarrow> j = k)"
proof -
  obtain rl rt where l: "pairing_limit owner now (pairings s) = (rl, rt)" by fastforce
  have rt: "prt_sessions rt = prt_sessions (pairings s)" "limits_ok (pairings s) \<Longrightarrow> limits_ok rt"
    using pairing_limit_limits_ok [OF _ l] l
    by (auto simp: pairing_limit_def Let_def split: if_splits)
  consider (err) e where "rl = Inl e" "s' = set_pairings rt s" "r = Inl e"
    | (full) l0 where "rl = Inr l0" "s' = set_pairings rt s" "r = Inl ''rate_limited''"
    | (good) l0 k q where "rl = Inr l0" "s' = set_pairings rt s" "r = Inr (k, q)"
        "phone_found digest owner i b rt = Some (k, q)" "now < pg_expires q" "\<not> pg_cancelled q"
    | (wrong) l0 rt2 e where "rl = Inr l0" "lm_failures l0 < 20" "pairing_limit owner now rt = (Inr l0, rt2)"
        "s' = set_pairings (set_limit owner (l0\<lparr>lm_failures := lm_failures l0 + 1\<rparr>) rt2) s" "r = Inl e"
  proof (cases rl)
    case (Inl e)
    with r l err show ?thesis by (simp add: phone_session_def)
  next
    case (Inr l0)
    from l Inr have "fst (pairing_limit owner now rt) = Inr l0" by (simp add: pairing_limit_again)
    then obtain rt2 where l2: "pairing_limit owner now rt = (Inr l0, rt2)" by (cases "pairing_limit owner now rt") auto
    from r l Inr l2 full good wrong show ?thesis
      by (auto simp: phone_session_def Let_def pairing_valid_Inr set_pairings_def
          split: if_splits option.splits sum.splits)
  qed
  note cs = this
  show "sessions s' = sessions s"
    using cs
  proof cases
    case (wrong l0 rt2 e)
    from pairing_limit_ok(2) [OF wrong(3)] rt wrong show ?thesis by (simp add: sessions_def)
  qed (use rt in \<open>simp_all add: sessions_def\<close>)
  show "limits_ok (pairings s')" if ok: "limits_ok (pairings s)"
    using cs
  proof cases
    case (wrong l0 rt2 e)
    note ok2 = pairing_limit_limits_ok [OF rt(2) [OF ok] wrong(3), THEN conjunct1]
    have "lm_creates l0 \<le> 6" using ok2 pairing_limit_ok(1) [OF wrong(3)] by (auto simp: limits_ok_def)
    with wrong ok2 pairing_limit_ok(1) [OF wrong(3)] show ?thesis
      by (simp add: limits_ok_set_limit word_Suc_le)
  qed (use rt ok in simp_all)
  show "hget (sessions s) j = Some p \<and> phone_matches digest p b \<and>
      pg_owner p = owner \<and> now < pg_expires p \<and> \<not> pg_cancelled p \<and> (\<forall>k. i = Some k \<longrightarrow> j = k)"
    if "r = Inr (j, p)"
    using cs
  proof cases
    case (good l0 k q)
    with that phone_found_Some [OF good(4)] rt show ?thesis by (simp add: sessions_def)
  qed (use that in simp_all)
qed

lemma fewer_open_sessions:
  assumes "limits_ok (pairings s)" "prt_limits (pairings s') = prt_limits (pairings s)"
    and "\<And>i p'. hget (sessions s') i = Some p' \<Longrightarrow>
      \<exists>p. hget (sessions s) i = Some p \<and> (\<forall>owner. pairing_open owner p' \<longrightarrow> pairing_open owner p)"
  shows "limits_ok (pairings s')"
  by (rule limits_ok_fewer [OF assms(1)]) (use assms(2,3) in \<open>auto simp: fewer_open_def sessions_def\<close>)

lemma update_session_limits_ok:
  assumes "limits_ok (pairings s)" "\<And>p owner. pairing_open owner (f p) \<Longrightarrow> pairing_open owner p"
  shows "limits_ok (pairings (update_session i f s))"
  by (rule fewer_open_sessions [OF assms(1)]) (use assms(2) in \<open>auto split: if_splits\<close>)

lemma confirm_locked_effect:
  assumes "confirm_locked digest now owner i b s = (r, s')"
  shows "limits_ok (pairings s) \<Longrightarrow> limits_ok (pairings s')"
    and "(\<exists>e. r = Inl e) \<and> sessions s' = sessions s \<or>
      (\<exists>p s1. hget (sessions s) i = Some p \<and> phone_matches digest p b \<and> pg_owner p = owner \<and>
         now < pg_expires p \<and> \<not> pg_cancelled p \<and> pg_claimed p = None \<and> sessions s1 = sessions s \<and>
         r = Inr (summary now i (p\<lparr>pg_confirmed := True\<rparr>)) \<and>
         s' = update_session i (\<lambda>p. p\<lparr>pg_confirmed := True\<rparr>) s1)"
proof -
  obtain rp s1 where ps: "phone_session digest now owner (Some i) b s = (rp, s1)" by fastforce
  note ef = phone_session_effect [OF ps]
  show "limits_ok (pairings s) \<Longrightarrow> limits_ok (pairings s')"
    using assms ps ef(2)
    by (auto simp: confirm_locked_def pairing_open_def split: sum.splits if_splits
        intro!: update_session_limits_ok)
  show "(\<exists>e. r = Inl e) \<and> sessions s' = sessions s \<or>
      (\<exists>p s1. hget (sessions s) i = Some p \<and> phone_matches digest p b \<and> pg_owner p = owner \<and>
         now < pg_expires p \<and> \<not> pg_cancelled p \<and> pg_claimed p = None \<and> sessions s1 = sessions s \<and>
         r = Inr (summary now i (p\<lparr>pg_confirmed := True\<rparr>)) \<and>
         s' = update_session i (\<lambda>p. p\<lparr>pg_confirmed := True\<rparr>) s1)"
  proof (cases rp)
    case (Inl e)
    with assms ps ef(1) show ?thesis by (auto simp: confirm_locked_def)
  next
    case (Inr jp)
    obtain j p where jp: "jp = (j, p)" by fastforce
    with Inr assms ps ef(1) ef(3) [of j p] show ?thesis
      by (auto simp: confirm_locked_def split: if_splits)
  qed
qed

lemma desktop_session_Inr:
  "desktop_session digest now owner i proof s = Inr p \<longleftrightarrow>
     hget (sessions s) i = Some p \<and> pg_owner p = owner \<and> valid_proof proof \<and>
     digest proof = pg_desktop_hash p \<and> now < pg_expires p \<and> \<not> pg_cancelled p \<and>
     creator_valid digest now p s"
  by (auto simp: desktop_session_def pairing_valid_def sessions_def split: option.splits sum.splits if_splits)

lemma cancel_locked_effect:
  assumes "cancel_locked digest now owner i proof s = (r, s')"
  shows "s' = s \<or> (\<exists>p. hget (sessions s) i = Some p \<and> pg_claimed p = None \<and>
    s' = update_session i (\<lambda>p. p\<lparr>pg_cancelled := True\<rparr>) s)"
  using assms by (auto simp: cancel_locked_def desktop_session_Inr split: sum.splits if_splits)

lemma enroll_sessions:
  assumes "enroll digest c h owner tid hash p s = (r, s')"
  shows "pairings s' = pairings s"
    and "r = Inr () \<Longrightarrow> \<not> pg_cancelled p \<and> sc_now c < pg_expires p \<and> creator_valid digest (sc_now c) p s \<and>
      account_ok (sc_now c) h s \<noteq> None"
proof -
  have "wake_rt s' = wake_rt s"
  proof -
    have "store_update c owner m t = (x, t') \<Longrightarrow> wake_rt t' = wake_rt t" for m :: "unit mutation" and t x t'
      by (metis snd_conv store_update_wake_rt)
    then show ?thesis
      using assms
      by (auto simp: enroll_def account_def authenticated_user_eq split: if_splits sum.splits option.splits)
  qed
  then show "pairings s' = pairings s" by simp
  show "r = Inr () \<Longrightarrow> \<not> pg_cancelled p \<and> sc_now c < pg_expires p \<and> creator_valid digest (sc_now c) p s \<and>
      account_ok (sc_now c) h s \<noteq> None"
    using assms
    by (auto simp: enroll_def pairing_valid_Inr account_def authenticated_user_eq
        split: if_splits sum.splits option.splits)
qed

lemma enrolled_sessions:
  "enroll digest c h owner tid hash p (while_locked env s) = (r, s1) \<Longrightarrow> sessions s1 = sessions s"
  using enroll_sessions(1) by (fastforce simp: sessions_def)

text \<open>A first claim of a session, as opposed to a repetition that changes nothing.\<close>

lemma claim_locked_effect:
  assumes "claim_locked digest now c env h target_id owner i proof token s = (r, s')"
  shows "limits_ok (pairings s) \<Longrightarrow> limits_ok (pairings s')"
    and "(\<exists>e. r = Inl e) \<and> sessions s' = sessions s \<or>
      (\<exists>p. hget (sessions s) i = Some p \<and> pg_owner p = owner \<and> digest proof = pg_desktop_hash p \<and>
         now < pg_expires p \<and> \<not> pg_cancelled p \<and> pg_confirmed p \<and>
         (s' = s \<and> (\<exists>tid. r = Inr tid \<and> pg_claimed p = Some (tid, digest token)) \<or>
          pg_claimed p = None \<and> r = Inr target_id \<and>
          (\<exists>s1. enroll digest c h owner target_id (digest token) p (while_locked env s) = (Inr (), s1) \<and>
             s' = update_session i (\<lambda>p. p\<lparr>pg_claimed := Some (target_id, digest token)\<rparr>) s1)))"
proof -
  have eq: "limits_ok (pairings s1) = limits_ok (pairings s)" "sessions s1 = sessions s"
    if "enroll digest c h owner target_id hash p (while_locked env s) = (x, s1)" for x hash p s1
    using enroll_sessions(1) [OF that] by (simp_all add: sessions_def)
  show "limits_ok (pairings s) \<Longrightarrow> limits_ok (pairings s')"
    using assms
    by (auto simp: claim_locked_def Let_def pairing_open_def eq
        split: sum.splits prod.splits if_splits option.splits intro!: update_session_limits_ok)
  show "(\<exists>e. r = Inl e) \<and> sessions s' = sessions s \<or>
      (\<exists>p. hget (sessions s) i = Some p \<and> pg_owner p = owner \<and> digest proof = pg_desktop_hash p \<and>
         now < pg_expires p \<and> \<not> pg_cancelled p \<and> pg_confirmed p \<and>
         (s' = s \<and> (\<exists>tid. r = Inr tid \<and> pg_claimed p = Some (tid, digest token)) \<or>
          pg_claimed p = None \<and> r = Inr target_id \<and>
          (\<exists>s1. enroll digest c h owner target_id (digest token) p (while_locked env s) = (Inr (), s1) \<and>
             s' = update_session i (\<lambda>p. p\<lparr>pg_claimed := Some (target_id, digest token)\<rparr>) s1)))"
  proof (cases "desktop_session digest now owner i proof s")
    case (Inl e)
    with assms show ?thesis by (auto simp: claim_locked_def)
  next
    case (Inr p)
    show ?thesis
    proof (cases "pg_claimed p")
      case None
      obtain x s1 where en: "enroll digest c h owner target_id (digest token) p (while_locked env s) = (x, s1)"
        by fastforce
      with assms Inr None eq(2) [OF en] show ?thesis
        by (cases x) (auto simp: claim_locked_def desktop_session_Inr split: if_splits)
    next
      case (Some q)
      with assms Inr show ?thesis
        by (auto simp: claim_locked_def desktop_session_Inr Let_def split: if_splits option.splits prod.splits)
    qed
  qed
qed

lemma create_locked_cases:
  assumes "create_locked digest now rnd h owner name dev mac s = (r, s')"
  obtains (fail) e x rt where "pairing_limit owner now (pairing_prune now (pairings s)) = (x, rt)"
      "s' = set_pairings rt s" "r = Inl e"
  | (new) l rt rt2 i p x where
      "pairing_limit owner now (pairing_prune now (pairings s)) = (Inr l, rt)"
      "pairing_limit owner now rt = (Inr l, rt2)" "lm_creates l < 6"
      "length (hlist (prt_sessions rt)) < 1000"
      "length (filter (pairing_open owner) (hvalues (prt_sessions rt))) < 3"
      "\<not> pg_confirmed p" "pg_claimed p = None" "pg_owner p = owner" "pg_expires p = now + TTL"
      "r = Inr x" "of_id x = i"
      "s' = set_pairings ((set_limit owner (l\<lparr>lm_creates := lm_creates l + 1\<rparr>) rt2)
              \<lparr>prt_sessions := hput i p (prt_sessions rt2)\<rparr>) s" "pg_mac p = mac"
proof -
  obtain rl rt where l: "pairing_limit owner now (pairing_prune now (pairings s)) = (rl, rt)" by fastforce
  show ?thesis
  proof (cases rl)
    case (Inl e)
    with assms l have "s' = set_pairings rt s" "r = Inl e" by (auto simp: create_locked_def)
    with l fail show ?thesis by blast
  next
    case I: (Inr l0)
    with l have "fst (pairing_limit owner now rt) = Inr l0" by (simp add: pairing_limit_again)
    then obtain rt2 where l2: "pairing_limit owner now rt = (Inr l0, rt2)"
      by (cases "pairing_limit owner now rt") auto
    have idem: "set_pairings a (set_pairings b s) = set_pairings a s" for a b
      by (simp add: set_pairings_def)
    let ?full = "6 \<le> lm_creates l0 \<or> 1000 \<le> length (hlist (prt_sessions rt)) \<or>
        3 \<le> length (filter (pairing_open owner) (hvalues (prt_sessions rt)))"
    consider (full) ?full
      | (bad) "\<not> ?full" "rn_id rnd = None \<or> rn_qr rnd = None \<or> rn_desktop rnd = None \<or> rn_manual rnd = None \<or>
           (\<exists>e. wake_bearer h = Inl e)"
      | (go) a b c d token where "\<not> ?full" "rn_id rnd = Some a" "rn_qr rnd = Some b"
          "rn_desktop rnd = Some c" "rn_manual rnd = Some d" "wake_bearer h = Inr token"
      by (cases "rn_id rnd"; cases "rn_qr rnd"; cases "rn_desktop rnd"; cases "rn_manual rnd";
          cases "wake_bearer h") blast+
    then show ?thesis
    proof cases
      case full
      with assms l I have "s' = set_pairings rt s" "r = Inl ''rate_limited''"
        by (auto simp: create_locked_def Let_def)
      with l fail show ?thesis by blast
    next
      case bad
      with assms l I have "s' = set_pairings rt s \<and> (\<exists>e. r = Inl e)"
        unfolding create_locked_def Let_def by (auto split: option.splits sum.splits)
      with l fail show ?thesis by blast
    next
      case go
      define p where "p = \<lparr>pg_owner = owner, pg_creator = digest token, pg_name = name,
          pg_device_id = dev, pg_mac = mac, pg_qr_hash = digest (hex_of b),
          pg_desktop_hash = digest (hex_of c), pg_manual_hash = digest (manual_of d),
          pg_expires = now + TTL, pg_confirmed = False, pg_cancelled = False, pg_claimed = None\<rparr>"
      show ?thesis
      proof (cases "pairing_valid digest now owner p (set_pairings rt s)")
        case (Inl e)
        with assms l I go have "s' = set_pairings rt s" "r = Inl e"
          by (auto simp: create_locked_def Let_def p_def)
        with l fail show ?thesis by blast
      next
        case ok: (Inr v)
        have "s' = set_pairings ((set_limit owner (l0\<lparr>lm_creates := lm_creates l0 + 1\<rparr>) rt2)
              \<lparr>prt_sessions := hput (hex_of a) p (prt_sessions rt2)\<rparr>) s"
          and r: "r = Inr \<lparr>of_id = hex_of a, of_qr_proof = hex_of b, of_desktop_proof = hex_of c,
                       of_manual_code = manual_of d, of_expires_at_ms = now + TTL\<rparr>"
          using assms l I go ok l2
          by (auto simp: create_locked_def Let_def p_def idem set_limit_def)
        with go(1) show ?thesis
          by (intro new [OF l [unfolded I] l2 _ _ _ _ _ _ _ r]) (auto simp: p_def not_le)
      qed
    qed
  qed
qed

lemma create_locked_effect:
  assumes "create_locked digest now rnd h owner name dev mac s = (r, s')"
  shows "limits_ok (pairings s) \<Longrightarrow> limits_ok (pairings s')"
    and "hget (sessions s') i = Some p \<Longrightarrow>
      hget (sessions s) i = Some p \<or> \<not> pg_confirmed p \<and> pg_claimed p = None \<and> pg_mac p = mac"
proof -
  have pr: "hget (prt_sessions (pairing_prune now (pairings s))) i = Some p \<Longrightarrow> hget (sessions s) i = Some p" for i p
    by (auto simp: pairing_prune_def sessions_def split: option.splits if_splits)
  show "hget (sessions s') i = Some p \<Longrightarrow>
      hget (sessions s) i = Some p \<or> \<not> pg_confirmed p \<and> pg_claimed p = None \<and> pg_mac p = mac"
    using assms
  proof (cases rule: create_locked_cases)
    case (fail e x rt)
    then have "prt_sessions rt = prt_sessions (pairing_prune now (pairings s))"
      by (auto simp: pairing_limit_def Let_def split: if_splits)
    with fail pr show "hget (sessions s') i = Some p \<Longrightarrow> ?thesis" by simp
  next
    case (new l rt rt2 j q x)
    have "prt_sessions rt2 = prt_sessions (pairing_prune now (pairings s))"
      using pairing_limit_ok(2) [OF new(1)] pairing_limit_ok(2) [OF new(2)] by simp
    with new pr show "hget (sessions s') i = Some p \<Longrightarrow> ?thesis" by (auto split: if_splits)
  qed
  show "limits_ok (pairings s')" if ok: "limits_ok (pairings s)"
    using assms
  proof (cases rule: create_locked_cases)
    case (fail e x rt)
    with pairing_limit_limits_ok [OF limits_ok_prune [OF ok] fail(1)] show ?thesis by simp
  next
    case (new l rt rt2 j q x)
    note ok1 = pairing_limit_limits_ok [OF limits_ok_prune [OF ok] new(1), THEN conjunct1]
    note ok2 = pairing_limit_limits_ok [OF ok1 new(2)]
    have l: "hget (prt_limits rt2) owner = Some l" by (rule pairing_limit_ok(1) [OF new(2)])
    then have "lm_failures l \<le> 20" using ok2 by (auto simp: limits_ok_def)
    with l new(3) ok2 have ok3: "limits_ok (set_limit owner (l\<lparr>lm_creates := lm_creates l + 1\<rparr>) rt2)"
      by (intro limits_ok_set_limit) (simp_all add: word_Suc_le)
    have sz: "length (hlist (hput j q (prt_sessions rt2))) \<le> 1000"
      using filter_values_put [of "\<lambda>_. True" j q "prt_sessions rt2"] new(4) ok2 by (simp add: hvalues_def)
    have "length (filter (pairing_open o') (hvalues (hput j q (prt_sessions rt2)))) \<le> 3" for o'
    proof (cases "o' = owner")
      case True
      with filter_values_put [of "pairing_open owner" j q "prt_sessions rt2"] new(5) ok2
      show ?thesis by simp
    next
      case False
      with new(8) have "length (filter (pairing_open o') (hvalues (hput j q (prt_sessions rt2)))) \<le>
          length (filter (pairing_open o') (hvalues (prt_sessions rt2)))"
        by (intro filter_values_mono) (auto simp: pairing_open_def split: if_splits)
      also have "\<dots> \<le> 3" using ok2 unfolding limits_ok_def by blast
      finally show ?thesis .
    qed
    with ok3 sz show ?thesis using new(12) by (simp add: limits_ok_def)
  qed
qed

section \<open>Histories\<close>

text \<open>
  What the server accepted, newest first: an authenticated account's phone proof for a session, and an
  authenticated account's first claim of a session with a desktop proof and the new target's token.
\<close>

datatype pairing_event =
  Phone_confirmed string string phone_proof
| Desktop_claimed string string string string string

inductive pairing_trace :: "(string \<Rightarrow> string) \<Rightarrow> pairing_event list \<Rightarrow> app_state \<Rightarrow> bool"
  for digest where
  tr_start: "pairings s = pairing_default \<Longrightarrow> pairing_trace digest [] s"
| tr_other: "pairing_trace digest tr s \<Longrightarrow> pairings s' = pairings s \<Longrightarrow> pairing_trace digest tr s'"
| tr_create: "pairing_trace digest tr s \<Longrightarrow>
    create_locked digest now rnd h owner name dev mac s = (r, s') \<Longrightarrow> pairing_trace digest tr s'"
| tr_resolve: "pairing_trace digest tr s \<Longrightarrow> phone_session digest now owner i b s = (r, s') \<Longrightarrow>
    pairing_trace digest tr s'"
| tr_confirm: "pairing_trace digest tr s \<Longrightarrow> confirm_locked digest now owner i b s = (Inr v, s') \<Longrightarrow>
    pairing_trace digest (Phone_confirmed owner i b # tr) s'"
| tr_not_confirmed: "pairing_trace digest tr s \<Longrightarrow> confirm_locked digest now owner i b s = (Inl e, s') \<Longrightarrow>
    pairing_trace digest tr s'"
| tr_claim: "pairing_trace digest tr s \<Longrightarrow>
    claim_locked digest now c env h target_id owner i proof token s = (Inr tid, s') \<Longrightarrow>
    pairing_trace digest (Desktop_claimed owner i proof token tid # tr) s'"
| tr_not_claimed: "pairing_trace digest tr s \<Longrightarrow>
    claim_locked digest now c env h target_id owner i proof token s = (Inl e, s') \<Longrightarrow>
    pairing_trace digest tr s'"
| tr_cancel: "pairing_trace digest tr s \<Longrightarrow> cancel_locked digest now owner i proof s = (r, s') \<Longrightarrow>
    pairing_trace digest tr s'"
| tr_cancel_all: "pairing_trace digest tr s \<Longrightarrow> pairing_trace digest tr (cancel_all_locked owner creator s)"
| tr_sweep: "pairing_trace digest tr s \<Longrightarrow>
    pairing_trace digest tr (set_pairings (pairing_prune now (pairings s)) s)"

text \<open>What the record of a session says about the history.\<close>

definition session_explained :: "(string \<Rightarrow> string) \<Rightarrow> pairing_event list \<Rightarrow> string \<Rightarrow> pairing \<Rightarrow> bool" where
  "session_explained digest tr i p \<longleftrightarrow>
     (pg_confirmed p \<longrightarrow> (\<exists>b. Phone_confirmed (pg_owner p) i b \<in> set tr \<and> phone_matches digest p b)) \<and>
     (\<forall>tid hash. pg_claimed p = Some (tid, hash) \<longrightarrow>
        pg_confirmed p \<and> \<not> pg_cancelled p \<and>
        (\<exists>proof token. Desktop_claimed (pg_owner p) i proof token tid \<in> set tr \<and>
           digest proof = pg_desktop_hash p \<and> digest token = hash))"

lemma explained_more: "session_explained digest tr i p \<Longrightarrow> session_explained digest (e # tr) i p"
  unfolding session_explained_def by (metis list.set_intros(2))

lemma matches_fields [simp]:
  "phone_matches digest (p\<lparr>pg_confirmed := c\<rparr>) b = phone_matches digest p b"
  "phone_matches digest (p\<lparr>pg_claimed := q\<rparr>) b = phone_matches digest p b"
  "phone_matches digest (p\<lparr>pg_cancelled := c\<rparr>) b = phone_matches digest p b"
  by (simp_all add: phone_matches_def split: option.split)

lemma trace_limits: "pairing_trace digest tr s \<Longrightarrow> limits_ok (pairings s)"
proof (induction rule: pairing_trace.induct)
  case (tr_start s)
  then show ?case by (simp add: limits_ok_def pairing_default_def hvalues_def)
next
  case (tr_cancel tr s now owner i pf r s')
  with cancel_locked_effect [OF tr_cancel(2)] show ?case
    by (auto simp: pairing_open_def intro: update_session_limits_ok)
next
  case (tr_cancel_all tr s owner creator)
  show ?case
    by (rule fewer_open_sessions [OF tr_cancel_all(2)])
      (auto simp: cancel_all_locked_def pairing_open_def sessions_def split: if_splits)
next
  case (tr_sweep tr s now)
  then show ?case by (simp add: limits_ok_prune)
qed (use create_locked_effect(1) phone_session_effect(2) confirm_locked_effect(1) claim_locked_effect(1)
    in metis)+

text \<open>One session changes and the others stay: what is left to show is about that session.\<close>

lemma explained_update:
  assumes old: "\<And>k p. hget (sessions s) k = Some p \<Longrightarrow> session_explained digest tr k p"
    and q: "hget (sessions s) j = Some q" and s': "\<And>k. hget (sessions s') k = (if k = j then Some (f q) else hget (sessions s) k)"
    and new: "session_explained digest tr j q \<Longrightarrow> session_explained digest (e # tr) j (f q)"
    and p: "hget (sessions s') i = Some p"
  shows "session_explained digest (e # tr) i p"
proof (cases "i = j")
  case True
  with p s' new [OF old [OF q]] show ?thesis by simp
next
  case False
  with p s' have "hget (sessions s) i = Some p" by simp
  from explained_more [OF old [OF this]] show ?thesis .
qed

lemma trace_explained:
  "pairing_trace digest tr s \<Longrightarrow> hget (sessions s) i = Some p \<Longrightarrow> session_explained digest tr i p"
proof (induction arbitrary: i p rule: pairing_trace.induct)
  case (tr_start s)
  then show ?case by (simp add: sessions_def pairing_default_def)
next
  case (tr_other tr s s')
  then show ?case by (simp add: sessions_def)
next
  case (tr_create tr s now rnd h owner name dev mac r s')
  from create_locked_effect(2) [OF tr_create(2,4)] tr_create(3) show ?case
    by (auto simp: session_explained_def)
next
  case (tr_resolve tr s now owner i b r s')
  with phone_session_effect(1) [OF tr_resolve(2)] show ?case by simp
next
  case (tr_confirm tr s now owner j b v s')
  from confirm_locked_effect(2) [OF tr_confirm(2)] obtain q s1 where
    q: "hget (sessions s) j = Some q" "phone_matches digest q b" "pg_owner q = owner"
      "pg_claimed q = None" "sessions s1 = sessions s"
      "s' = update_session j (\<lambda>p. p\<lparr>pg_confirmed := True\<rparr>) s1" by auto
  show ?case
    by (rule explained_update [OF tr_confirm(3) q(1) _ _ tr_confirm(4), where f = "\<lambda>p. p\<lparr>pg_confirmed := True\<rparr>"])
      (use q in \<open>auto simp: session_explained_def\<close>)
next
  case (tr_not_confirmed tr s now owner i b e s')
  from confirm_locked_effect(2) [OF tr_not_confirmed(2)] tr_not_confirmed show ?case by simp
next
  case (tr_claim tr s now c env h target_id owner j pf token tid s')
  from claim_locked_effect(2) [OF tr_claim(2)] obtain q where
    q: "hget (sessions s) j = Some q" "pg_owner q = owner" "digest pf = pg_desktop_hash q"
      "\<not> pg_cancelled q" "pg_confirmed q"
    and step: "s' = s \<or> (\<exists>s1. sessions s1 = sessions s \<and> tid = target_id \<and>
        s' = update_session j (\<lambda>p. p\<lparr>pg_claimed := Some (target_id, digest token)\<rparr>) s1)"
    using enrolled_sessions by (simp, blast)
  from step show ?case
  proof
    assume "s' = s"
    with explained_more [OF tr_claim(3)] tr_claim(4) show ?thesis by blast
  next
    assume "\<exists>s1. sessions s1 = sessions s \<and> tid = target_id \<and>
        s' = update_session j (\<lambda>p. p\<lparr>pg_claimed := Some (target_id, digest token)\<rparr>) s1"
    then show ?thesis
      by (intro explained_update [OF tr_claim(3) q(1) _ _ tr_claim(4),
            where f = "\<lambda>p. p\<lparr>pg_claimed := Some (tid, digest token)\<rparr>"])
        (use q in \<open>auto simp: session_explained_def\<close>)
  qed
next
  case (tr_not_claimed tr s now c env h target_id owner i pf token e s')
  from claim_locked_effect(2) [OF tr_not_claimed(2)] tr_not_claimed show ?case by auto
next
  case (tr_cancel tr s now owner j pf r s')
  from cancel_locked_effect [OF tr_cancel(2)] tr_cancel(3,4) show ?case
    by (fastforce simp: session_explained_def split: if_splits)
next
  case (tr_cancel_all tr s owner creator)
  then obtain q where q: "hget (sessions s) i = Some q" and
    p: "p = (if pg_owner q = owner \<and> pg_creator q = creator \<and> pg_claimed q = None
             then q\<lparr>pg_cancelled := True\<rparr> else q)"
    by (auto simp: cancel_all_locked_def sessions_def)
  from tr_cancel_all(2) [OF q] show ?case unfolding p by (auto simp: session_explained_def)
next
  case (tr_sweep tr s now)
  then show ?case
    by (auto simp: pairing_prune_def sessions_def split: option.splits if_splits)
qed

section \<open>The properties\<close>


text \<open>
  C27: resources per account are bounded.  Over every history there are at most 1000 sessions and 2000
  counters; an account has at most 3 sessions waiting for a claim, and its counters stay within 6
  creations and 20 wrong proofs, so their \<open>u8\<close> never wraps.
\<close>

theorem pairing_bounds:
  assumes "pairing_trace digest tr s"
  shows "length (hlist (prt_sessions (pairings s))) \<le> 1000 \<and>
    length (hlist (prt_limits (pairings s))) \<le> 2000 \<and>
    length (filter (pairing_open owner) (hvalues (prt_sessions (pairings s)))) \<le> 3 \<and>
    (\<forall>l. hget (prt_limits (pairings s)) owner = Some l \<longrightarrow>
       unat (lm_creates l) \<le> 6 \<and> unat (lm_failures l) \<le> 20)"
proof -
  have "unat a \<le> 6" if "a \<le> 6" for a :: u8 using that by (simp add: word_le_nat_alt)
  moreover have "unat a \<le> 20" if "a \<le> 20" for a :: u8 using that by (simp add: word_le_nat_alt)
  ultimately show ?thesis
    using trace_limits [OF assms] by (auto simp: limits_ok_def)
qed


section \<open>Witnesses\<close>

text \<open>The desktop of \<open>u1\<close> opens a session, the phone confirms it by manual code, the desktop claims it.\<close>

definition demo_randoms :: random_bytes where
  "demo_randoms = \<lparr>rn_id = Some (replicate 16 0), rn_qr = Some (replicate 32 0),
     rn_desktop = Some (replicate 32 1), rn_manual = Some (replicate 16 0)\<rparr>"

definition demo_headers :: header_map where
  "demo_headers = hput ''authorization'' ''Bearer tok'' hempty"

definition demo_signed_in :: app_state where
  "demo_signed_in = demo_server\<lparr>auth_sessions :=
     hput ''tok'' \<lparr>au_user_id = ''u1'', au_last_seen_ms = 1000\<rparr> hempty\<rparr>"

definition demo_open :: "pairing_offer wake_result \<times> app_state" where
  "demo_open = create_locked id 1000 demo_randoms demo_headers ''u1'' ''den'' ''dev9'' ''02:00:00:00:00:01''
     demo_signed_in"

abbreviation demo_id :: string where "demo_id \<equiv> replicate 32 (CHR ''0'')"

definition demo_phone :: phone_proof where
  "demo_phone = \<lparr>ph_id = None, ph_qr_proof = None, ph_manual_code = Some (replicate 16 (CHR ''a''))\<rparr>"

definition demo_confirm :: "pairing_summary wake_result \<times> app_state" where
  "demo_confirm = confirm_locked id 1100 ''u1'' demo_id demo_phone (snd demo_open)"

definition demo_claim :: "string wake_result \<times> app_state" where
  "demo_claim = claim_locked id 1200 \<lparr>sc_now = 1200, sc_fault = No_fault, sc_tmp = ''.t''\<rparr> id demo_headers
     ''t9'' ''u1'' demo_id (concat (replicate 32 ''01'')) (concat (replicate 32 ''0f'')) (snd demo_confirm)"

definition demo_pairing :: pairing where
  "demo_pairing = \<lparr>pg_owner = ''u1'', pg_creator = ''tok'', pg_name = ''den'', pg_device_id = ''dev9'',
     pg_mac = ''02:00:00:00:00:01'', pg_qr_hash = replicate 64 (CHR ''0''),
     pg_desktop_hash = concat (replicate 32 ''01''), pg_manual_hash = replicate 16 (CHR ''A''),
     pg_expires = 301000, pg_confirmed = False, pg_cancelled = False, pg_claimed = None\<rparr>"

lemma demo_pairing_fields [simp]:
  "pg_owner demo_pairing = ''u1''" "pg_creator demo_pairing = ''tok''" "pg_expires demo_pairing = 301000"
  "\<not> pg_confirmed demo_pairing" "\<not> pg_cancelled demo_pairing" "pg_claimed demo_pairing = None"
  "pg_manual_hash demo_pairing = replicate 16 (CHR ''A'')" "pg_device_id demo_pairing = ''dev9''"
  "pg_desktop_hash demo_pairing = concat (replicate 32 ''01'')"
  by (simp_all add: demo_pairing_def)

lemma update_session_fields [simp]:
  "users (update_session i f t) = users t" "auth_sessions (update_session i f t) = auth_sessions t"
  "user_store_path (update_session i f t) = user_store_path t"
  by (simp_all add: update_session_def split: option.split)

lemma demo_proofs:
  "hex_of (replicate 16 0) = demo_id" "hex_of (replicate 32 0) = replicate 64 (CHR ''0'')"
  "hex_of (replicate 32 1) = concat (replicate 32 ''01'')" "manual_of (replicate 16 0) = replicate 16 (CHR ''A'')"
  "manual (replicate 16 (CHR ''a'')) = Some (replicate 16 (CHR ''A''))"
  "valid_proof (concat (replicate 32 ''01''))" "valid_proof (concat (replicate 32 ''0f''))"
  by code_simp+

lemma demo_bearer: "bearer_of demo_headers = Some ''tok''"
  by (simp add: bearer_of_def demo_headers_def header_str_def header_to_str_def parse_bearer_token_def strip_prefix_def)

lemma demo_creator:
  "auth_sessions s = auth_sessions demo_signed_in \<Longrightarrow> users s = users demo_server \<Longrightarrow> now \<le> 2000 \<Longrightarrow>
   pg_owner p = ''u1'' \<Longrightarrow> pg_creator p = ''tok'' \<Longrightarrow> creator_valid id now p s"
  by (simp add: creator_valid_def demo_signed_in_def demo_server_def AUTH_SESSION_TTL_MS_def)

lemma demo_open_facts:
  "\<exists>x s'. demo_open = (Inr x, s') \<and> hget (sessions s') demo_id = Some demo_pairing \<and>
     users s' = users demo_server \<and> auth_sessions s' = auth_sessions demo_signed_in \<and>
     user_store_path s' = ''users.json'' \<and>
     hget (prt_limits (pairings s')) ''u1'' = Some \<lparr>lm_since = 1000, lm_creates = 1, lm_failures = 0\<rparr>"
proof -
  have pr: "pairings demo_signed_in = pairing_default" "users demo_signed_in = users demo_server"
    "user_store_path demo_signed_in = ''users.json''"
    by (simp_all add: demo_signed_in_def demo_server_def app_state_new_def)
  obtain rt where rt: "pairing_limit ''u1'' 1000 (pairing_prune 1000 pairing_default) =
      (Inr \<lparr>lm_since = 1000, lm_creates = 0, lm_failures = 0\<rparr>, rt)" "hlist (prt_sessions rt) = []"
    by (simp add: pairing_limit_def pairing_prune_def pairing_default_def Let_def limits_fresh_def
        hhas_def hor_default_def)
  obtain rt2 where rt2: "pairing_limit ''u1'' 1000 rt =
      (Inr \<lparr>lm_since = 1000, lm_creates = 0, lm_failures = 0\<rparr>, rt2)"
    using pairing_limit_again [OF rt(1)] by (cases "pairing_limit ''u1'' 1000 rt") auto
  show ?thesis
    by (auto simp: demo_open_def create_locked_def pr rt rt2 demo_randoms_def wake_bearer_def demo_bearer
        demo_proofs Let_def hvalues_def pairing_valid_def demo_creator TTL_def set_limit_def
        demo_pairing_def)
qed

lemma demo_confirm_facts:
  "\<exists>x s'. demo_confirm = (Inr x, s') \<and> hget (sessions s') demo_id = Some (demo_pairing\<lparr>pg_confirmed := True\<rparr>) \<and>
     users s' = users demo_server \<and> auth_sessions s' = auth_sessions demo_signed_in \<and>
     user_store_path s' = ''users.json''"
proof -
  obtain x s where s: "demo_open = (Inr x, s)" "hget (sessions s) demo_id = Some demo_pairing"
    "users s = users demo_server" "auth_sessions s = auth_sessions demo_signed_in"
    "user_store_path s = ''users.json''"
    "hget (prt_limits (pairings s)) ''u1'' = Some \<lparr>lm_since = 1000, lm_creates = 1, lm_failures = 0\<rparr>"
    using demo_open_facts by blast
  let ?l = "\<lparr>lm_since = 1000, lm_creates = 1, lm_failures = 0\<rparr> :: limit"
  obtain rt where rt: "pairing_limit ''u1'' 1100 (pairings s) = (Inr ?l, rt)"
    using s(6) by (simp add: pairing_limit_def Let_def limits_fresh_def hhas_def hor_default_def TTL_def)
  note rs = pairing_limit_ok(2) [OF rt]
  have "phone_found id ''u1'' (Some demo_id) demo_phone rt = Some (demo_id, demo_pairing)"
    using s(2) by (simp add: phone_found_def rs sessions_def phone_matches_def demo_phone_def demo_proofs)
  then have "phone_session id 1100 ''u1'' (Some demo_id) demo_phone s = (Inr (demo_id, demo_pairing), set_pairings rt s)"
    using s by (simp add: phone_session_def rt Let_def pairing_valid_def demo_creator)
  moreover have "hget (sessions (set_pairings rt s)) demo_id = Some demo_pairing"
    using s(2) rs by (simp add: sessions_def)
  ultimately show ?thesis
    using s(2-5) unfolding demo_confirm_def confirm_locked_def s(1) snd_conv by simp
qed

lemma demo_claim_facts:
  "\<exists>s' p. demo_claim = (Inr ''t9'', s') \<and> hget (sessions s') demo_id = Some p \<and>
     pg_claimed p = Some (''t9'', concat (replicate 32 ''0f''))"
proof -
  obtain x s where s: "demo_confirm = (Inr x, s)"
    "hget (sessions s) demo_id = Some (demo_pairing\<lparr>pg_confirmed := True\<rparr>)"
    "users s = users demo_server" "auth_sessions s = auth_sessions demo_signed_in"
    "user_store_path s = ''users.json''"
    using demo_confirm_facts by blast
  let ?p = "demo_pairing\<lparr>pg_confirmed := True\<rparr>"
  let ?c = "\<lparr>sc_now = 1200, sc_fault = No_fault, sc_tmp = ''.t''\<rparr>"
  let ?hash = "concat (replicate 32 ''0f'')"
  let ?s = "s\<lparr>auth_sessions := auth_token_touched 1200 (bearer_of demo_headers) s\<rparr>"
  have lk: "while_locked id s = s" by (simp add: while_locked_def set_pairings_def)
  have u: "hget (users s) ''u1'' = Some demo_account" using s(3) by (simp add: demo_server_def)
  have k: "users_keyed s" using s(3) demo_server_safe(1) by (simp add: users_keyed_def)
  have "account_ok 1200 demo_headers s = Some demo_account"
    using s u by (simp add: account_ok_def auth_token_ok_def demo_bearer auth_ok_def demo_signed_in_def
        AUTH_SESSION_TTL_MS_def)
  then have acc: "account 1200 demo_headers s = (Inr demo_account, ?s)"
    by (simp add: account_def authenticated_user_eq)
  obtain v where v: "m_enroll 1200 ''t9'' ?hash ?p demo_wake = Inr ((), v)"
    by (simp add: m_enroll_def demo_wake_def demo_target_def)
  have k': "users_keyed ?s" and t: "''.t'' \<noteq> user_store_path ?s"
    using k s(5) by (simp_all add: users_keyed_def)
  obtain s1 where st: "store_update ?c ''u1'' (m_enroll 1200 ''t9'' ?hash ?p) ?s = (Inr (), s1)"
    using u v by (simp add: store_update_def update_wake_cases [OF k' t] Let_def demo_account_def)
  have "enroll id ?c demo_headers ''u1'' ''t9'' ?hash ?p s = (Inr (), s1)"
    using u s acc st
    unfolding enroll_def find_user_represents [OF represents_hvalues [OF k]]
    by (simp add: pairing_valid_def demo_creator)
  moreover have "sessions s1 = sessions s"
    using store_update_wake_rt [of ?c "''u1''" "m_enroll 1200 ''t9'' ?hash ?p" ?s] st
    by (simp add: sessions_def)
  ultimately show ?thesis
    using s(2-5) unfolding demo_claim_def s(1) snd_conv
    by (simp add: claim_locked_def desktop_session_def lk Let_def demo_proofs pairing_valid_def
        demo_creator sessions_def [symmetric])
qed

lemma demo_trace:
  "\<exists>tr s p. pairing_trace id tr s \<and> hget (prt_sessions (pairings s)) demo_id = Some p \<and>
     pg_claimed p = Some (''t9'', concat (replicate 32 ''0f''))"
proof -
  have 0: "pairing_trace id [] demo_signed_in"
    by (rule tr_start) (simp add: demo_signed_in_def demo_server_def app_state_new_def)
  obtain x1 s1 where o1: "demo_open = (Inr x1, s1)" using demo_open_facts by blast
  with 0 have 1: "pairing_trace id [] s1" unfolding demo_open_def by (rule tr_create)
  obtain x2 s2 where o2: "demo_confirm = (Inr x2, s2)" using demo_confirm_facts by blast
  then have "confirm_locked id 1100 ''u1'' demo_id demo_phone s1 = (Inr x2, s2)"
    by (simp add: demo_confirm_def o1)
  note 2 = tr_confirm [OF 1 this]
  obtain s3 p where o3: "demo_claim = (Inr ''t9'', s3)" "hget (sessions s3) demo_id = Some p"
     "pg_claimed p = Some (''t9'', concat (replicate 32 ''0f''))" using demo_claim_facts by blast
  from o3(1) show ?thesis
    unfolding demo_claim_def o2 snd_conv
    by (intro exI conjI) (rule tr_claim [OF 2], assumption, fold sessions_def, (rule o3)+)
qed


lemma pairing_bounds_witness:
  "\<exists>s p. hget (prt_sessions (pairings s)) demo_id = Some p \<and> pg_claimed p \<noteq> None \<and>
     length (hlist (prt_sessions (pairings s))) \<le> 1000"
proof -
  obtain tr s p where t: "pairing_trace id tr s" "hget (prt_sessions (pairings s)) demo_id = Some p"
     "pg_claimed p = Some (''t9'', concat (replicate 32 ''0f''))"
    using demo_trace by blast
  from pairing_bounds [OF t(1), of "''u1''"] t show ?thesis by auto
qed

definition demo_blocked :: app_state where
  "demo_blocked = set_pairings \<lparr>prt_sessions = hput demo_id demo_pairing hempty,
     prt_limits = hput ''u1'' \<lparr>lm_since = 1000, lm_creates = 1, lm_failures = 20\<rparr> hempty\<rparr> demo_signed_in"


end
