(* ===== verification/Websocket_Props.thy ===== *)
theory Websocket_Props
  imports Websockets Capture_Props
begin

text \<open>
  What the sockets guarantee: a packet of the host reaches the viewers unchanged, a viewer is served
  only while its lease lives, and its lease ends with its connection.
\<close>

section \<open>From the host's packet to the viewer's\<close>

text \<open>How a viewer reads a packet: the format as a specification.\<close>

definition host_packet :: "u32 \<Rightarrow> u32 \<Rightarrow> u64 \<Rightarrow> bytes \<Rightarrow> bytes" where
  "host_packet width height timestamp jpeg = le32 width @ le32 height @ le64 timestamp @ jpeg"

definition read_viewer_packet :: "bytes \<Rightarrow> (u32 \<times> u32 \<times> u64 \<times> u64 \<times> bytes) option" where
  "read_viewer_packet b =
     (if length b < 28 \<or> take 4 b \<noteq> rdf1 then None
      else Some (of_le32 (take 4 (drop 4 b)), of_le32 (take 4 (drop 8 b)), of_le64 (take 8 (drop 12 b)),
                 of_le64 (take 8 (drop 20 b)), drop 28 b))"

lemma parse_host_packet: "parse_host_packet (host_packet w h t jpeg) = Some (w, h, t, jpeg)"
  by (simp add: parse_host_packet_def host_packet_def)

lemma parse_host_packet_short: "length b < 16 \<Longrightarrow> parse_host_packet b = None"
  by (simp add: parse_host_packet_def)

lemma read_viewer_packet:
  "read_viewer_packet (viewer_packet f) =
     Some (wf_width f, wf_height f, of_nat (wf_captured_at_ms f), of_nat (wf_relay_received_at_ms f), wf_bytes f)"
  by (simp add: read_viewer_packet_def viewer_packet_def rdf1_def)

text \<open>
  C36: a packet of the host comes out at the viewers as it went in.  Whatever size, time stamp and JPEG
  a host's packet holds, the frame put on the device's channel makes a viewer's packet from which the
  same size and JPEG are read, with the host's time stamp (the relay's clock when the host sent 0) and
  the relay's own; the same frame is the one kept for polling viewers; a packet shorter than its header
  changes nothing.
\<close>

theorem host_packet_reaches_viewers:
  assumes "hget (frame_broadcasters s) d = Some sent"
  shows "\<exists>f s'. ws_host_message parse now d (Binary (host_packet w h t jpeg)) s = (True, s') \<and>
    hget (frame_broadcasters s') d = Some (sent @ [f]) \<and>
    read_viewer_packet (viewer_packet f) =
      Some (w, h, if t = 0 then of_nat now else t, of_nat now, jpeg) \<and>
    hget (frames s') d = Some \<lparr>fs_bytes = jpeg, fs_width = w, fs_height = h,
      fs_captured_at_ms = wf_captured_at_ms f, fs_relay_received_at_ms = now, fs_updated_at_ms = now\<rparr> \<and>
    (length short < 16 \<longrightarrow> ws_host_message parse now d (Binary short) s = (True, s))"
proof -
  have "0 < t \<longleftrightarrow> t \<noteq> 0" by (simp add: word_gt_0)
  then show ?thesis
    using assms
    by (auto simp: ws_host_message_def parse_host_packet parse_host_packet_short read_viewer_packet
        broadcast_frame_def Let_def intro!: exI)
qed

theorem host_packet_reaches_viewers_witness:
  "\<exists>f. read_viewer_packet (viewer_packet f) = Some (1920, 1080, 5, 7000, [0xff, 0xd8])"
proof -
  define s where "s = ws_host_open ''123'' (app_state_new ''users.json'' hempty)"
  have "hget (frame_broadcasters s) ''123'' = Some []"
    by (simp add: s_def ws_host_open_def get_or_create_broadcaster_def app_state_new_def Let_def)
  from host_packet_reaches_viewers [OF this, of "\<lambda>_. None" 7000 1920 1080 5 "[0xff, 0xd8]" "[]"]
  show ?thesis by auto
qed

section \<open>The viewer's side\<close>

lemma release_ends_lease: "\<not> screen_lease_alive now' d key (release_screen_lease now d key s)"
proof (cases "hget (screen_demands s) d")
  case None
  then show ?thesis by (simp add: release_screen_lease_def screen_lease_alive_def)
next
  case (Some dem)
  then show ?thesis
    by (auto simp: release_screen_lease_def screen_lease_alive_def prune_screen_demand_def put_demand_def
        clear_demand_frames_def Let_def split: option.splits if_splits)
qed

lemma loop_ends_lease:
  "ws_viewer_loop pj d tok key events loop t = (packets, Ended, t') \<Longrightarrow> loop \<noteq> Ended \<Longrightarrow>
   \<not> screen_lease_alive later d key t'"
proof (induction events arbitrary: loop t packets)
  case (Cons x events)
  obtain now cid e env where x: "x = (now, cid, e, env)" by (cases x) auto
  obtain out loop1 s1 where turn: "ws_viewer_turn pj now d tok key cid e loop t = (out, loop1, s1)"
    by (cases "ws_viewer_turn pj now d tok key cid e loop t") auto
  show ?case
  proof (cases "loop1 = Ended")
    case True
    with Cons.prems show ?thesis by (auto simp: x turn release_ends_lease)
  next
    case False
    with Cons.prems Cons.IH show ?thesis by (auto simp: x turn Let_def split: prod.splits)
  qed
qed auto

lemma text_needs_viewer:
  "\<not> viewer_ok now d tok s \<Longrightarrow> ws_viewer_text pj now d tok cid m s =
     (Ended, s\<lparr>viewer_sessions := viewers_touched now d tok s\<rparr>)"
  by (simp add: ws_viewer_text_def validate_viewer_eq)

definition commands_same :: "app_state \<Rightarrow> app_state \<Rightarrow> bool" where
  "commands_same s s' \<longleftrightarrow> ws_host_cmd_tx s' = ws_host_cmd_tx s \<and> command_queues s' = command_queues s"

lemma commands_same_simps [simp]:
  "commands_same s s"
  "commands_same s (s\<lparr>viewer_sessions := v\<rparr>)"
  "commands_same s (snd (forward_finish cid b s))"
  "commands_same s (snd (renew_screen_lease now d tok key s))"
  by (auto simp: commands_same_def forward_finish_def renew_screen_lease_def prune_screen_demand_def
      check_eqs put_demand_def clear_demand_frames_def Let_def split: option.split)

text \<open>
  C31: a viewer's socket serves its viewer and nobody else.  In any turn, a packet is written only if a
  frame was received and the connection's own lease is alive at that moment, and then it is that
  frame's; a command reaches the host's socket or the queue only if the viewer session is valid at
  that moment; and however a connection ends, its lease is gone.
\<close>

theorem viewer_socket_safe:
  assumes "ws_viewer_turn pj now d tok key cid e loop s = (out, loop', s')"
    and "ws_viewer_loop pj d tok key events Running t = (packets, Ended, t')"
  shows "(out = [] \<or>
      screen_lease_alive now d key s \<and> (\<exists>f ok. e = Frame_received f ok \<and> out = [viewer_packet f])) \<and>
    (commands_same s s' \<or> viewer_ok now d tok s) \<and>
    \<not> screen_lease_alive later d key t'"
proof -
  have fin: "commands_same s (snd (forward_finish c tm s))" for c tm by simp
  have renew: "commands_same s (snd (renew_screen_lease now d tok key s))" by simp
  have "out = [] \<or>
      screen_lease_alive now d key s \<and> (\<exists>f ok. e = Frame_received f ok \<and> out = [viewer_packet f])"
    using assms(1)
    by (auto simp: ws_viewer_turn_def case_prod_beta Let_def
        split: viewer_loop.splits viewer_event.splits option.splits ws_message.splits if_splits)
  moreover have "commands_same s s' \<or> viewer_ok now d tok s"
    using assms(1) fin renew
    by (auto simp: ws_viewer_turn_def case_prod_beta Let_def text_needs_viewer
        split: viewer_loop.splits viewer_event.splits option.splits ws_message.splits if_splits)
  moreover have "\<not> screen_lease_alive later d key t'"
    using assms(2) by (rule loop_ends_lease) simp
  ultimately show ?thesis by blast
qed

text \<open>A viewer of the demonstration host: one frame is delivered, then the socket closes.\<close>

definition socket_state :: app_state where
  "socket_state = snd (renew_screen_lease 2000 ''123'' ''vt'' ''k'' (demo_state True))"

definition socket_frame :: ws_frame where
  "socket_frame =
     \<lparr>wf_bytes = [1], wf_width = 2, wf_height = 1, wf_captured_at_ms = 5, wf_relay_received_at_ms = 6\<rparr>"

lemma socket_alive: "screen_lease_alive 2100 ''123'' ''k'' socket_state"
proof -
  have "viewer_ok 2000 ''123'' ''vt'' (demo_state True)"
    by (simp add: viewer_ok_def demo_state_def VIEWER_SESSION_TTL_MS_def)
  moreover have "hhas (viewer_sessions (demo_state True)) ''vt''"
    by (simp add: demo_state_def)
  ultimately show ?thesis
    by (simp add: alive_iff socket_state_def renew_eq demand_upd SCREEN_LEASE_MS_def)
qed

theorem viewer_socket_safe_witness:
  "\<exists>t'. ws_viewer_loop (\<lambda>_. None) ''123'' ''vt'' ''k''
       [(2100, ''c1'', Frame_received socket_frame True, id), (2200, ''c2'', Socket_message None, id)] Running socket_state =
       ([viewer_packet socket_frame], Ended, t') \<and>
     \<not> screen_lease_alive 2300 ''123'' ''k'' t' \<and> screen_lease_alive 2100 ''123'' ''k'' socket_state"
proof -
  have turn: "ws_viewer_turn (\<lambda>_. None) 2100 ''123'' ''vt'' ''k'' ''c1'' (Frame_received socket_frame True) Running socket_state =
      ([viewer_packet socket_frame], Running, socket_state)"
    by (simp add: ws_viewer_turn_def socket_alive)
  obtain t' where run: "ws_viewer_loop (\<lambda>_. None) ''123'' ''vt'' ''k''
       [(2100, ''c1'', Frame_received socket_frame True, id), (2200, ''c2'', Socket_message None, id)] Running socket_state =
       ([viewer_packet socket_frame], Ended, t')"
    by (simp add: turn) (simp add: ws_viewer_turn_def)
  show ?thesis
    using viewer_socket_safe [OF turn run, of 2300] run by auto
qed

section \<open>Two gaps\<close>

text \<open>
  The mode of capture is checked when the host's socket opens, not for each frame: a socket opened
  before the host switched to capture on demand goes on storing frames without an audience.
\<close>

lemma socket_frame_after_switch:
  assumes "host_on_demand d s" and "audience_empty now d s"
  shows "hget (frames (snd (ws_host_message parse now d (Binary (host_packet w h t jpeg)) s))) d \<noteq> None \<and>
    audience_empty now d (snd (ws_host_message parse now d (Binary (host_packet w h t jpeg)) s))"
  using assms
  by (auto simp: ws_host_message_def parse_host_packet Let_def audience_empty_iff audience_def demand_entry_def)

text \<open>
  A host that reconnects replaces its command channel; when the older connection ends, it removes the
  channel of the newer one.
\<close>

lemma older_socket_removes_newer_channel:
  "hget (ws_host_cmd_tx (ws_host_close d (ws_host_open d (ws_host_open d s)))) d = None"
  by (simp add: ws_host_close_def)

end
