(* ===== verification/Debug_State.thy ===== *)
theory Debug_State
  imports Relay_Auth
begin

text \<open>
  The debugging endpoint \<open>debug_state\<close> of \<open>main.rs\<close>: a summary of the shared maps, open to anybody, and
  what it gives away.
\<close>

definition obj :: "(string \<times> json) list \<Rightarrow> json" where "obj kvs = JObj kvs"

definition age_seconds :: "ms \<Rightarrow> ms \<Rightarrow> json" where
  "age_seconds now t = JInt (int ((now - t) div 1000))"

definition debug_preview :: "ms \<Rightarrow> preview_registration \<Rightarrow> json" where
  "debug_preview now e =
     obj [(''device_id'', JStr (pr_device_id e)), (''platform'', JStr (pr_platform e)),
          (''hostname'', JStr (pr_hostname e)), (''auto_accept'', JBool (pr_auto_accept e)),
          (''has_password'', JBool (pr_password_hash e \<noteq> [])),
          (''trusted_viewers'', JInt (int (length (pr_trusted_viewers e)))),
          (''age_seconds'', age_seconds now (pr_updated_at_ms e))]"

definition debug_frame :: "ms \<Rightarrow> string \<times> frame_snapshot \<Rightarrow> json" where
  "debug_frame now kv = (case kv of (device_id, e) \<Rightarrow>
     obj [(''device_id'', JStr device_id), (''width'', JInt (int (unat (fs_width e)))),
          (''height'', JInt (int (unat (fs_height e)))), (''size_bytes'', JInt (int (length (fs_bytes e)))),
          (''age_seconds'', age_seconds now (fs_updated_at_ms e))])"

text \<open>\<open>&key[..8.min(key.len())]\<close> panics (\<open>None\<close>) when the bound is inside a character.\<close>

definition token_prefix :: "string \<Rightarrow> string option" where
  "token_prefix key =
     (case drop 8 key of [] \<Rightarrow> Some key | c # _ \<Rightarrow> if cont_byte c then None else Some (take 8 key))"

definition debug_viewer :: "ms \<Rightarrow> string \<times> viewer_session \<Rightarrow> json option" where
  "debug_viewer now kv = (case kv of (token, e) \<Rightarrow>
     map_option (\<lambda>p. obj [(''token_prefix'', JStr p), (''device_id'', JStr (vs_device_id e)),
          (''age_seconds'', age_seconds now (vs_last_seen_ms e))]) (token_prefix token))"

text \<open>\<open>receivers\<close>: how many viewers are subscribed to a device's channel.\<close>

definition debug_state :: "(string \<Rightarrow> nat) \<Rightarrow> ms \<Rightarrow> app_state \<Rightarrow> json option" where
  "debug_state receivers now s =
     (let preview_list = map (debug_preview now) (hvalues (previews s));
          frame_list = map (debug_frame now) (hlist (frames s));
          ws_hosts = map (\<lambda>(k, _). JStr k) (hlist (ws_host_cmd_tx s));
          broadcasters = map (\<lambda>(k, _). obj [(''device_id'', JStr k), (''receiver_count'', JInt (int (receivers k)))])
            (hlist (frame_broadcasters s))
      in map_option (\<lambda>viewers.
           obj [(''previews'', JArr preview_list), (''frames'', JArr frame_list),
                (''viewer_sessions'', JArr viewers), (''ws_hosts'', JArr ws_hosts),
                (''broadcasters'', JArr broadcasters),
                (''command_queues'', JInt (int (length (hlist (command_queues s)))))])
         (those (map (debug_viewer now) (hlist (viewer_sessions s)))))"

text \<open>
  The secrets of a registration: replacing host tokens, account bindings, trusted viewers by others of
  the same number, and password hashes by others that are as empty, changes nothing in the answer.
\<close>

definition same_public :: "preview_registration \<Rightarrow> preview_registration \<Rightarrow> bool" where
  "same_public p q \<longleftrightarrow>
     pr_device_id p = pr_device_id q \<and> pr_platform p = pr_platform q \<and> pr_hostname p = pr_hostname q \<and>
     pr_auto_accept p = pr_auto_accept q \<and> (pr_password_hash p = []) = (pr_password_hash q = []) \<and>
     length (pr_trusted_viewers p) = length (pr_trusted_viewers q) \<and> pr_updated_at_ms p = pr_updated_at_ms q"

lemma debug_hides_secrets:
  assumes "\<And>p. same_public (f p) p"
  shows "debug_state receivers now (s\<lparr>previews := hmap_values f (previews s), users := us,
      auth_sessions := as, file_store := fs, account_presence := ap\<rparr>) = debug_state receivers now s"
proof -
  have "debug_preview now (f p) = debug_preview now p" for p
    using assms [of p] by (auto simp: debug_preview_def same_public_def)
  then have "map (debug_preview now) (hvalues (hmap_values f (previews s))) = map (debug_preview now) (hvalues (previews s))"
    by (simp add: hvalues_def comp_def case_prod_beta)
  then show ?thesis by (simp add: debug_state_def)
qed

text \<open>But it shows the device of every viewing session and the first 8 bytes of its token.\<close>

lemma debug_shows_token_prefix:
  "8 < length tok \<Longrightarrow> \<not> cont_byte (tok ! 8) \<Longrightarrow>
   debug_viewer now (tok, v) =
     Some (obj [(''token_prefix'', JStr (take 8 tok)), (''device_id'', JStr (vs_device_id v)),
                (''age_seconds'', age_seconds now (vs_last_seen_ms v))])"
  by (simp add: debug_viewer_def token_prefix_def Cons_nth_drop_Suc [symmetric])

end
