(* ===== verification/Sha256.thy ===== *)
theory Sha256
  imports Endian Rust_Str
begin

text \<open>
  SHA-256 and HMAC-SHA256 of \<open>crates/rdesk_crypto/src/session_key.rs\<close>, and the derivation of the
  session key from them.  The eight-word state \<open>[u32; 8]\<close> is a tuple; \<open>wrapping_add\<close> is \<open>+\<close> of
  words; the constants are those of the source, in decimal.
\<close>

type_synonym hash_state = "u32 \<times> u32 \<times> u32 \<times> u32 \<times> u32 \<times> u32 \<times> u32 \<times> u32"

definition H_INIT :: hash_state where
  "H_INIT = (1779033703, 3144134277, 1013904242, 2773480762, 1359893119, 2600822924, 528734635, 1541459225)"

definition K :: "u32 list" where
  "K =
     [1116352408, 1899447441, 3049323471, 3921009573, 961987163, 1508970993, 2453635748, 2870763221,
      3624381080, 310598401, 607225278, 1426881987, 1925078388, 2162078206, 2614888103, 3248222580,
      3835390401, 4022224774, 264347078, 604807628, 770255983, 1249150122, 1555081692, 1996064986,
      2554220882, 2821834349, 2952996808, 3210313671, 3336571891, 3584528711, 113926993, 338241895,
      666307205, 773529912, 1294757372, 1396182291, 1695183700, 1986661051, 2177026350, 2456956037,
      2730485921, 2820302411, 3259730800, 3345764771, 3516065817, 3600352804, 4094571909, 275423344,
      430227734, 506948616, 659060556, 883997877, 958139571, 1322822218, 1537002063, 1747873779,
      1955562222, 2024104815, 2227730452, 2361852424, 2428436474, 2756734187, 3204031479, 3329325298]"

definition schedule_word :: "u32 list \<Rightarrow> nat \<Rightarrow> u32 list" where
  "schedule_word w i =
     (let s0 = word_rotr 7 (w ! (i - 15)) XOR word_rotr 18 (w ! (i - 15)) XOR drop_bit 3 (w ! (i - 15));
          s1 = word_rotr 17 (w ! (i - 2)) XOR word_rotr 19 (w ! (i - 2)) XOR drop_bit 10 (w ! (i - 2))
      in w @ [w ! (i - 16) + s0 + w ! (i - 7) + s1])"

definition schedule :: "bytes \<Rightarrow> u32 list" where
  "schedule block =
     foldl schedule_word
       (map (\<lambda>i. of_be32 [block ! (i * 4), block ! (i * 4 + 1), block ! (i * 4 + 2), block ! (i * 4 + 3)]) [0..<16])
       [16..<64]"

fun hash_round :: "hash_state \<Rightarrow> u32 \<times> u32 \<Rightarrow> hash_state" where
  "hash_round (a, b, c, d, e, f, g, h) (k, w) =
     (let s1 = word_rotr 6 e XOR word_rotr 11 e XOR word_rotr 25 e;
          ch = (e AND f) XOR (NOT e AND g);
          temp1 = h + s1 + ch + k + w;
          s0 = word_rotr 2 a XOR word_rotr 13 a XOR word_rotr 22 a;
          maj = (a AND b) XOR (a AND c) XOR (b AND c);
          temp2 = s0 + maj
      in (temp1 + temp2, a, b, c, d + temp1, e, f, g))"

fun add_state :: "hash_state \<Rightarrow> hash_state \<Rightarrow> hash_state" where
  "add_state (a, b, c, d, e, f, g, h) (a', b', c', d', e', f', g', h') =
     (a + a', b + b', c + c', d + d', e + e', f + f', g + g', h + h')"

definition compress :: "hash_state \<Rightarrow> bytes \<Rightarrow> hash_state" where
  "compress st block = add_state st (foldl hash_round st (zip K (schedule block)))"

text \<open>How many zeros \<open>while padded.len() % 64 != 56 { padded.push(0x00) }\<close> still pushes.\<close>

definition zeros_left :: "nat \<Rightarrow> nat" where
  "zeros_left n = (if n mod 64 \<le> 56 then 56 - n mod 64 else 120 - n mod 64)"

lemma zeros_left_Suc: "n mod 64 \<noteq> 56 \<Longrightarrow> zeros_left n = Suc (zeros_left (Suc n))"
proof (cases "n mod 64 = 63")
  case True
  then show ?thesis by (simp add: zeros_left_def mod_Suc)
next
  case False
  assume "n mod 64 \<noteq> 56"
  moreover have "n mod 64 < 64" by simp
  moreover have "Suc n mod 64 = Suc (n mod 64)" using False by (simp add: mod_Suc)
  ultimately show ?thesis by (simp add: zeros_left_def Suc_diff_le split del: if_split) (auto simp: Suc_diff_le)
qed

function push_zeros :: "bytes \<Rightarrow> bytes" where
  "push_zeros p = (if length p mod 64 = 56 then p else push_zeros (p @ [0]))"
  by pat_completeness auto

termination
  by (relation "measure (\<lambda>p. zeros_left (length p))") (simp_all add: zeros_left_Suc)

declare push_zeros.simps [simp del]

definition pad_with :: "bytes \<Rightarrow> u64 \<Rightarrow> bytes" where
  "pad_with tail bit_len = push_zeros (tail @ [0x80]) @ be64 bit_len"

fun chunks64 :: "bytes \<Rightarrow> bytes list" where
  "chunks64 bs = (if length bs < 64 then [] else take 64 bs # chunks64 (drop 64 bs))"

declare chunks64.simps [simp del]

fun state_bytes :: "hash_state \<Rightarrow> bytes" where
  "state_bytes (a, b, c, d, e, f, g, h) = concat (map be32 [a, b, c, d, e, f, g, h])"

definition sha256 :: "bytes \<Rightarrow> bytes" where
  "sha256 data = state_bytes (foldl compress H_INIT (chunks64 (pad_with data (word_of_nat (length data) * 8))))"

section \<open>HMAC and the session key\<close>

definition key_block :: "bytes \<Rightarrow> bytes" where
  "key_block key =
     (if 64 < length key then sha256 key @ replicate 32 0
      else key @ replicate (64 - length key) 0)"

definition hmac_sha256 :: "bytes \<Rightarrow> bytes \<Rightarrow> bytes" where
  "hmac_sha256 key message =
     (let kb = key_block key;
          i_key_pad = map (\<lambda>b. 0x36 XOR b) kb;
          o_key_pad = map (\<lambda>b. 0x5c XOR b) kb;
          inner_hash = sha256 (i_key_pad @ message)
      in sha256 (o_key_pad @ inner_hash))"

definition HKDF_SALT :: bytes where
  "HKDF_SALT = str_bytes ''rdesk-session-key-v1''"

definition derive_session_key :: "bytes \<Rightarrow> bytes \<Rightarrow> bytes" where
  "derive_session_key shared_secret context =
     (let prk = hmac_sha256 HKDF_SALT shared_secret
      in hmac_sha256 prk (context @ [0x01]))"

section \<open>Padding\<close>

lemma push_zeros_eq: "push_zeros p = p @ replicate (zeros_left (length p)) 0"
proof (induction p rule: push_zeros.induct)
  case (1 p)
  show ?case
  proof (cases "length p mod 64 = 56")
    case True
    then show ?thesis by (simp add: push_zeros.simps [of p] zeros_left_def)
  next
    case False
    with 1 show ?thesis
      by (simp add: push_zeros.simps [of p] zeros_left_Suc)
  qed
qed

lemma zeros_left_aligned: "(n + zeros_left n) mod 64 = 56"
proof (induction "zeros_left n" arbitrary: n)
  case 0
  then show ?case by (auto simp: zeros_left_def split: if_splits)
next
  case (Suc k)
  show ?case
  proof (cases "n mod 64 = 56")
    case True
    then show ?thesis by (simp add: zeros_left_def)
  next
    case False
    then have z: "zeros_left n = Suc (zeros_left (Suc n))" by (rule zeros_left_Suc)
    with Suc(2) have "(Suc n + zeros_left (Suc n)) mod 64 = 56" by (intro Suc(1)) simp
    with z show ?thesis by simp
  qed
qed

lemma pad_with_aligned: "length (pad_with tail n) mod 64 = 0"
proof -
  have next8: "m mod 64 = 56 \<Longrightarrow> (m + 8) mod 64 = 0" for m :: nat by presburger
  have "length (pad_with tail n) = length tail + 1 + zeros_left (length tail + 1) + 8"
    by (simp add: pad_with_def push_zeros_eq)
  then show ?thesis by (simp only: next8 [OF zeros_left_aligned])
qed

lemma chunks64_append:
  "length b = 64 \<Longrightarrow> chunks64 (b @ bs) = b # chunks64 bs"
  by (subst chunks64.simps) simp

lemma chunks64_short: "length bs < 64 \<Longrightarrow> chunks64 bs = []"
  by (subst chunks64.simps) simp

lemma concat_chunks64: "length bs mod 64 = 0 \<Longrightarrow> concat (chunks64 bs) = bs"
proof (induction bs rule: chunks64.induct)
  case (1 bs)
  show ?case
  proof (cases "length bs < 64")
    case True
    with 1(2) show ?thesis by (simp add: chunks64_short)
  next
    case False
    with 1 have "concat (chunks64 (drop 64 bs)) = drop 64 bs" by (simp add: le_mod_geq)
    with False show ?thesis by (subst chunks64.simps) simp
  qed
qed

lemma length_state_bytes [simp]: "length (state_bytes st) = 32"
  by (cases st rule: state_bytes.cases) simp

lemma length_sha256 [simp]: "length (sha256 data) = 32"
  by (simp add: sha256_def)

text \<open>FIPS 180-4, first example: the digest of \<open>abc\<close>.\<close>

lemma sha256_abc:
  "map unat (sha256 [0x61, 0x62, 0x63]) =
     [186, 120, 22, 191, 143, 1, 207, 234, 65, 65, 64, 222, 93, 174, 34, 35,
      176, 3, 97, 163, 150, 23, 122, 156, 180, 16, 255, 97, 242, 0, 21, 173]"
  by code_simp

lemma length_key_block [simp]: "length (key_block key) = 64"
  by (simp add: key_block_def)

lemma length_hmac [simp]: "length (hmac_sha256 key message) = 32"
  by (simp add: hmac_sha256_def Let_def)

text \<open>The message and its length can be read back from the padded form, for every length the code
  handles without overflow.\<close>

definition padded :: "bytes \<Rightarrow> bytes" where
  "padded data = pad_with data (word_of_nat (length data) * 8)"

lemma padded_inj:
  assumes "length x < 2 ^ 61" "length y < 2 ^ 61" "padded x = padded y"
  shows "x = y"
proof -
  let ?n = "\<lambda>x :: bytes. word_of_nat (length x) * 8 :: u64"
  have form: "padded x = (push_zeros (x @ [0x80])) @ be64 (?n x)" for x
    by (simp add: padded_def pad_with_def)
  from assms(3) have eq: "push_zeros (x @ [0x80]) = push_zeros (y @ [0x80])" "be64 (?n x) = be64 (?n y)"
    unfolding form by simp_all
  from eq(2) have "?n x = ?n y" by (metis of_be64_be64)
  moreover have "unat (?n z) = length z * 8" if "length z < 2 ^ 61" for z :: bytes
  proof -
    have "unat (word_of_nat (length z * 8) :: u64) = length z * 8"
      using that by (subst unat_of_nat) simp
    then show ?thesis by simp
  qed
  ultimately have "length x = length y" using assms(1,2) by (metis mult_right_cancel zero_neq_numeral)
  with eq(1) show ?thesis by (simp add: push_zeros_eq)
qed

end
