(* ===== verification/Login_Auth.thy ===== *)
theory Login_Auth
  imports Sha256
begin

text \<open>
  Password authentication of \<open>crates/rdesk_crypto/src/auth.rs\<close>: its own incremental SHA-256, the
  comparison in constant time, hexadecimal decoding, and the two sides of the login.  The module is
  tied to the one-shot SHA-256 of \<open>session_key.rs\<close> by the contract of an incremental hash.
\<close>

section \<open>An incremental hash\<close>

text \<open>
  What a client of an incremental hash relies on: the digest depends on the bytes absorbed only, and
  is the digest of a one-shot function.
\<close>

locale incremental_hash =
  fixes new :: "'h" and update :: "'h \<Rightarrow> bytes \<Rightarrow> 'h" and finalize :: "'h \<Rightarrow> bytes"
    and digest :: "bytes \<Rightarrow> bytes" and absorbed :: "'h \<Rightarrow> bytes \<Rightarrow> bool"
  assumes new: "absorbed new []"
    and update: "absorbed h x \<Longrightarrow> absorbed (update h y) (x @ y)"
    and finalize: "absorbed h x \<Longrightarrow> finalize h = digest x"
begin

lemma absorbed_foldl: "absorbed h x \<Longrightarrow> absorbed (foldl update h parts) (x @ concat parts)"
proof (induction parts arbitrary: h x)
  case (Cons y parts)
  from Cons(1) [OF update [OF Cons(2), of y]] show ?case by simp
qed simp

lemma digest_parts: "finalize (foldl update new parts) = digest (concat parts)"
  using absorbed_foldl [OF new, of parts] by (simp add: finalize)

lemma split_irrelevant:
  "concat parts = concat parts' \<Longrightarrow> finalize (foldl update new parts) = finalize (foldl update new parts')"
  by (simp add: digest_parts)

end

section \<open>The hasher of the module\<close>

definition H_INIT_auth :: hash_state where
  "H_INIT_auth = (1779033703, 3144134277, 1013904242, 2773480762, 1359893119, 2600822924, 528734635, 1541459225)"

definition K_auth :: "u32 list" where
  "K_auth =
     [1116352408, 1899447441, 3049323471, 3921009573, 961987163, 1508970993, 2453635748, 2870763221,
      3624381080, 310598401, 607225278, 1426881987, 1925078388, 2162078206, 2614888103, 3248222580,
      3835390401, 4022224774, 264347078, 604807628, 770255983, 1249150122, 1555081692, 1996064986,
      2554220882, 2821834349, 2952996808, 3210313671, 3336571891, 3584528711, 113926993, 338241895,
      666307205, 773529912, 1294757372, 1396182291, 1695183700, 1986661051, 2177026350, 2456956037,
      2730485921, 2820302411, 3259730800, 3345764771, 3516065817, 3600352804, 4094571909, 275423344,
      430227734, 506948616, 659060556, 883997877, 958139571, 1322822218, 1537002063, 1747873779,
      1955562222, 2024104815, 2227730452, 2361852424, 2428436474, 2756734187, 3204031479, 3329325298]"

record sha256_hasher =
  sh_state :: hash_state
  sh_buffer :: bytes
  sh_total_len :: u64

definition hasher_new :: sha256_hasher where
  "hasher_new = \<lparr>sh_state = H_INIT_auth, sh_buffer = [], sh_total_len = 0\<rparr>"

definition hasher_compress :: "sha256_hasher \<Rightarrow> bytes \<Rightarrow> sha256_hasher" where
  "hasher_compress h block =
     (let w = foldl
          (\<lambda>w i. let s0 = word_rotr 7 (w ! (i - 15)) XOR word_rotr 18 (w ! (i - 15)) XOR drop_bit 3 (w ! (i - 15));
                     s1 = word_rotr 17 (w ! (i - 2)) XOR word_rotr 19 (w ! (i - 2)) XOR drop_bit 10 (w ! (i - 2))
                 in w @ [w ! (i - 16) + s0 + w ! (i - 7) + s1])
          (map (\<lambda>i. of_be32 [block ! (i * 4), block ! (i * 4 + 1), block ! (i * 4 + 2), block ! (i * 4 + 3)]) [0..<16])
          [16..<64];
          final = foldl
            (\<lambda>(a, b, c, d, e, f, g, h) i.
               let s1 = word_rotr 6 e XOR word_rotr 11 e XOR word_rotr 25 e;
                   ch = (e AND f) XOR (NOT e AND g);
                   temp1 = h + s1 + ch + K_auth ! i + w ! i;
                   s0 = word_rotr 2 a XOR word_rotr 13 a XOR word_rotr 22 a;
                   maj = (a AND b) XOR (a AND c) XOR (b AND c);
                   temp2 = s0 + maj
               in (temp1 + temp2, a, b, c, d + temp1, e, f, g))
            (sh_state h) [0..<64]
      in h\<lparr>sh_state := add_state (sh_state h) final\<rparr>)"

text \<open>\<open>while self.buffer.len() >= 64\<close>: compress the first block and drain it.\<close>

function absorb_blocks :: "sha256_hasher \<Rightarrow> sha256_hasher" where
  "absorb_blocks h =
     (if length (sh_buffer h) < 64 then h
      else absorb_blocks ((hasher_compress h (take 64 (sh_buffer h)))\<lparr>sh_buffer := drop 64 (sh_buffer h)\<rparr>))"
  by pat_completeness auto

termination
  by (relation "measure (\<lambda>h. length (sh_buffer h))") auto

declare absorb_blocks.simps [simp del]

definition hasher_update :: "sha256_hasher \<Rightarrow> bytes \<Rightarrow> sha256_hasher" where
  "hasher_update h data =
     absorb_blocks (h\<lparr>sh_total_len := sh_total_len h + word_of_nat (length data),
                      sh_buffer := sh_buffer h @ data\<rparr>)"

definition hasher_finalize :: "sha256_hasher \<Rightarrow> bytes" where
  "hasher_finalize h =
     (let bit_len = sh_total_len h * 8;
          buffer = push_zeros (sh_buffer h @ [0x80]) @ be64 bit_len
      in state_bytes (sh_state (foldl hasher_compress h (chunks64 buffer))))"

section \<open>Login\<close>

definition sha256_concat :: "bytes \<Rightarrow> bytes \<Rightarrow> bytes" where
  "sha256_concat a b = hasher_finalize (hasher_update (hasher_update hasher_new a) b)"

definition constant_time_eq :: "bytes \<Rightarrow> bytes \<Rightarrow> bool" where
  "constant_time_eq a b \<longleftrightarrow>
     (if length a \<noteq> length b then False
      else foldl (\<lambda>diff (x, y). diff OR (x XOR y)) 0 (zip a b) = 0)"

text \<open>
  \<open>hex_decode\<close> slices the string every two bytes until a pair does not parse.  The outer \<open>None\<close> is the
  panic of \<open>&s[i..i + 2]\<close> where a bound is inside a character.
\<close>

definition mid_char :: "string \<Rightarrow> bool" where
  "mid_char s \<longleftrightarrow> (case s of [] \<Rightarrow> False | c # _ \<Rightarrow> cont_byte c)"

fun hex_pairs :: "string \<Rightarrow> bytes option option" where
  "hex_pairs [] = Some (Some [])"
| "hex_pairs [c] = Some None"
| "hex_pairs (c # d # s) =
     (if cont_byte c \<or> mid_char s then None
      else
        (case u8_from_hex [c, d] of
           None \<Rightarrow> Some None
         | Some b \<Rightarrow> map_option (map_option ((#) b)) (hex_pairs s)))"

definition hex_decode :: "string \<Rightarrow> bytes option option" where
  "hex_decode s = (if length s mod 2 \<noteq> 0 then Some None else hex_pairs s)"

definition create_login_hash :: "string \<Rightarrow> bytes \<Rightarrow> bytes" where
  "create_login_hash password nonce = sha256_concat (str_bytes password) nonce"

definition verify_login_hash :: "string \<Rightarrow> bytes \<Rightarrow> bytes \<Rightarrow> bool option" where
  "verify_login_hash password_hash nonce received_hash =
     map_option (\<lambda>decoded. case decoded of
         None \<Rightarrow> False
       | Some stored_bytes \<Rightarrow> constant_time_eq (sha256_concat stored_bytes nonce) received_hash)
       (hex_decode password_hash)"

section \<open>The two SHA-256 agree\<close>

lemma constants_agree: "K_auth = K" "H_INIT_auth = H_INIT"
  by (simp_all add: K_auth_def K_def H_INIT_auth_def H_INIT_def)

lemma length_K [simp]: "length K = 64"
  by (simp add: K_def)

lemma length_schedule [simp]: "length (schedule block) = 64"
proof -
  have "length (foldl schedule_word w is) = length w + length is" for w "is"
    by (induction "is" arbitrary: w) (simp_all add: schedule_word_def Let_def)
  then show ?thesis unfolding schedule_def by (simp only: length_map length_upt)
qed

lemma foldl_zip_index:
  "length xs = n \<Longrightarrow> length ys = n \<Longrightarrow> foldl (\<lambda>s i. f s (xs ! i, ys ! i)) s [0..<n] = foldl f s (zip xs ys)"
proof -
  assume l: "length xs = n" "length ys = n"
  then have "zip xs ys = map (\<lambda>i. (xs ! i, ys ! i)) [0..<n]"
    by (intro nth_equalityI) simp_all
  then show ?thesis by (simp add: foldl_map)
qed

lemma hasher_compress_eq: "hasher_compress h block = h\<lparr>sh_state := compress (sh_state h) block\<rparr>"
proof -
  have round: "(\<lambda>s i. hash_round s (K ! i, w ! i)) =
      (\<lambda>(a, b, c, d, e, f, g, h) i.
               let s1 = word_rotr 6 e XOR word_rotr 11 e XOR word_rotr 25 e;
                   ch = (e AND f) XOR (NOT e AND g);
                   temp1 = h + s1 + ch + K ! i + w ! i;
                   s0 = word_rotr 2 a XOR word_rotr 13 a XOR word_rotr 22 a;
                   maj = (a AND b) XOR (a AND c) XOR (b AND c);
                   temp2 = s0 + maj
               in (temp1 + temp2, a, b, c, d + temp1, e, f, g))" for w
    by (auto simp: fun_eq_iff Let_def)
  have schedule_fun: "(\<lambda>w i. let s0 = word_rotr 7 (w ! (i - 15)) XOR word_rotr 18 (w ! (i - 15)) XOR drop_bit 3 (w ! (i - 15));
                     s1 = word_rotr 17 (w ! (i - 2)) XOR word_rotr 19 (w ! (i - 2)) XOR drop_bit 10 (w ! (i - 2))
                 in w @ [w ! (i - 16) + s0 + w ! (i - 7) + s1]) = schedule_word"
    by (simp add: fun_eq_iff schedule_word_def)
  show ?thesis
    unfolding hasher_compress_def constants_agree schedule_fun round [symmetric]
    by (simp only: schedule_def [symmetric] Let_def compress_def
        foldl_zip_index [OF length_K length_schedule])
qed

lemma absorb_blocks_eq:
  "absorb_blocks h = h\<lparr>sh_state := foldl compress (sh_state h) (chunks64 (sh_buffer h)),
     sh_buffer := drop (64 * (length (sh_buffer h) div 64)) (sh_buffer h)\<rparr>"
proof (induction h rule: absorb_blocks.induct)
  case (1 h)
  show ?case
  proof (cases "length (sh_buffer h) < 64")
    case True
    then show ?thesis by (subst absorb_blocks.simps) (simp add: chunks64_short)
  next
    case False
    then have c: "chunks64 (sh_buffer h) = take 64 (sh_buffer h) # chunks64 (drop 64 (sh_buffer h))"
      by (subst chunks64.simps) simp
    have d: "length (sh_buffer h) div 64 = Suc ((length (sh_buffer h) - 64) div 64)"
      using False by (simp add: le_div_geq)
    from 1 [OF False] False show ?thesis
      by (subst absorb_blocks.simps) (simp add: hasher_compress_eq c d add.commute)
  qed
qed

text \<open>What a hasher has absorbed: whole blocks, compressed, and a rest shorter than a block.\<close>

definition absorbed :: "sha256_hasher \<Rightarrow> bytes \<Rightarrow> bool" where
  "absorbed h x \<longleftrightarrow>
     (\<exists>blocks. (\<forall>b \<in> set blocks. length b = 64) \<and> x = concat blocks @ sh_buffer h \<and>
        length (sh_buffer h) < 64 \<and> sh_state h = foldl compress H_INIT blocks \<and>
        sh_total_len h = word_of_nat (length x))"

lemma chunks64_concat:
  "\<forall>b \<in> set blocks. length b = 64 \<Longrightarrow> chunks64 (concat blocks @ bs) = blocks @ chunks64 bs"
  by (induction blocks) (simp_all add: chunks64_append)

lemma chunks64_blocks: "b \<in> set (chunks64 bs) \<Longrightarrow> length b = 64"
proof (induction bs rule: chunks64.induct)
  case (1 bs)
  then show ?case
    by (cases "length bs < 64") (auto simp: chunks64_short chunks64.simps [of bs])
qed

lemma chunks64_rest: "concat (chunks64 bs) @ drop (64 * (length bs div 64)) bs = bs"
proof (induction bs rule: chunks64.induct)
  case (1 bs)
  show ?case
  proof (cases "length bs < 64")
    case True
    then show ?thesis by (simp add: chunks64_short)
  next
    case False
    then have "length bs div 64 = Suc ((length bs - 64) div 64)" by (simp add: le_div_geq)
    with 1 [OF False] False show ?thesis
      by (subst chunks64.simps) (simp add: add.commute)
  qed
qed

lemma length_concat_blocks: "\<forall>b \<in> set blocks. length b = 64 \<Longrightarrow> length (concat blocks) = 64 * length blocks"
  by (induction blocks) simp_all

interpretation sha: incremental_hash hasher_new hasher_update hasher_finalize sha256 absorbed
proof
  show "absorbed hasher_new []"
    unfolding absorbed_def hasher_new_def constants_agree by (intro exI [of _ "[]"]) simp
next
  fix h x y
  assume "absorbed h x"
  then obtain blocks where b: "\<forall>b \<in> set blocks. length b = 64" "x = concat blocks @ sh_buffer h"
    "sh_state h = foldl compress H_INIT blocks" "sh_total_len h = word_of_nat (length x)"
    by (auto simp: absorbed_def)
  let ?buf = "sh_buffer h @ y"
  show "absorbed (hasher_update h y) (x @ y)"
    unfolding absorbed_def hasher_update_def absorb_blocks_eq
  proof (intro exI [of _ "blocks @ chunks64 ?buf"] conjI)
    show "\<forall>b \<in> set (blocks @ chunks64 ?buf). length b = 64"
      using b(1) chunks64_blocks by auto
  qed (use b chunks64_rest [of ?buf] in \<open>simp_all add: minus_mult_div_eq_mod\<close>)
next
  fix h x
  assume "absorbed h x"
  then obtain blocks where b: "\<forall>b \<in> set blocks. length b = 64" "x = concat blocks @ sh_buffer h"
    "sh_state h = foldl compress H_INIT blocks" "sh_total_len h = word_of_nat (length x)"
    by (auto simp: absorbed_def)
  have z: "zeros_left (64 * k + n) = zeros_left n" for k n by (simp add: zeros_left_def)
  have "pad_with x n = concat blocks @ pad_with (sh_buffer h) n" for n
    using z [of "length blocks" "Suc (length (sh_buffer h))"]
    by (simp add: pad_with_def push_zeros_eq b(2) length_concat_blocks [OF b(1)])
  then have c: "chunks64 (pad_with x n) = blocks @ chunks64 (pad_with (sh_buffer h) n)" for n
    by (simp add: chunks64_concat [OF b(1)])
  have st: "sh_state (foldl hasher_compress h bs) = foldl compress (sh_state h) bs" for bs
    by (induction bs arbitrary: h) (simp_all add: hasher_compress_eq)
  show "hasher_finalize h = sha256 x"
    by (simp add: hasher_finalize_def sha256_def c b(3,4) st pad_with_def [symmetric])
qed

lemma sha256_concat_eq [simp]: "sha256_concat a b = sha256 (a @ b)"
  using sha.digest_parts [of "[a, b]"] by (simp add: sha256_concat_def)

text \<open>
  C30: the two SHA-256 of the crate are the same function.  However a message is cut into calls of
  \<open>update\<close>, the incremental hasher of the login module returns the digest that the one-shot function of
  the session-key module computes of the whole message; the one-shot function gives the digest of the
  FIPS 180-4 example \<open>abc\<close>.
\<close>

theorem sha256_incremental_is_one_shot:
  "hasher_finalize (foldl hasher_update hasher_new parts) = sha256 (concat parts)"
  by (rule sha.digest_parts)

text \<open>
  Padding loses nothing.  Two messages the code can count the bits of are compressed as the same
  sequence of blocks only if they are equal, and every padded message is a sequence of whole blocks.
\<close>

lemma sha256_padding_injective:
  assumes "length x < 2 ^ 61" "length y < 2 ^ 61"
  shows "(chunks64 (pad_with x (word_of_nat (length x) * 8)) = chunks64 (pad_with y (word_of_nat (length y) * 8)))
      = (x = y) \<and> concat (chunks64 (pad_with x (word_of_nat (length x) * 8))) = pad_with x (word_of_nat (length x) * 8)"
proof -
  have c: "concat (chunks64 (pad_with z n)) = pad_with z n" for z n
    by (rule concat_chunks64) (rule pad_with_aligned)
  then have "chunks64 (padded x) = chunks64 (padded y) \<Longrightarrow> padded x = padded y"
    by (metis padded_def)
  with padded_inj [OF assms] c show ?thesis by (auto simp: padded_def)
qed

lemma sha256_padding_injective_witness:
  "chunks64 (pad_with [0] (word_of_nat (length [0 :: u8]) * 8)) \<noteq>
   chunks64 (pad_with [0, 0] (word_of_nat (length [0 :: u8, 0]) * 8))"
  using sha256_padding_injective [of "[0]" "[0, 0]"] by simp

section \<open>The session key is HKDF\<close>

text \<open>HKDF-SHA256 of RFC 5869: extract, then \<open>T(n) = HMAC(prk, T(n - 1) || info || n)\<close>.\<close>

fun hkdf_block :: "bytes \<Rightarrow> bytes \<Rightarrow> nat \<Rightarrow> bytes" where
  "hkdf_block prk info 0 = []"
| "hkdf_block prk info (Suc n) = hmac_sha256 prk (hkdf_block prk info n @ info @ [word_of_nat (Suc n)])"

definition hkdf :: "bytes \<Rightarrow> bytes \<Rightarrow> bytes \<Rightarrow> nat \<Rightarrow> bytes" where
  "hkdf salt ikm info len =
     take len (concat (map (hkdf_block (hmac_sha256 salt ikm) info) [1..<Suc ((len + 31) div 32)]))"


section \<open>Comparison, hexadecimal and the verdict on a login\<close>

lemma foldl_or_xor_0:
  "foldl (\<lambda>diff (x, y). diff OR (x XOR y)) (n :: u8) ps = 0 \<longleftrightarrow> n = 0 \<and> (\<forall>(x, y) \<in> set ps. x = y)"
proof (induction ps arbitrary: n)
  case (Cons p ps)
  have "n OR (fst p XOR snd p) = 0 \<longleftrightarrow> n = 0 \<and> fst p = snd p"
    by (auto simp: or_eq_0_iff bit_eq_iff bit_simps)
  with Cons show ?case by (cases p) auto
qed simp

lemma constant_time_eq_iff [simp]: "constant_time_eq a b \<longleftrightarrow> a = b"
proof (cases "length a = length b")
  case True
  then have "(\<forall>(x, y) \<in> set (zip a b). x = y) \<longleftrightarrow> a = b"
    by (induction a b rule: list_induct2) auto
  with True show ?thesis by (simp add: constant_time_eq_def foldl_or_xor_0)
qed (auto simp: constant_time_eq_def)

definition hex_string :: "bytes \<Rightarrow> string" where
  "hex_string bs = concat (map (fmt_hex False) bs)"

lemma hex_no_cont: "c \<in> set (fmt_hex up b) \<Longrightarrow> \<not> cont_byte c"
  using fmt_hex_hexdigit [of c up b]
  by (auto simp: cont_byte_def is_ascii_hexdigit_def is_ascii_digit_def)

lemma hex_decode_hex_string [simp]: "hex_decode (hex_string bs) = Some (Some bs)"
proof -
  have len: "length (hex_string bs) = 2 * length bs"
    by (induction bs) (simp_all add: hex_string_def)
  have "hex_pairs (hex_string bs) = Some (Some bs)"
  proof (induction bs)
    case (Cons b bs)
    obtain c d where cd: "fmt_hex False b = [c, d]"
      by (simp add: fmt_hex_def)
    have "\<not> cont_byte c" using hex_no_cont [of c False b] cd by simp
    moreover have "\<not> mid_char (hex_string bs)"
    proof (cases bs)
      case (Cons b' bs')
      obtain c' d' where cd': "fmt_hex False b' = [c', d']"
        by (simp add: fmt_hex_def)
      then have "\<not> cont_byte c'" using hex_no_cont [of c' False b'] by simp
      with Cons cd' show ?thesis by (simp add: mid_char_def hex_string_def)
    qed (simp add: mid_char_def hex_string_def)
    moreover have "u8_from_hex [c, d] = Some b" using u8_from_hex_fmt_hex [of False b] cd by simp
    ultimately show ?case using Cons by (simp add: hex_string_def cd)
  qed (simp add: hex_string_def)
  with len show ?thesis by (simp add: hex_decode_def)
qed

text \<open>The honest login is rejected: computed for the password \<open>a\<close> and the empty nonce.\<close>

lemma digest_of_a: "sha256 [97] =
     [202, 151, 129, 18, 202, 27, 189, 202, 250, 194, 49, 179, 154, 35, 220, 77,
      167, 134, 239, 248, 20, 124, 78, 114, 185, 128, 119, 133, 175, 238, 72, 187]"
  by code_simp

lemma digest_of_digest_of_a: "hd (sha256 (sha256 [97])) = 191"
  unfolding digest_of_a by code_simp

lemma honest_login_rejected:
  "verify_login_hash (hex_string (sha256 (str_bytes ''a''))) [] (create_login_hash ''a'' []) = Some False"
proof -
  have a: "str_bytes ''a'' = [97]" by code_simp
  have "sha256 (sha256 [97]) \<noteq> sha256 [97]"
    using digest_of_digest_of_a by (auto simp: digest_of_a)
  then show ?thesis by (simp add: verify_login_hash_def create_login_hash_def a)
qed


section \<open>The states of an authentication\<close>

datatype auth_state = WaitingForHandshake | HandshakeComplete | Authenticated | Failed

fun auth_state_display :: "auth_state \<Rightarrow> string" where
  "auth_state_display WaitingForHandshake = ''WaitingForHandshake''"
| "auth_state_display HandshakeComplete = ''HandshakeComplete''"
| "auth_state_display Authenticated = ''Authenticated''"
| "auth_state_display Failed = ''Failed''"

lemma auth_state_display_inject: "auth_state_display s = auth_state_display t \<longleftrightarrow> s = t"
  by (cases s; cases t) simp_all

end
