(* ===== verification/Noise.thy ===== *)
theory Noise
  imports Prelude
begin

text \<open>
  The Noise XX handshake and the encrypted session (\<open>crates/rdesk_crypto/src/noise.rs\<close>).  The state
  machines of the \<open>snow\<close> crate are parameters; what is modelled is the order in which the two sides
  call them and exchange messages, and every error path.
\<close>

section \<open>Errors\<close>

text \<open>\<open>CryptoError\<close>; what a message of \<open>InvalidKey\<close> says is kept as data.\<close>

datatype key_error = Wrong_length nat | Bad_hex string

datatype crypto_error =
  Noise_error string | Key_gen string | Encryption string | Decryption string | Auth_failed string
| Handshake string | Invalid_key key_error | Serialization | Io

abbreviation MAX_MESSAGE_LEN :: nat where "MAX_MESSAGE_LEN \<equiv> 65535"

section \<open>Calls of the handshake state\<close>

text \<open>
  \<open>write st payload room\<close> and \<open>read st message room\<close> stand for \<open>write_message\<close> and \<open>read_message\<close> with a
  buffer of \<open>room\<close> bytes; the message or payload is the filled part of the buffer.
\<close>

type_synonym 'h snow_call = "'h \<Rightarrow> bytes \<Rightarrow> nat \<Rightarrow> string + (bytes \<times> 'h)"

definition validate_key_length :: "bytes \<Rightarrow> crypto_error + unit" where
  "validate_key_length key = (if length key \<noteq> 32 then Inl (Invalid_key (Wrong_length (length key))) else Inr ())"

definition build_handshake :: "(bytes \<Rightarrow> string + 'h) \<Rightarrow> bytes \<Rightarrow> crypto_error + 'h" where
  "build_handshake build local_private_key =
     (case validate_key_length local_private_key of
        Inl e \<Rightarrow> Inl e
      | Inr _ \<Rightarrow> (case build local_private_key of Inl e \<Rightarrow> Inl (Handshake e) | Inr st \<Rightarrow> Inr st))"

definition handshake_write :: "'h snow_call \<Rightarrow> 'h \<Rightarrow> bytes \<Rightarrow> crypto_error + (bytes \<times> 'h)" where
  "handshake_write snow_write st payload =
     (case snow_write st payload MAX_MESSAGE_LEN of Inl e \<Rightarrow> Inl (Handshake e) | Inr r \<Rightarrow> Inr r)"

definition handshake_read :: "'h snow_call \<Rightarrow> 'h \<Rightarrow> bytes \<Rightarrow> crypto_error + (bytes \<times> 'h)" where
  "handshake_read snow_read st message =
     (case snow_read st message MAX_MESSAGE_LEN of Inl e \<Rightarrow> Inl (Handshake e) | Inr r \<Rightarrow> Inr r)"

section \<open>The drivers\<close>

text \<open>
  A driver is run by its callbacks: what it does next is to send a message, to wait for one, or to be
  finished.  The callbacks may fail, and a failure ends the driver.
\<close>

datatype 't driver =
  Send bytes "crypto_error + unit \<Rightarrow> 't driver"
| Receive "crypto_error + bytes \<Rightarrow> 't driver"
| Finished "crypto_error + 't"

definition attempt :: "crypto_error + 'a \<Rightarrow> ('a \<Rightarrow> 't driver) \<Rightarrow> 't driver" where
  "attempt r k = (case r of Inl e \<Rightarrow> Finished (Inl e) | Inr v \<Rightarrow> k v)"

definition into_transport_mode :: "('h \<Rightarrow> string + 't) \<Rightarrow> 'h \<Rightarrow> 't driver" where
  "into_transport_mode into st = Finished (case into st of Inl e \<Rightarrow> Inl (Handshake e) | Inr t \<Rightarrow> Inr t)"

definition complete_handshake_initiator ::
  "'h snow_call \<Rightarrow> 'h snow_call \<Rightarrow> ('h \<Rightarrow> string + 't) \<Rightarrow> 'h \<Rightarrow> 't driver" where
  "complete_handshake_initiator snow_write snow_read into st =
     attempt (handshake_write snow_write st []) (\<lambda>(msg1, st1).
     Send msg1 (\<lambda>r. attempt r (\<lambda>_.
     Receive (\<lambda>r. attempt r (\<lambda>msg2.
     attempt (handshake_read snow_read st1 msg2) (\<lambda>(_, st2).
     attempt (handshake_write snow_write st2 []) (\<lambda>(msg3, st3).
     Send msg3 (\<lambda>r. attempt r (\<lambda>_.
     into_transport_mode into st3)))))))))"

definition complete_handshake_responder ::
  "'h snow_call \<Rightarrow> 'h snow_call \<Rightarrow> ('h \<Rightarrow> string + 't) \<Rightarrow> 'h \<Rightarrow> 't driver" where
  "complete_handshake_responder snow_write snow_read into st =
     Receive (\<lambda>r. attempt r (\<lambda>msg1.
     attempt (handshake_read snow_read st msg1) (\<lambda>(_, st1).
     attempt (handshake_write snow_write st1 []) (\<lambda>(msg2, st2).
     Send msg2 (\<lambda>r. attempt r (\<lambda>_.
     Receive (\<lambda>r. attempt r (\<lambda>msg3.
     attempt (handshake_read snow_read st2 msg3) (\<lambda>(_, st3).
     into_transport_mode into st3)))))))))"

section \<open>The encrypted session\<close>

text \<open>The ciphertext buffer has room for the 16 bytes of the tag; the plaintext buffer is as long as the ciphertext.\<close>

definition noise_encrypt :: "'t snow_call \<Rightarrow> 't \<Rightarrow> bytes \<Rightarrow> crypto_error + (bytes \<times> 't)" where
  "noise_encrypt snow_write transport plaintext =
     (case snow_write transport plaintext (length plaintext + 16) of
        Inl e \<Rightarrow> Inl (Encryption e) | Inr r \<Rightarrow> Inr r)"

definition noise_decrypt :: "'t snow_call \<Rightarrow> 't \<Rightarrow> bytes \<Rightarrow> crypto_error + (bytes \<times> 't)" where
  "noise_decrypt snow_read transport ciphertext =
     (case snow_read transport ciphertext (length ciphertext) of
        Inl e \<Rightarrow> Inl (Decryption e) | Inr r \<Rightarrow> Inr r)"

section \<open>Two drivers and a network\<close>

text \<open>
  Both sides and the messages in flight in each direction.  A side sends when it wants to, and
  receives when a message has arrived; the two are scheduled in any order.
\<close>

record 't net =
  n_initiator :: "'t driver"
  n_responder :: "'t driver"
  n_to_responder :: "bytes list"
  n_to_initiator :: "bytes list"

inductive net_step :: "'t net \<Rightarrow> 't net \<Rightarrow> bool" where
  i_send: "n_initiator c = Send m k \<Longrightarrow>
    net_step c (c\<lparr>n_initiator := k (Inr ()), n_to_responder := n_to_responder c @ [m]\<rparr>)"
| i_receive: "n_initiator c = Receive k \<Longrightarrow> n_to_initiator c = m # ms \<Longrightarrow>
    net_step c (c\<lparr>n_initiator := k (Inr m), n_to_initiator := ms\<rparr>)"
| r_send: "n_responder c = Send m k \<Longrightarrow>
    net_step c (c\<lparr>n_responder := k (Inr ()), n_to_initiator := n_to_initiator c @ [m]\<rparr>)"
| r_receive: "n_responder c = Receive k \<Longrightarrow> n_to_responder c = m # ms \<Longrightarrow>
    net_step c (c\<lparr>n_responder := k (Inr m), n_to_responder := ms\<rparr>)"

inductive_cases net_stepE: "net_step c c'"

definition net_start ::
  "'h snow_call \<Rightarrow> 'h snow_call \<Rightarrow> ('h \<Rightarrow> string + 't) \<Rightarrow> 'h \<Rightarrow> 'h \<Rightarrow> 't net" where
  "net_start w r into i0 r0 =
     \<lparr>n_initiator = complete_handshake_initiator w r into i0,
      n_responder = complete_handshake_responder w r into r0,
      n_to_responder = [], n_to_initiator = []\<rparr>"

text \<open>
  What the XX pattern of \<open>snow\<close> provides to two honest sides: each of the three messages is written and
  is accepted by the other side, and both states then turn into transports.
\<close>

definition xx_agrees ::
  "'h snow_call \<Rightarrow> 'h snow_call \<Rightarrow> ('h \<Rightarrow> string + 't) \<Rightarrow> 'h \<Rightarrow> 'h \<Rightarrow> 't \<Rightarrow> 't \<Rightarrow> bool" where
  "xx_agrees w r into i0 r0 ti tr \<longleftrightarrow>
     (\<exists>m1 m2 m3 p1 p2 p3 i1 i2 i3 r1 r2 r3.
        w i0 [] MAX_MESSAGE_LEN = Inr (m1, i1) \<and> r r0 m1 MAX_MESSAGE_LEN = Inr (p1, r1) \<and>
        w r1 [] MAX_MESSAGE_LEN = Inr (m2, r2) \<and> r i1 m2 MAX_MESSAGE_LEN = Inr (p2, i2) \<and>
        w i2 [] MAX_MESSAGE_LEN = Inr (m3, i3) \<and> r r2 m3 MAX_MESSAGE_LEN = Inr (p3, r3) \<and>
        into i3 = Inr ti \<and> into r3 = Inr tr)"

lemmas driver_defs = complete_handshake_initiator_def complete_handshake_responder_def attempt_def
  handshake_write_def handshake_read_def into_transport_mode_def

text \<open>The configurations of an honest run, in order.\<close>

lemma net_run:
  assumes "xx_agrees w r into i0 r0 ti tr"
  obtains cs where "length cs = 7" and "hd cs = net_start w r into i0 r0"
    and "\<And>n c. n < 6 \<Longrightarrow> net_step (cs ! n) c \<longleftrightarrow> c = cs ! Suc n"
    and "\<And>c. \<not> net_step (cs ! 6) c"
    and "cs ! 6 = \<lparr>n_initiator = Finished (Inr ti), n_responder = Finished (Inr tr),
                  n_to_responder = [], n_to_initiator = []\<rparr>"
proof -
  obtain m1 m2 m3 p1 p2 p3 i1 i2 i3 r1 r2 r3 where X:
    "w i0 [] MAX_MESSAGE_LEN = Inr (m1, i1)" "r r0 m1 MAX_MESSAGE_LEN = Inr (p1, r1)"
    "w r1 [] MAX_MESSAGE_LEN = Inr (m2, r2)" "r i1 m2 MAX_MESSAGE_LEN = Inr (p2, i2)"
    "w i2 [] MAX_MESSAGE_LEN = Inr (m3, i3)" "r r2 m3 MAX_MESSAGE_LEN = Inr (p3, r3)"
    "into i3 = Inr ti" "into r3 = Inr tr"
    using assms unfolding xx_agrees_def by blast
  define I2 where "I2 = (\<lambda>x :: crypto_error + unit. attempt x (\<lambda>_. into_transport_mode into i3))"
  define I1 where "I1 = (\<lambda>x. attempt x (\<lambda>msg2. attempt (handshake_read r i1 msg2) (\<lambda>(_, st2).
     attempt (handshake_write w st2 []) (\<lambda>(msg3, st3). Send msg3 (\<lambda>x. attempt x (\<lambda>_.
     into_transport_mode into st3))))))"
  define I0 where "I0 = (\<lambda>x :: crypto_error + unit. attempt x (\<lambda>_. Receive I1))"
  define R2 where "R2 = (\<lambda>x. attempt x (\<lambda>msg3. attempt (handshake_read r r2 msg3) (\<lambda>(_, st3).
     into_transport_mode into st3)))"
  define R1 where "R1 = (\<lambda>x :: crypto_error + unit. attempt x (\<lambda>_. Receive R2))"
  define R0 where "R0 = (\<lambda>x. attempt x (\<lambda>msg1. attempt (handshake_read r r0 msg1) (\<lambda>(_, st1).
     attempt (handshake_write w st1 []) (\<lambda>(msg2, st2). Send msg2 (\<lambda>x. attempt x (\<lambda>_.
     Receive (\<lambda>x. attempt x (\<lambda>msg3. attempt (handshake_read r st2 msg3) (\<lambda>(_, st3).
     into_transport_mode into st3)))))))))"
  have i: "complete_handshake_initiator w r into i0 = Send m1 I0"
    and rr: "complete_handshake_responder w r into r0 = Receive R0"
    by (simp_all add: complete_handshake_initiator_def complete_handshake_responder_def I0_def I1_def R0_def
        handshake_write_def X(1) attempt_def)
  have k: "I0 (Inr ()) = Receive I1" "I1 (Inr m2) = Send m3 I2" "I2 (Inr ()) = Finished (Inr ti)"
    "R0 (Inr m1) = Send m2 R1" "R1 (Inr ()) = Receive R2" "R2 (Inr m3) = Finished (Inr tr)"
    by (simp_all add: I0_def I1_def I2_def R0_def R1_def R2_def attempt_def handshake_write_def
        handshake_read_def into_transport_mode_def X)
  define cs where "cs =
    [\<lparr>n_initiator = Send m1 I0, n_responder = Receive R0, n_to_responder = [], n_to_initiator = []\<rparr>,
     \<lparr>n_initiator = Receive I1, n_responder = Receive R0, n_to_responder = [m1], n_to_initiator = []\<rparr>,
     \<lparr>n_initiator = Receive I1, n_responder = Send m2 R1, n_to_responder = [], n_to_initiator = []\<rparr>,
     \<lparr>n_initiator = Receive I1, n_responder = Receive R2, n_to_responder = [], n_to_initiator = [m2]\<rparr>,
     \<lparr>n_initiator = Send m3 I2, n_responder = Receive R2, n_to_responder = [], n_to_initiator = []\<rparr>,
     \<lparr>n_initiator = Finished (Inr ti), n_responder = Receive R2, n_to_responder = [m3], n_to_initiator = []\<rparr>,
     \<lparr>n_initiator = Finished (Inr ti), n_responder = Finished (Inr tr), n_to_responder = [], n_to_initiator = []\<rparr>]"
  show ?thesis
  proof (rule that [of cs])
    show "length cs = 7" "hd cs = net_start w r into i0 r0"
      by (simp_all add: cs_def net_start_def i rr)
    show "net_step (cs ! n) c \<longleftrightarrow> c = cs ! Suc n" if "n < 6" for n c
    proof -
      from that have "n = 0 \<or> n = 1 \<or> n = 2 \<or> n = 3 \<or> n = 4 \<or> n = 5" by auto
      then show ?thesis
        by (elim disjE) (auto simp: cs_def k net_step.simps)
    qed
    show "\<not> net_step (cs ! 6) c" for c
      by (auto simp: cs_def net_step.simps)
    show "cs ! 6 = \<lparr>n_initiator = Finished (Inr ti), n_responder = Finished (Inr tr),
                  n_to_responder = [], n_to_initiator = []\<rparr>"
      by (simp add: cs_def)
  qed
qed

text \<open>
  C40: two honest sides complete the handshake.  However they are scheduled, the run cannot get stuck
  before both have finished, it ends after exactly six steps, and then both hold their transport and
  no message is left.
\<close>

theorem handshake_completes:
  assumes "xx_agrees w r into i0 r0 ti tr" and "(net_step ^^ n) (net_start w r into i0 r0) c"
  shows "n \<le> 6 \<and> ((\<nexists>c'. net_step c c') \<longleftrightarrow> n = 6) \<and>
    (n = 6 \<longrightarrow> c = \<lparr>n_initiator = Finished (Inr ti), n_responder = Finished (Inr tr),
                  n_to_responder = [], n_to_initiator = []\<rparr>)"
proof -
  obtain cs where cs: "length cs = 7" "hd cs = net_start w r into i0 r0"
    "\<And>n c. n < 6 \<Longrightarrow> net_step (cs ! n) c \<longleftrightarrow> c = cs ! Suc n" "\<And>c. \<not> net_step (cs ! 6) c"
    "cs ! 6 = \<lparr>n_initiator = Finished (Inr ti), n_responder = Finished (Inr tr),
                  n_to_responder = [], n_to_initiator = []\<rparr>"
    using net_run [OF assms(1)] by blast
  have "n \<le> 6 \<and> c = cs ! n"
    using assms(2)
  proof (induction n arbitrary: c)
    case 0
    then show ?case using cs(1,2) by (cases cs) auto
  next
    case (Suc n)
    then obtain b where b: "n \<le> 6" "net_step (cs ! n) c" by auto
    then have "n < 6" using cs(4) by (cases "n = 6") auto
    then show ?case using b(2) cs(3) by auto
  qed
  then show ?thesis using cs(3) [of n] cs(4,5) by (cases "n = 6") auto
qed

text \<open>A toy pattern whose state counts the calls: it agrees, and the handshake starts.\<close>

theorem handshake_completes_witness:
  "\<exists>c'. net_step (net_start (\<lambda>st p n. Inr ([of_nat st], Suc st)) (\<lambda>st m n. Inr ([], Suc st)) Inr (0 :: nat) 0) c'"
proof -
  let ?w = "\<lambda>st p (n :: nat). Inr ([of_nat st], Suc st) :: string + (bytes \<times> nat)"
  let ?r = "\<lambda>st (m :: bytes) (n :: nat). Inr ([], Suc st) :: string + (bytes \<times> nat)"
  have "xx_agrees ?w ?r Inr 0 0 3 3"
    by (simp add: xx_agrees_def)
  from handshake_completes [OF this, of 0 "net_start ?w ?r Inr 0 0"] show ?thesis by simp
qed

lemma short_key_refused: "length key \<noteq> 32 \<Longrightarrow> build_handshake build key = Inl (Invalid_key (Wrong_length (length key)))"
  by (simp add: build_handshake_def validate_key_length_def)

text \<open>
  Messages on an established session: if the transports of the two sides are in step, what one
  encrypts the other decrypts, provided the cipher adds exactly its 16-byte tag.
\<close>

lemma encrypt_decrypt:
  assumes "w t m (length m + 16) = Inr (x, t1)" and "length x = length m + 16"
    and "r u x (length m + 16) = Inr (m, u1)"
  shows "noise_encrypt w t m = Inr (x, t1) \<and> noise_decrypt r u x = Inr (m, u1)"
  using assms by (simp add: noise_encrypt_def noise_decrypt_def)

end
