(* ===== verification/Local_Files.thy ===== *)
theory Local_Files
  imports Prelude
begin

text \<open>
  Files of a client: from paths to contents.  \<open>std::fs::write\<close> truncates the file before it writes, so when
  it fails in the middle the file holds a part of the new content and nothing of the old.
\<close>

type_synonym local_files = "(string, string) hmap"

datatype write_outcome = Cannot_open | Stops_after nat | Completes

definition fs_write :: "write_outcome \<Rightarrow> string \<Rightarrow> string \<Rightarrow> local_files \<Rightarrow> bool \<times> local_files" where
  "fs_write outcome path content fs =
     (case outcome of
        Cannot_open \<Rightarrow> (False, fs)
      | Stops_after n \<Rightarrow> (False, hput path (take n content) fs)
      | Completes \<Rightarrow> (True, hput path content fs))"

lemma fs_write_ok: "fst (fs_write w path content fs) \<longleftrightarrow> w = Completes"
  by (cases w) (simp_all add: fs_write_def)

lemma fs_write_True: "fs_write w path content fs = (True, fs') \<longleftrightarrow> w = Completes \<and> fs' = hput path content fs"
  by (cases w) (auto simp: fs_write_def)

lemma fs_write_other: "p \<noteq> path \<Longrightarrow> hget (snd (fs_write w path content fs)) p = hget fs p"
  by (cases w) (simp_all add: fs_write_def)

lemma fs_write_Completes [simp]: "fs_write Completes path content fs = (True, hput path content fs)"
  by (simp add: fs_write_def)

end
