(* ===== verification/Key_File.thy ===== *)
theory Key_File
  imports Login_Auth Noise Local_Files
begin

text \<open>
  Key pairs and the file they are kept in (\<open>crates/rdesk_crypto/src/keypair.rs\<close>).  The scalar
  multiplication of \<open>x25519-dalek\<close> and the JSON of \<open>serde_json\<close> are parameters.
\<close>

record key_pair =
  kp_public :: bytes
  kp_private :: bytes

record key_pair_file =
  kf_public_key :: string
  kf_private_key :: string

definition from_bytes :: "bytes \<Rightarrow> bytes \<Rightarrow> key_pair" where
  "from_bytes public private = \<lparr>kp_public = public, kp_private = private\<rparr>"

text \<open>\<open>secret\<close> is the random scalar.\<close>

definition generate_keypair :: "(bytes \<Rightarrow> bytes) \<Rightarrow> bytes \<Rightarrow> key_pair" where
  "generate_keypair public_of secret = from_bytes (public_of secret) secret"

definition hex_encode :: "bytes \<Rightarrow> string" where
  "hex_encode bs = concat (map (fmt_hex False) bs)"

text \<open>What \<open>Debug\<close> shows of a pair: the fields by name.\<close>

definition key_pair_debug :: "key_pair \<Rightarrow> string \<times> (string \<times> string) list" where
  "key_pair_debug k =
     (''KeyPair'', [(''public_key'', hex_encode (kp_public k)), (''private_key'', ''[REDACTED]'')])"

text \<open>
  The module's own \<open>hex::decode\<close> is the loop of \<open>auth.rs\<close> with an error instead of \<open>None\<close>; the outer
  \<open>None\<close> is the panic of a slice inside a character.
\<close>

definition hex_decode_bytes :: "string \<Rightarrow> (crypto_error + bytes) option" where
  "hex_decode_bytes s =
     (if length s mod 2 \<noteq> 0 then Some (Inl (Invalid_key (Bad_hex s)))
      else map_option (\<lambda>r. case r of None \<Rightarrow> Inl (Invalid_key (Bad_hex s)) | Some bs \<Rightarrow> Inr bs) (hex_pairs s))"

definition decode_hex_key :: "string \<Rightarrow> (crypto_error + bytes) option" where
  "decode_hex_key hex_str =
     (case hex_decode_bytes hex_str of
        None \<Rightarrow> None
      | Some (Inl e) \<Rightarrow> Some (Inl e)
      | Some (Inr bs) \<Rightarrow> Some (if length bs \<noteq> 32 then Inl (Invalid_key (Wrong_length (length bs))) else Inr bs))"

text \<open>
  The disk: file contents and their modes.  \<open>dirs_ok\<close> and \<open>chmod_ok\<close> say which calls of the operating
  system succeed, \<open>outcome\<close> what becomes of the write.
\<close>

record disk =
  dk_files :: local_files
  dk_modes :: "(string, nat) hmap"

definition write_file :: "write_outcome \<Rightarrow> nat \<Rightarrow> string \<Rightarrow> string \<Rightarrow> disk \<Rightarrow> bool \<times> disk" where
  "write_file outcome default_mode path content d =
     (let (ok, fs) = fs_write outcome path content (dk_files d) in
      (ok, \<lparr>dk_files = fs,
        dk_modes = (if hhas fs path \<and> \<not> hhas (dk_files d) path
                    then hput path default_mode (dk_modes d) else dk_modes d)\<rparr>))"

definition save_keypair ::
  "(key_pair_file \<Rightarrow> string) \<Rightarrow> bool \<Rightarrow> write_outcome \<Rightarrow> bool \<Rightarrow> nat \<Rightarrow> key_pair \<Rightarrow> string \<Rightarrow> disk \<Rightarrow>
     (crypto_error + unit) \<times> disk" where
  "save_keypair to_json dirs_ok outcome chmod_ok default_mode keypair path d =
     (let file = \<lparr>kf_public_key = hex_encode (kp_public keypair), kf_private_key = hex_encode (kp_private keypair)\<rparr>;
          json = to_json file in
      if \<not> dirs_ok then (Inl Io, d)
      else
        let (written, d1) = write_file outcome default_mode path json d in
        if \<not> written then (Inl Io, d1)
        else if \<not> chmod_ok then (Inl Io, d1)
        else (Inr (), d1\<lparr>dk_modes := hput path 384 (dk_modes d1)\<rparr>))"

definition load_keypair :: "(string \<Rightarrow> key_pair_file option) \<Rightarrow> string \<Rightarrow> disk \<Rightarrow> (crypto_error + key_pair) option" where
  "load_keypair of_json path d =
     (case hget (dk_files d) path of
        None \<Rightarrow> Some (Inl Io)
      | Some data \<Rightarrow>
          (case of_json data of
             None \<Rightarrow> Some (Inl Serialization)
           | Some file \<Rightarrow>
               (case decode_hex_key (kf_public_key file) of
                  None \<Rightarrow> None
                | Some (Inl e) \<Rightarrow> Some (Inl e)
                | Some (Inr public) \<Rightarrow>
                    (case decode_hex_key (kf_private_key file) of
                       None \<Rightarrow> None
                     | Some (Inl e) \<Rightarrow> Some (Inl e)
                     | Some (Inr private) \<Rightarrow> Some (Inr (from_bytes public private))))))"

lemma decode_hex_encode: "length bs = 32 \<Longrightarrow> decode_hex_key (hex_encode bs) = Some (Inr bs)"
proof -
  assume l: "length bs = 32"
  have len: "length (hex_encode bs) = 2 * length bs"
    by (induction bs) (simp_all add: hex_encode_def)
  have "hex_decode (hex_encode bs) = Some (Some bs)"
    using hex_decode_hex_string [of bs] by (simp add: hex_string_def hex_encode_def)
  then have "hex_pairs (hex_encode bs) = Some (Some bs)"
    by (simp add: hex_decode_def len)
  then show ?thesis by (simp add: decode_hex_key_def hex_decode_bytes_def len l)
qed

lemma loaded_keys_are_32_bytes:
  "load_keypair of_json path d = Some (Inr k) \<Longrightarrow> length (kp_public k) = 32 \<and> length (kp_private k) = 32"
  by (auto simp: load_keypair_def decode_hex_key_def from_bytes_def split: option.splits sum.splits if_splits)

text \<open>
  A saved pair is loaded as it was, and afterwards only the owner can read the file; for an instant
  after a first write the file has the process's default mode.
\<close>

lemma save_load_keypair:
  assumes "\<And>f. of_json (to_json f) = Some f"
    and "length (kp_public k) = 32" and "length (kp_private k) = 32"
    and "save_keypair to_json True Completes True m k path d = (r, d')"
  shows "r = Inr () \<and> load_keypair of_json path d' = Some (Inr k) \<and> hget (dk_modes d') path = Some 384"
  using assms(4)
  by (auto simp: save_keypair_def write_file_def load_keypair_def assms(1-3) decode_hex_encode from_bytes_def Let_def)

text \<open>
  A first write that does not get as far as the mode leaves the file, with whatever of the private key was
  written, readable as the process's default mode has it.
\<close>

lemma key_file_left_readable:
  assumes "hget (dk_files d) path = None"
    and "save_keypair to_json True outcome False m k path d = (r, d')" and "outcome \<noteq> Cannot_open"
  shows "r = Inl Io \<and> hget (dk_modes d') path = Some m \<and> hhas (dk_files d') path"
  using assms by (cases outcome) (auto simp: save_keypair_def write_file_def fs_write_def hhas_def Let_def)

text \<open>What is shown of a pair does not depend on its private key.\<close>

lemma debug_hides_private: "kp_public a = kp_public b \<Longrightarrow> key_pair_debug a = key_pair_debug b"
  by (simp add: key_pair_debug_def)

end
