(* ===== verification/Framing.thy ===== *)
theory Framing
  imports Endian
begin

text \<open>
  The length-prefixed framings: \<open>encode_message\<close>, \<open>decode_message\<close> and \<open>BytesCodec\<close> of
  \<open>crates/rdesk_common/src/bytes_codec.rs\<close>, and the messages and stream tags of
  \<open>crates/rdesk_net/src/quic/stream.rs\<close>.  A decoder works on an accumulation buffer and returns the
  rest of it; a QUIC stream is the sequence of bytes still to be read.
\<close>

section \<open>The contract of a framing\<close>

text \<open>
  \<open>next\<close> is the decoder's step on its buffer: the first frame's payload and the rest, or \<open>None\<close> when
  there is no frame to take.
\<close>

fun drain :: "nat \<Rightarrow> (bytes \<Rightarrow> (bytes \<times> bytes) option) \<Rightarrow> bytes \<Rightarrow> bytes list \<times> bytes" where
  "drain 0 next buf = ([], buf)"
| "drain (Suc n) next buf =
     (case next buf of
        None \<Rightarrow> ([], buf)
      | Some (m, rest) \<Rightarrow> let (ms, r) = drain n next rest in (m # ms, r))"

text \<open>
  A receiver: append each chunk that arrives to the buffer and take every complete frame.  A frame is
  at least one byte, so as many turns as there are bytes are enough.
\<close>

definition receive :: "(bytes \<Rightarrow> (bytes \<times> bytes) option) \<Rightarrow> bytes list \<Rightarrow> bytes list \<times> bytes" where
  "receive next chunks =
     foldl (\<lambda>(out, buf) chunk. let (ms, r) = drain (length (buf @ chunk)) next (buf @ chunk) in (out @ ms, r))
       ([], []) chunks"

locale framing =
  fixes frame :: "bytes \<Rightarrow> bytes" and fits :: "bytes \<Rightarrow> bool"
    and "next" :: "bytes \<Rightarrow> (bytes \<times> bytes) option"
  assumes frame_nonempty: "frame m \<noteq> []"
    and next_frame: "fits m \<Longrightarrow> next (frame m @ rest) = Some (m, rest)"
    and next_sound: "next b = Some (m, rest) \<Longrightarrow> b = frame m @ rest \<and> fits m"
begin

lemma next_more: "next b = Some (m, rest) \<Longrightarrow> next (b @ c) = Some (m, rest @ c)"
  using next_sound [of b m rest] next_frame by auto

lemma next_shrinks: "next b = Some (m, rest) \<Longrightarrow> length rest < length b"
  using next_sound [of b m rest] frame_nonempty [of m] by auto

lemma next_Nil: "next [] = None"
  using next_shrinks [of "[]"] by (cases "next []") auto

lemma drain_Nil: "drain n next [] = ([], [])"
  by (cases n) (simp_all add: next_Nil)

lemma drain_enough:
  "length buf \<le> n \<Longrightarrow> length buf \<le> k \<Longrightarrow> drain n next buf = drain k next buf"
proof (induction n arbitrary: k buf)
  case (Suc n)
  show ?case
  proof (cases "next buf")
    case (Some mr)
    obtain m r where mr: "mr = (m, r)" by fastforce
    with next_shrinks Some have "length r < length buf" by blast
    with Suc.prems obtain k' where k: "k = Suc k'" "length r \<le> k'" "length r \<le> n" by (cases k) auto
    with Suc.IH [OF k(3,2)] show ?thesis by (simp add: Some mr)
  qed (cases k; simp)
qed (simp add: drain_Nil)

lemma drain_append:
  "length buf \<le> n \<Longrightarrow> drain n next buf = (ms, r) \<Longrightarrow>
   drain (length (buf @ c)) next (buf @ c) =
     (let (ms', r') = drain (length (r @ c)) next (r @ c) in (ms @ ms', r'))"
proof (induction n arbitrary: buf ms)
  case 0
  then show ?case by (simp add: case_prod_beta)
next
  case (Suc n)
  show ?case
  proof (cases "next buf")
    case None
    with Suc.prems show ?thesis by (simp add: case_prod_beta)
  next
    case (Some mr)
    obtain m q where mr: "mr = (m, q)" by fastforce
    with next_shrinks Some have q: "length q < length buf" by blast
    obtain ms1 r1 where d1: "drain n next q = (ms1, r1)" by fastforce
    with Suc.prems(2) Some mr have d: "drain n next q = (ms1, r)" "ms = m # ms1" by auto
    have "next (buf @ c) = Some (m, q @ c)" using next_more Some mr by blast
    moreover obtain k where k: "length (buf @ c) = Suc k" using q by (cases "length (buf @ c)") auto
    moreover have "drain k next (q @ c) = drain (length (q @ c)) next (q @ c)"
      by (rule drain_enough) (use q k in simp_all)
    ultimately show ?thesis
      using Suc.IH [of q ms1] Suc.prems(1) q d by (simp add: case_prod_beta Let_def)
  qed
qed

lemma receive_append: "receive next chunks = drain (length (concat chunks)) next (concat chunks)"
proof (induction chunks rule: rev_induct)
  case (snoc c chunks)
  obtain ms r where d: "drain (length (concat chunks)) next (concat chunks) = (ms, r)" by fastforce
  from drain_append [OF order_refl this, of c] snoc d show ?case
    by (simp add: receive_def case_prod_beta)
qed (simp add: receive_def)

lemma drain_frames:
  "list_all fits ms \<Longrightarrow> next rest = None \<Longrightarrow> length (concat (map frame ms) @ rest) \<le> n \<Longrightarrow>
   drain n next (concat (map frame ms) @ rest) = (ms, rest)"
proof (induction ms arbitrary: n)
  case Nil
  then show ?case by (cases n) auto
next
  case (Cons m ms)
  have "0 < length (frame m)" using frame_nonempty by simp
  with Cons.prems(3) have "length (concat (map frame ms) @ rest) < n"
    by (simp del: length_greater_0_conv)
  then obtain k where "n = Suc k" "length (concat (map frame ms) @ rest) \<le> k"
    by (cases n) simp_all
  with Cons show ?case by (simp add: next_frame)
qed

lemma any_chunking:
  assumes "list_all fits ms" "next rest = None" "concat chunks = concat (map frame ms) @ rest"
  shows "receive next chunks = (ms, rest)"
  unfolding receive_append assms(3) by (rule drain_frames [OF assms(1,2)]) simp

end

section \<open>The codec of the common crate\<close>

abbreviation LENGTH_PREFIX_SIZE :: nat where "LENGTH_PREFIX_SIZE \<equiv> 4"

definition encode_message :: "bytes \<Rightarrow> bytes" where
  "encode_message msg = be32 (word_of_nat (length msg)) @ msg"

definition decode_message :: "bytes \<Rightarrow> bytes option \<times> bytes" where
  "decode_message buf =
     (if length buf < LENGTH_PREFIX_SIZE then (None, buf)
      else
        let len = unat (of_be32 [buf ! 0, buf ! 1, buf ! 2, buf ! 3]) in
        if length buf < LENGTH_PREFIX_SIZE + len then (None, buf)
        else
          let rest = drop LENGTH_PREFIX_SIZE buf
          in (Some (take len rest), drop len rest))"

record bytes_codec =
  max_frame_length :: nat

datatype codec_error = Frame_too_large nat nat

definition codec_new :: bytes_codec where
  "codec_new = \<lparr>max_frame_length = 16 * 1024 * 1024\<rparr>"

definition with_max_frame_length :: "nat \<Rightarrow> bytes_codec" where
  "with_max_frame_length n = \<lparr>max_frame_length = n\<rparr>"

definition codec_decode :: "bytes_codec \<Rightarrow> bytes \<Rightarrow> (codec_error + bytes option) \<times> bytes" where
  "codec_decode codec buf =
     (if length buf < LENGTH_PREFIX_SIZE then (Inr None, buf)
      else
        let len = unat (of_be32 [buf ! 0, buf ! 1, buf ! 2, buf ! 3]) in
        if max_frame_length codec < len then (Inl (Frame_too_large len (max_frame_length codec)), buf)
        else if length buf < LENGTH_PREFIX_SIZE + len then (Inr None, buf)
        else
          let rest = drop LENGTH_PREFIX_SIZE buf
          in (Inr (Some (take len rest)), drop len rest))"

definition codec_encode :: "bytes_codec \<Rightarrow> bytes \<Rightarrow> bytes \<Rightarrow> (codec_error + unit) \<times> bytes" where
  "codec_encode codec msg buf =
     (let len = length msg in
      if max_frame_length codec < len then (Inl (Frame_too_large len (max_frame_length codec)), buf)
      else (Inr (), buf @ be32 (word_of_nat len) @ msg))"

section \<open>Messages and tags on a QUIC stream\<close>

definition MAX_MESSAGE_SIZE :: u32 where "MAX_MESSAGE_SIZE = 16 * 1024 * 1024"

datatype stream_type = Control | Video | File | Chat

definition stream_tag :: "stream_type \<Rightarrow> u8" where
  "stream_tag t = (case t of Control \<Rightarrow> 0 | Video \<Rightarrow> 1 | File \<Rightarrow> 2 | Chat \<Rightarrow> 3)"

definition from_u8 :: "u8 \<Rightarrow> stream_type option" where
  "from_u8 v =
     (if v = 0 then Some Control
      else if v = 1 then Some Video
      else if v = 2 then Some File
      else if v = 3 then Some Chat
      else None)"

datatype stream_error =
  Too_large u32
| Incoming_too_large u32
| Failed_to_read_length
| Failed_to_read_body
| Failed_to_write_length
| Failed_to_write_body
| Failed_to_read_tag
| Failed_to_write_tag
| Failed_to_open
| Failed_to_accept
| Unknown_tag u8

text \<open>
  \<open>failure\<close> tells for each write whether the transport fails, and after how many bytes; what was written
  before is on the wire.
\<close>

definition write_all :: "nat option \<Rightarrow> stream_error \<Rightarrow> bytes \<Rightarrow> bytes \<Rightarrow> (stream_error + unit) \<times> bytes" where
  "write_all failure e data out =
     (case failure of None \<Rightarrow> (Inr (), out @ data) | Some n \<Rightarrow> (Inl e, out @ take n data))"

definition read_exact :: "nat \<Rightarrow> stream_error \<Rightarrow> bytes \<Rightarrow> (stream_error + bytes) \<times> bytes" where
  "read_exact n e stream =
     (if length stream < n then (Inl e, []) else (Inr (take n stream), drop n stream))"

text \<open>A stream as it is opened; \<open>opened\<close> and \<open>incoming\<close> are what the connection answers.\<close>

definition open_typed_stream :: "bool \<Rightarrow> nat option \<Rightarrow> stream_type \<Rightarrow> (stream_error + unit) \<times> bytes" where
  "open_typed_stream opened failure t =
     (if \<not> opened then (Inl Failed_to_open, []) else write_all failure Failed_to_write_tag [stream_tag t] [])"

definition open_control_stream :: "bool \<Rightarrow> nat option \<Rightarrow> (stream_error + unit) \<times> bytes" where
  "open_control_stream opened failure = open_typed_stream opened failure Control"

definition open_video_stream :: "bool \<Rightarrow> nat option \<Rightarrow> (stream_error + unit) \<times> bytes" where
  "open_video_stream opened failure = open_typed_stream opened failure Video"

definition open_file_stream :: "bool \<Rightarrow> nat option \<Rightarrow> (stream_error + unit) \<times> bytes" where
  "open_file_stream opened failure = open_typed_stream opened failure File"

definition open_chat_stream :: "bool \<Rightarrow> nat option \<Rightarrow> (stream_error + unit) \<times> bytes" where
  "open_chat_stream opened failure = open_typed_stream opened failure Chat"

definition accept_stream :: "bytes option \<Rightarrow> (stream_error + stream_type) \<times> bytes" where
  "accept_stream incoming =
     (case incoming of
        None \<Rightarrow> (Inl Failed_to_accept, [])
      | Some stream \<Rightarrow>
          (case read_exact 1 Failed_to_read_tag stream of
             (Inl e, rest) \<Rightarrow> (Inl e, rest)
           | (Inr tag, rest) \<Rightarrow>
               (case from_u8 (tag ! 0) of
                  None \<Rightarrow> (Inl (Unknown_tag (tag ! 0)), rest)
                | Some t \<Rightarrow> (Inr t, rest))))"

definition send_message :: "nat option \<Rightarrow> nat option \<Rightarrow> bytes \<Rightarrow> bytes \<Rightarrow> (stream_error + unit) \<times> bytes" where
  "send_message fail1 fail2 data out =
     (let len = word_of_nat (length data) :: u32 in
      if MAX_MESSAGE_SIZE < len then (Inl (Too_large len), out)
      else
        (case write_all fail1 Failed_to_write_length (be32 len) out of
           (Inl e, out1) \<Rightarrow> (Inl e, out1)
         | (Inr _, out1) \<Rightarrow> write_all fail2 Failed_to_write_body data out1))"

definition recv_message :: "bytes \<Rightarrow> (stream_error + bytes) \<times> bytes" where
  "recv_message stream =
     (case read_exact LENGTH_PREFIX_SIZE Failed_to_read_length stream of
        (Inl e, rest) \<Rightarrow> (Inl e, rest)
      | (Inr len_buf, rest) \<Rightarrow>
          let len = of_be32 len_buf in
          if MAX_MESSAGE_SIZE < len then (Inl (Incoming_too_large len), rest)
          else read_exact (unat len) Failed_to_read_body rest)"

section \<open>Both framings keep the contract\<close>

lemma of_be32_take: "4 \<le> length b \<Longrightarrow> of_be32 [b ! 0, b ! Suc 0, b ! 2, b ! 3] = of_be32 (take 4 b)"
  by (simp add: of_be32_def)

lemma unat_length32: "length m < 2 ^ 32 \<Longrightarrow> unat (word_of_nat (length m) :: u32) = length m"
  by (subst unat_of_nat) simp

lemma take_append_be32 [simp]: "take 4 (be32 w @ b) = be32 w" "drop 4 (be32 w @ b) = b"
  by simp_all

text \<open>A buffer whose prefix announces at most what it holds starts with the frame of that payload.\<close>

lemma frame_split:
  assumes "4 \<le> length b" "4 + unat (of_be32 (take 4 b)) \<le> length b"
  shows "b = encode_message (take (unat (of_be32 (take 4 b))) (drop 4 b)) @ drop (unat (of_be32 (take 4 b))) (drop 4 b)"
proof -
  let ?w = "of_be32 (take 4 b)"
  have w: "be32 ?w = take 4 b" by (rule be32_of_be32) (use assms in simp)
  have "length (take (unat ?w) (drop 4 b)) = unat ?w" using assms by simp
  then have "encode_message (take (unat ?w) (drop 4 b)) = take 4 b @ take (unat ?w) (drop 4 b)"
    using w by (simp only: encode_message_def of_nat_unat ucast_id)
  then show ?thesis by (simp only: append.assoc append_take_drop_id)
qed

lemma length_take32: "length (take (unat (w :: u32)) xs) < 2 ^ 32"
proof -
  have "unat w < 2 ^ LENGTH(32)" by (rule unsigned_less)
  then show ?thesis by (simp add: min_less_iff_disj)
qed

definition codec_next :: "bytes_codec \<Rightarrow> bytes \<Rightarrow> (bytes \<times> bytes) option" where
  "codec_next codec buf =
     (case codec_decode codec buf of (Inr (Some m), rest) \<Rightarrow> Some (m, rest) | _ \<Rightarrow> None)"

definition message_next :: "bytes \<Rightarrow> (bytes \<times> bytes) option" where
  "message_next buf = (case decode_message buf of (Some m, rest) \<Rightarrow> Some (m, rest) | _ \<Rightarrow> None)"

definition stream_next :: "bytes \<Rightarrow> (bytes \<times> bytes) option" where
  "stream_next stream = (case recv_message stream of (Inr m, rest) \<Rightarrow> Some (m, rest) | _ \<Rightarrow> None)"

lemma next_eq:
  "codec_next codec b =
     (if 4 \<le> length b \<and> unat (of_be32 (take 4 b)) \<le> max_frame_length codec \<and> 4 + unat (of_be32 (take 4 b)) \<le> length b
      then Some (take (unat (of_be32 (take 4 b))) (drop 4 b), drop (unat (of_be32 (take 4 b))) (drop 4 b)) else None)"
  "message_next b =
     (if 4 \<le> length b \<and> 4 + unat (of_be32 (take 4 b)) \<le> length b
      then Some (take (unat (of_be32 (take 4 b))) (drop 4 b), drop (unat (of_be32 (take 4 b))) (drop 4 b)) else None)"
  "stream_next b =
     (if 4 \<le> length b \<and> of_be32 (take 4 b) \<le> MAX_MESSAGE_SIZE \<and> 4 + unat (of_be32 (take 4 b)) \<le> length b
      then Some (take (unat (of_be32 (take 4 b))) (drop 4 b), drop (unat (of_be32 (take 4 b))) (drop 4 b)) else None)"
  by (auto simp: codec_next_def codec_decode_def message_next_def decode_message_def stream_next_def
      recv_message_def read_exact_def of_be32_take Let_def)

lemma encode_nonempty: "encode_message m \<noteq> []"
  using length_be(2) [of "word_of_nat (length m)"] by (auto simp: encode_message_def simp del: length_be)

text \<open>A step that succeeds takes the frame of its payload off the buffer.\<close>

lemma next_split:
  assumes "4 \<le> length b \<and> 4 + unat (of_be32 (take 4 b)) \<le> length b"
    and "m = take (unat (of_be32 (take 4 b))) (drop 4 b)" "rest = drop (unat (of_be32 (take 4 b))) (drop 4 b)"
  shows "b = encode_message m @ rest" "length m < 2 ^ 32" "length m = unat (of_be32 (take 4 b))"
proof -
  show "b = encode_message m @ rest" unfolding assms(2,3) using assms(1) by (intro frame_split) auto
  show "length m < 2 ^ 32" unfolding assms(2) by (rule length_take32)
  show "length m = unat (of_be32 (take 4 b))" using assms(1) unfolding assms(2) length_take length_drop by linarith
qed

interpretation msg: framing encode_message "\<lambda>m. length m < 2 ^ 32" message_next
proof
  show "encode_message m \<noteq> []" for m by (rule encode_nonempty)
  show "message_next (encode_message m @ rest) = Some (m, rest)" if "length m < 2 ^ 32" for m rest
    by (simp add: next_eq encode_message_def unat_length32 [OF that])
  show "b = encode_message m @ rest \<and> length m < 2 ^ 32" if "message_next b = Some (m, rest)" for b m rest
  proof -
    have c: "4 \<le> length b \<and> 4 + unat (of_be32 (take 4 b)) \<le> length b"
      "m = take (unat (of_be32 (take 4 b))) (drop 4 b)" "rest = drop (unat (of_be32 (take 4 b))) (drop 4 b)"
      using that by (simp_all add: next_eq split: if_splits)
    show ?thesis using next_split(1,2) [OF c] by blast
  qed
qed

interpretation codec: framing encode_message "\<lambda>m. length m \<le> max_frame_length codec \<and> length m < 2 ^ 32"
  "codec_next codec" for codec
proof
  show "encode_message m \<noteq> []" for m by (rule encode_nonempty)
  show "codec_next codec (encode_message m @ rest) = Some (m, rest)"
    if "length m \<le> max_frame_length codec \<and> length m < 2 ^ 32" for m rest
    using that by (simp add: next_eq encode_message_def unat_length32)
  show "b = encode_message m @ rest \<and> length m \<le> max_frame_length codec \<and> length m < 2 ^ 32"
    if "codec_next codec b = Some (m, rest)" for b m rest
  proof -
    have c: "4 \<le> length b \<and> 4 + unat (of_be32 (take 4 b)) \<le> length b"
      "m = take (unat (of_be32 (take 4 b))) (drop 4 b)" "rest = drop (unat (of_be32 (take 4 b))) (drop 4 b)"
      "unat (of_be32 (take 4 b)) \<le> max_frame_length codec"
      using that by (simp_all add: next_eq split: if_splits)
    show ?thesis using next_split [OF c(1-3)] c(4) by metis
  qed
qed

lemma MAX_MESSAGE_SIZE_unat: "unat MAX_MESSAGE_SIZE = 16777216"
  by (simp add: MAX_MESSAGE_SIZE_def)

interpretation stream: framing encode_message "\<lambda>m. length m \<le> 16777216" stream_next
proof
  show "encode_message m \<noteq> []" for m by (rule encode_nonempty)
  show "stream_next (encode_message m @ rest) = Some (m, rest)" if "length m \<le> 16777216" for m rest
  proof -
    have "unat (word_of_nat (length m) :: u32) = length m" using that by (intro unat_length32) simp
    with that show ?thesis
      by (simp add: next_eq encode_message_def word_le_nat_alt MAX_MESSAGE_SIZE_unat)
  qed
  show "b = encode_message m @ rest \<and> length m \<le> 16777216" if "stream_next b = Some (m, rest)" for b m rest
  proof -
    have c: "4 \<le> length b \<and> 4 + unat (of_be32 (take 4 b)) \<le> length b"
      "m = take (unat (of_be32 (take 4 b))) (drop 4 b)" "rest = drop (unat (of_be32 (take 4 b))) (drop 4 b)"
      "of_be32 (take 4 b) \<le> MAX_MESSAGE_SIZE"
      using that by (simp_all add: next_eq split: if_splits)
    from c(4) have "unat (of_be32 (take 4 b)) \<le> 16777216"
      by (simp only: word_le_nat_alt MAX_MESSAGE_SIZE_unat)
    then show ?thesis using next_split [OF c(1-3)] by metis
  qed
qed

end
