(* ===== verification/Framing_Props.thy ===== *)
theory Framing_Props
  imports Framing
begin

text \<open>
  Correctness of the framings, from the contract they share: delivery under every fragmentation of the
  stream, the errors, and the sizes at which the 32-bit length is exact.
\<close>

text \<open>
  C29: the codec refines delivery of messages in order.  Let a sender append messages to its output with
  \<open>encode\<close>; however the transport fragments the bytes, a receiver that appends each fragment to its
  buffer and calls \<open>decode\<close> until it has no frame gets exactly the messages sent, in order, and keeps the
  bytes of an incomplete frame.
\<close>

theorem codec_delivers_in_order:
  assumes max: "max_frame_length codec < 2 ^ 32"
    and sent: "foldl (\<lambda>out m. snd (codec_encode codec m out)) [] ms = stream"
    and fit: "\<forall>m \<in> set ms. fst (codec_encode codec m []) = Inr ()"
    and frag: "concat chunks = stream @ tail" and partial: "codec_next codec tail = None"
  shows "receive (codec_next codec) chunks = (ms, tail)"
proof -
  have fits: "length m \<le> max_frame_length codec \<and> length m < 2 ^ 32" if "m \<in> set ms" for m
    using fit that max by (fastforce simp: codec_encode_def Let_def split: if_splits)
  have "foldl (\<lambda>out m. snd (codec_encode codec m out)) out ms = out @ concat (map encode_message ms)"
    if "\<forall>m \<in> set ms. length m \<le> max_frame_length codec" for out ms
    using that
  proof (induction ms arbitrary: out)
    case (Cons m ms)
    then show ?case by (simp add: codec_encode_def encode_message_def Let_def)
  qed simp
  with sent fits have "stream = concat (map encode_message ms)" by fastforce
  with codec.any_chunking [of codec ms tail chunks] fits frag partial show ?thesis
    by (simp add: list_all_iff)
qed

lemma codec_delivers_in_order_witness:
  "receive (codec_next codec_new) [[0, 0, 0], [1, 9, 0, 0], [0, 2, 7], [8, 0]] = ([[9], [7, 8]], [0])"
  by (rule codec_delivers_in_order [where stream = "[0, 0, 0, 1, 9, 0, 0, 0, 2, 7, 8]"])
    (simp_all add: codec_new_def codec_encode_def be32_def Let_def next_eq)

text \<open>
  The errors of \<open>decode\<close> and the bound on what it hands out.  A buffer is refused exactly when its
  prefix is complete and announces more than the maximum, and is then left as it is; more data is asked
  for, without consuming anything, exactly when the frame is incomplete; and no payload is longer
  than the maximum.
\<close>

lemma codec_decode_cases:
  "case codec_decode codec buf of
     (Inl (Frame_too_large len m), rest) \<Rightarrow>
       4 \<le> length buf \<and> len = unat (of_be32 (take 4 buf)) \<and> m = max_frame_length codec \<and> m < len \<and> rest = buf
   | (Inr None, rest) \<Rightarrow>
       rest = buf \<and> (length buf < 4 \<or> unat (of_be32 (take 4 buf)) \<le> max_frame_length codec \<and>
         length buf < 4 + unat (of_be32 (take 4 buf)))
   | (Inr (Some p), rest) \<Rightarrow>
       length p \<le> max_frame_length codec \<and> buf = encode_message p @ rest"
proof (cases "codec_next codec buf")
  case (Some mr)
  obtain m r where mr: "mr = (m, r)" by fastforce
  with Some have "codec_decode codec buf = (Inr (Some m), r)"
    by (auto simp: codec_next_def split: prod.splits sum.splits option.splits)
  with codec.next_sound [of codec buf m r] Some mr show ?thesis by simp
next
  case None
  then show ?thesis
    by (auto simp: codec_next_def codec_decode_def Let_def of_be32_take)
qed

text \<open>
  A message whose sending was interrupted is not received as another one: what is on the wire is the start
  of its frame, and a reader that gets no more reports an error.
\<close>

lemma interrupted_send:
  assumes "length data \<le> 16777216" and "send_message f f' data [] = (Inl e, out)"
  shows "\<exists>n. out = take n (encode_message data)"
proof -
  have "length data < 2 ^ 32" using assms(1) by simp
  then have "unat (word_of_nat (length data) :: u32) = length data" by (rule unat_length32)
  then have small: "\<not> MAX_MESSAGE_SIZE < word_of_nat (length data)"
    using assms(1) by (simp only: word_less_nat_alt MAX_MESSAGE_SIZE_unat)
  show ?thesis
  proof (cases f)
    case (Some n)
    then have "out = take (min n 4) (encode_message data)"
      using assms(2) small by (auto simp: send_message_def write_all_def encode_message_def Let_def min_def)
    then show ?thesis by blast
  next
    case None
    with assms(2) small obtain n where "out = be32 (word_of_nat (length data)) @ take n data"
      by (auto simp: send_message_def write_all_def Let_def split: option.splits)
    then have "out = take (4 + n) (encode_message data)" by (simp add: encode_message_def)
    then show ?thesis by blast
  qed
qed

lemma partial_frame_is_an_error:
  assumes "length data \<le> 16777216" and "n < length (encode_message data)"
  shows "\<exists>e. fst (recv_message (take n (encode_message data))) = Inl e"
proof (cases "n < 4")
  case True
  then show ?thesis by (simp add: recv_message_def read_exact_def min.strict_coboundedI2)
next
  case False
  have "length data < 2 ^ 32" using assms(1) by simp
  then have l: "unat (word_of_nat (length data) :: u32) = length data" by (rule unat_length32)
  obtain m where n: "n = 4 + m" using False le_Suc_ex not_less by blast
  with assms(2) have "m < length data" by (simp add: encode_message_def)
  then show ?thesis
    by (simp add: n encode_message_def recv_message_def read_exact_def Let_def l)
qed

lemma received_whole:
  "length data \<le> 16777216 \<Longrightarrow> recv_message (encode_message data @ rest) = (Inr data, rest)"
  using stream.next_frame [of data rest] by (auto simp: stream_next_def split: prod.splits sum.splits)

lemma received_part:
  assumes "length data \<le> 16777216" and "send_message f f' data [] = (Inl e, wire)"
  shows "fst (recv_message wire) \<in> insert (Inr data) (range Inl)"
proof -
  obtain n where n: "wire = take n (encode_message data)" using interrupted_send [OF assms] by blast
  show ?thesis
  proof (cases "n < length (encode_message data)")
    case True
    with partial_frame_is_an_error [OF assms(1) True] show ?thesis by (auto simp: n)
  next
    case False
    then have "wire = encode_message data @ []" by (simp add: n)
    with received_whole [OF assms(1), of "[]"] show ?thesis by simp
  qed
qed



text \<open>
  From \<open>2 ^ 32\<close> bytes on, \<open>len() as u32\<close> drops the high part before the size is checked: such a message
  passes the check of \<open>send_message\<close>, and its frame announces only the low part of its length.
\<close>

lemma send_message_truncates:
  assumes "length data = 2 ^ 32 + k" "k \<le> 16777216"
  shows "send_message None None data out = (Inr (), out @ be32 (word_of_nat k) @ data)"
proof -
  have "unat (word_of_nat n :: u32) = n mod 2 ^ 32" for n by (simp add: unat_of_nat)
  then have "word_of_nat (length data) = (word_of_nat k :: u32)"
    unfolding word_unat_eq_iff assms(1) by (simp only: mod_add_self1)
  moreover have "\<not> MAX_MESSAGE_SIZE < word_of_nat k"
    using assms(2) by (simp add: word_less_nat_alt MAX_MESSAGE_SIZE_unat unat_of_nat)
  ultimately show ?thesis by (simp add: send_message_def write_all_def Let_def)
qed

lemma stream_tag_roundtrip: "from_u8 (stream_tag t) = Some t"
  by (cases t) (simp_all add: from_u8_def stream_tag_def)

lemma from_u8_tag: "from_u8 v = Some t \<longleftrightarrow> v = stream_tag t"
  by (cases t) (auto simp: from_u8_def stream_tag_def)

lemma accept_opened:
  "accept_stream (Some (snd (open_typed_stream True None t) @ rest)) = (Inr t, rest)"
  by (simp add: open_typed_stream_def write_all_def accept_stream_def read_exact_def stream_tag_roundtrip)

text \<open>Each kind of stream is accepted as what it was opened as, and with nothing of its content gone.\<close>

lemma streams_are_told_apart:
  "fst (accept_stream (Some (snd (open_control_stream True None) @ rest))) = Inr Control"
  "fst (accept_stream (Some (snd (open_video_stream True None) @ rest))) = Inr Video"
  "fst (accept_stream (Some (snd (open_file_stream True None) @ rest))) = Inr File"
  "fst (accept_stream (Some (snd (open_chat_stream True None) @ rest))) = Inr Chat"
  by (simp_all add: open_control_stream_def open_video_stream_def open_file_stream_def open_chat_stream_def
      accept_opened)

end
