(* ===== verification/Stun.thy ===== *)
theory Stun
  imports Endian
begin

text \<open>
  The STUN client of \<open>crates/rdesk_net/src/p2p/stun.rs\<close>: the Binding Request it sends and the parser of
  the response.  The parser reads IPv4 addresses only.
\<close>

definition BINDING_REQUEST :: u16 where "BINDING_REQUEST = 0x0001"
definition BINDING_RESPONSE :: u16 where "BINDING_RESPONSE = 0x0101"
definition MAGIC_COOKIE :: u32 where "MAGIC_COOKIE = 0x2112A442"
definition ATTR_XOR_MAPPED_ADDRESS :: u16 where "ATTR_XOR_MAPPED_ADDRESS = 0x0020"
definition ATTR_MAPPED_ADDRESS :: u16 where "ATTR_MAPPED_ADDRESS = 0x0001"
definition FAMILY_IPV4 :: u8 where "FAMILY_IPV4 = 0x01"

abbreviation STUN_HEADER_SIZE :: nat where "STUN_HEADER_SIZE \<equiv> 20"

datatype sock_addr = V4 (sa_ip: bytes) (sa_port: u16)

datatype stun_error =
  Too_short nat
| Unexpected_type u16
| Invalid_cookie u32
| Transaction_mismatch
| Truncated
| Attribute_too_short
| Unsupported_family u8
| No_address
| Resolve_failed
| No_server_address
| Socket_failed
| Send_failed
| Response_timed_out
| Receive_failed

definition build_binding_request :: "bytes \<Rightarrow> bytes" where
  "build_binding_request transaction_id =
     be16 BINDING_REQUEST @ be16 0 @ be32 MAGIC_COOKIE @ transaction_id"

definition u16_at :: "bytes \<Rightarrow> nat \<Rightarrow> u16" where
  "u16_at b i = of_be16 [b ! i, b ! (i + 1)]"

definition parse_xor_mapped_address :: "bytes \<Rightarrow> stun_error + sock_addr" where
  "parse_xor_mapped_address data =
     (if length data < 8 then Inl Attribute_too_short
      else if data ! 1 \<noteq> FAMILY_IPV4 then Inl (Unsupported_family (data ! 1))
      else
        let port = u16_at data 2 XOR ucast (drop_bit 16 MAGIC_COOKIE);
            cookie_bytes = be32 MAGIC_COOKIE;
            ip = map (\<lambda>i. data ! (4 + i) XOR cookie_bytes ! i) [0, 1, 2, 3]
        in Inr (V4 ip port))"

definition parse_mapped_address :: "bytes \<Rightarrow> stun_error + sock_addr" where
  "parse_mapped_address data =
     (if length data < 8 then Inl Attribute_too_short
      else if data ! 1 \<noteq> FAMILY_IPV4 then Inl (Unsupported_family (data ! 1))
      else Inr (V4 [data ! 4, data ! 5, data ! 6, data ! 7] (u16_at data 2)))"

text \<open>\<open>(attr_len + 3) & !3\<close>\<close>

definition padded_len :: "nat \<Rightarrow> nat" where
  "padded_len n = 4 * ((n + 3) div 4)"

function parse_attrs :: "bytes \<Rightarrow> nat \<Rightarrow> stun_error + sock_addr" where
  "parse_attrs attrs offset =
     (if length attrs < offset + 4 then Inl No_address
      else
        let attr_type = u16_at attrs offset;
            attr_len = unat (u16_at attrs (offset + 2));
            start = offset + 4 in
        if length attrs < start + attr_len then Inl No_address
        else
          let attr_data = take attr_len (drop start attrs);
              skip = parse_attrs attrs (start + padded_len attr_len) in
          if attr_type = ATTR_XOR_MAPPED_ADDRESS then parse_xor_mapped_address attr_data
          else if attr_type = ATTR_MAPPED_ADDRESS
          then (case parse_mapped_address attr_data of Inr addr \<Rightarrow> Inr addr | Inl _ \<Rightarrow> skip)
          else skip)"
  by pat_completeness auto

termination
  by (relation "measure (\<lambda>(attrs, offset). length attrs - offset)") auto

declare parse_attrs.simps [simp del]

definition parse_binding_response :: "bytes \<Rightarrow> bytes \<Rightarrow> stun_error + sock_addr" where
  "parse_binding_response data expected_txn_id =
     (if length data < STUN_HEADER_SIZE then Inl (Too_short (length data))
      else if u16_at data 0 \<noteq> BINDING_RESPONSE then Inl (Unexpected_type (u16_at data 0))
      else
        let cookie = of_be32 [data ! 4, data ! 5, data ! 6, data ! 7] in
        if cookie \<noteq> MAGIC_COOKIE then Inl (Invalid_cookie cookie)
        else if take 12 (drop 8 data) \<noteq> expected_txn_id then Inl Transaction_mismatch
        else
          let msg_len = unat (u16_at data 2) in
          if length data < STUN_HEADER_SIZE + msg_len then Inl Truncated
          else parse_attrs (take msg_len (drop STUN_HEADER_SIZE data)) 0)"

section \<open>The exchange\<close>

text \<open>
  \<open>resolved\<close>: the addresses of the server's name.  \<open>socket\<close>: the caller's socket is used, or a new one
  was bound or not.  \<open>received\<close>: the timer ran out, the receive failed, or the first datagram that
  arrived at the socket, from whatever address.  The packets sent come with the result.
\<close>

datatype stun_socket = Callers_socket | New_socket bool

datatype stun_receive = Stun_timeout | Stun_receive_error | Stun_datagram bytes

definition discover_external_addr_with_socket ::
  "'a list option \<Rightarrow> bytes \<Rightarrow> stun_socket \<Rightarrow> bool \<Rightarrow> stun_receive \<Rightarrow> (stun_error + sock_addr) \<times> (bytes \<times> 'a) list" where
  "discover_external_addr_with_socket resolved transaction_id socket send_ok received =
     (case resolved of
        None \<Rightarrow> (Inl Resolve_failed, [])
      | Some [] \<Rightarrow> (Inl No_server_address, [])
      | Some (server_addr # _) \<Rightarrow>
          let request = build_binding_request transaction_id in
          if socket = New_socket False then (Inl Socket_failed, [])
          else if \<not> send_ok then (Inl Send_failed, [])
          else
            (case received of
               Stun_timeout \<Rightarrow> Inl Response_timed_out
             | Stun_receive_error \<Rightarrow> Inl Receive_failed
             | Stun_datagram d \<Rightarrow> parse_binding_response (take 576 d) transaction_id,
             [(request, server_addr)]))"

definition discover_external_addr ::
  "'a list option \<Rightarrow> bytes \<Rightarrow> bool \<Rightarrow> bool \<Rightarrow> stun_receive \<Rightarrow> (stun_error + sock_addr) \<times> (bytes \<times> 'a) list" where
  "discover_external_addr resolved transaction_id bind_ok send_ok received =
     discover_external_addr_with_socket resolved transaction_id (New_socket bind_ok) send_ok received"

text \<open>
  Only the first datagram is looked at: one that is not the answer, from anybody, ends the request in
  an error even if the answer is already on its way.
\<close>

lemma stray_datagram_ends_request:
  "length stray < 20 \<Longrightarrow>
   fst (discover_external_addr_with_socket (Some (a # as)) txn Callers_socket True (Stun_datagram stray)) =
     Inl (Too_short (length stray))"
  by (simp add: discover_external_addr_with_socket_def parse_binding_response_def Let_def)

section \<open>Reading attributes from the front\<close>

text \<open>
  The loop over offsets is a recursion over the attributes that remain, which is what a specification of
  the format talks about.
\<close>

function attrs_address :: "bytes \<Rightarrow> stun_error + sock_addr" where
  "attrs_address b =
     (if length b < 4 then Inl No_address
      else
        let n = unat (u16_at b 2) in
        if length b < 4 + n then Inl No_address
        else
          let value = take n (drop 4 b); skip = attrs_address (drop (4 + padded_len n) b) in
          if u16_at b 0 = ATTR_XOR_MAPPED_ADDRESS then parse_xor_mapped_address value
          else if u16_at b 0 = ATTR_MAPPED_ADDRESS
          then (case parse_mapped_address value of Inr addr \<Rightarrow> Inr addr | Inl _ \<Rightarrow> skip)
          else skip)"
  by pat_completeness auto

termination
  by (relation "measure length") auto

declare attrs_address.simps [simp del]

lemma u16_at_drop: "off + i + 1 < length b \<Longrightarrow> u16_at (drop off b) i = u16_at b (off + i)"
  by (simp add: u16_at_def add.assoc)

lemma parse_attrs_eq: "parse_attrs b off = attrs_address (drop off b)"
proof (induction b off rule: parse_attrs.induct)
  case (1 b off)
  show ?case
  proof (cases "length b < off + 4")
    case True
    then show ?thesis by (subst parse_attrs.simps, subst attrs_address.simps) simp
  next
    case False
    then have u: "u16_at (drop off b) 0 = u16_at b off" "u16_at (drop off b) 2 = u16_at b (off + 2)"
      using u16_at_drop [of off 0 b] u16_at_drop [of off 2 b] by simp_all
    let ?n = "unat (u16_at b (off + 2))"
    show ?thesis
    proof (cases "length b < off + 4 + ?n")
      case True
      with False show ?thesis
        by (subst parse_attrs.simps, subst attrs_address.simps) (simp add: u Let_def)
    next
      case len: False
      have "parse_attrs b (off + 4 + padded_len ?n) = attrs_address (drop (off + 4 + padded_len ?n) b)"
        using 1 [OF False refl refl refl len] by blast
      also have "drop (off + 4 + padded_len ?n) b = drop (4 + padded_len ?n) (drop off b)"
        by (simp only: drop_drop ac_simps)
      finally have ih: "parse_attrs b (off + 4 + padded_len ?n) = attrs_address (drop (4 + padded_len ?n) (drop off b))" .
      have v: "drop (off + 4) b = drop 4 (drop off b)" by (simp add: add.commute)
      have l: "\<not> length (drop off b) < 4" "\<not> length (drop off b) < 4 + ?n"
        using False len unfolding length_drop by linarith+
      show ?thesis
        by (subst parse_attrs.simps, subst attrs_address.simps) (simp only: u l False len ih v Let_def if_False)
    qed
  qed
qed

section \<open>What a server writes\<close>

text \<open>RFC 5389: a response with its attributes, and the two address attributes.\<close>

definition attribute :: "u16 \<Rightarrow> bytes \<Rightarrow> bytes" where
  "attribute t value = be16 t @ be16 (word_of_nat (length value)) @ value @ replicate (padded_len (length value) - length value) 0"

definition binding_response :: "bytes \<Rightarrow> bytes \<Rightarrow> bytes" where
  "binding_response txn attrs = be16 BINDING_RESPONSE @ be16 (word_of_nat (length attrs)) @ be32 MAGIC_COOKIE @ txn @ attrs"

definition xor_mapped :: "bytes \<Rightarrow> u16 \<Rightarrow> bytes" where
  "xor_mapped ip port =
     [0, FAMILY_IPV4] @ be16 (port XOR ucast (drop_bit 16 MAGIC_COOKIE)) @ map2 (XOR) ip (be32 MAGIC_COOKIE)"

definition mapped :: "bytes \<Rightarrow> u16 \<Rightarrow> bytes" where
  "mapped ip port = [0, FAMILY_IPV4] @ be16 port @ ip"

lemma xor_xor [simp]: "((a :: 'a::len word) XOR b) XOR b = a"
  by (simp add: xor.assoc)

lemma u16_at_be16 [simp]: "u16_at (be16 w @ b) 0 = w"
proof -
  have "u16_at (be16 w @ b) 0 = of_be16 (be16 w)"
    by (simp add: u16_at_def be16_def)
  then show ?thesis by simp
qed

lemma u16_at_append: "length a = i \<Longrightarrow> u16_at (a @ b) i = u16_at b 0"
  by (simp add: u16_at_def nth_append)

lemma parse_xor_mapped [simp]:
  assumes "length ip = 4"
  shows "parse_xor_mapped_address (xor_mapped ip port) = Inr (V4 ip port)"
proof -
  obtain a b c d where ip: "ip = [a, b, c, d]" using list4 [OF assms] by blast
  obtain p q where pq: "be16 (port XOR ucast (drop_bit 16 MAGIC_COOKIE)) = [p, q]"
    by (simp add: be16_def)
  have "u16_at (xor_mapped ip port) 2 = port XOR ucast (drop_bit 16 MAGIC_COOKIE)"
    unfolding xor_mapped_def by (subst u16_at_append) simp_all
  then show ?thesis
    by (simp add: parse_xor_mapped_address_def Let_def)
      (simp add: xor_mapped_def ip be32_def be16_def)
qed

lemma parse_mapped [simp]:
  assumes "length ip = 4"
  shows "parse_mapped_address (mapped ip port) = Inr (V4 ip port)"
proof -
  obtain a b c d where ip: "ip = [a, b, c, d]" using list4 [OF assms] by blast
  have "u16_at (mapped ip port) 2 = port"
    unfolding mapped_def by (subst u16_at_append) simp_all
  then show ?thesis
    by (simp add: parse_mapped_address_def) (simp add: mapped_def ip be16_def)
qed

lemma length_mapped [simp]: "length ip = 4 \<Longrightarrow> length (xor_mapped ip port) = 8" "length ip = 4 \<Longrightarrow> length (mapped ip port) = 8"
  by (simp_all add: xor_mapped_def mapped_def)

lemma padded_len_ge: "n \<le> padded_len n"
  unfolding padded_len_def by presburger

lemma attrs_address_attribute:
  assumes "length value < 65536"
  shows "attrs_address (attribute t value @ rest) =
     (if t = ATTR_XOR_MAPPED_ADDRESS then parse_xor_mapped_address value
      else if t = ATTR_MAPPED_ADDRESS
      then (case parse_mapped_address value of Inr addr \<Rightarrow> Inr addr | Inl _ \<Rightarrow> attrs_address rest)
      else attrs_address rest)"
proof -
  let ?b = "attribute t value @ rest" and ?n = "length value"
  let ?pad = "replicate (padded_len ?n - ?n) (0 :: u8)"
  have b: "?b = be16 t @ be16 (word_of_nat ?n) @ value @ ?pad @ rest" by (simp add: attribute_def)
  have t: "u16_at ?b 0 = t" by (simp only: b u16_at_be16)
  have "u16_at ?b 2 = word_of_nat ?n" unfolding b by (subst u16_at_append) simp_all
  then have n: "unat (u16_at ?b 2) = ?n" using assms by (simp add: unat_of_nat)
  have v: "take ?n (drop 4 ?b) = value" unfolding b by simp
  have r: "drop (4 + padded_len ?n) ?b = rest" using padded_len_ge [of ?n] unfolding b by simp
  have l: "\<not> length ?b < 4" "\<not> length ?b < 4 + ?n" unfolding b by simp_all
  show ?thesis
    by (subst attrs_address.simps) (simp only: l t n v r Let_def if_False)
qed

lemma parse_response_form:
  assumes "length txn = 12" "length attrs < 65536"
  shows "parse_binding_response (binding_response txn attrs @ junk) txn = attrs_address attrs"
proof -
  let ?d = "binding_response txn attrs @ junk"
  have d: "?d = be16 BINDING_RESPONSE @ be16 (word_of_nat (length attrs)) @ be32 MAGIC_COOKIE @ txn @ attrs @ junk"
    by (simp add: binding_response_def)
  have 1: "u16_at ?d 0 = BINDING_RESPONSE" by (simp only: d u16_at_be16)
  have "u16_at ?d 2 = word_of_nat (length attrs)" unfolding d by (subst u16_at_append) simp_all
  then have 2: "unat (u16_at ?d 2) = length attrs" using assms(2) by (simp add: unat_of_nat)
  have "[?d ! 4, ?d ! 5, ?d ! 6, ?d ! 7] = be32 MAGIC_COOKIE"
    unfolding d by (simp add: be16_def be32_def)
  then have 3: "of_be32 [?d ! 4, ?d ! 5, ?d ! 6, ?d ! 7] = MAGIC_COOKIE" by (simp only: of_be32_be32)
  have 4: "take 12 (drop 8 ?d) = txn" unfolding d using assms(1) by simp
  have 5: "take (length attrs) (drop 20 ?d) = attrs" unfolding d using assms(1) by simp
  have 6: "\<not> length ?d < 20" "\<not> length ?d < 20 + length attrs" unfolding d using assms(1) by simp_all
  show ?thesis
    unfolding parse_binding_response_def Let_def
    by (simp only: 1 2 3 4 5 6 parse_attrs_eq drop_0 if_False simp_thms)
qed





end
