(* ===== verification/Nat_Punch.thy ===== *)
theory Nat_Punch
  imports Stun
begin

text \<open>
  NAT classification (\<open>crates/rdesk_net/src/p2p/nat_detect.rs\<close>) and UDP hole punching
  (\<open>p2p/hole_punch.rs\<close>).  The answers of the STUN servers and the events on the socket are arguments.
\<close>

section \<open>NAT types\<close>

datatype nat_type = Unknown | Symmetric | FullCone | RestrictedCone | PortRestrictedCone

fun nat_type_display :: "nat_type \<Rightarrow> string" where
  "nat_type_display Unknown = ''Unknown''"
| "nat_type_display Symmetric = ''Symmetric''"
| "nat_type_display FullCone = ''Full Cone''"
| "nat_type_display RestrictedCone = ''Restricted Cone''"
| "nat_type_display PortRestrictedCone = ''Port-Restricted Cone''"

definition nat_type_to_i32 :: "nat_type \<Rightarrow> 32 word" where
  "nat_type_to_i32 t =
     (case t of Unknown \<Rightarrow> 0 | Symmetric \<Rightarrow> 1 | FullCone \<Rightarrow> 2 | RestrictedCone \<Rightarrow> 3 | PortRestrictedCone \<Rightarrow> 4)"

definition nat_type_of_i32 :: "32 word \<Rightarrow> nat_type" where
  "nat_type_of_i32 v =
     (if v = 1 then Symmetric
      else if v = 2 then FullCone
      else if v = 3 then RestrictedCone
      else if v = 4 then PortRestrictedCone
      else Unknown)"

abbreviation MIN_STUN_SERVERS :: nat where "MIN_STUN_SERVERS \<equiv> 2"

text \<open>
  \<open>bound\<close>: whether the socket could be bound.  Each server either answers with the mapped address or is
  skipped.  \<open>None\<close> is the error of the bind.
\<close>

definition detect_nat_type :: "bool \<Rightarrow> (stun_error + sock_addr) list \<Rightarrow> nat_type option" where
  "detect_nat_type bound answers =
     (if length answers < MIN_STUN_SERVERS then Some Unknown
      else if \<not> bound then None
      else
        let mapped_addrs = concat (map (\<lambda>a. case a of Inr addr \<Rightarrow> [addr] | Inl _ \<Rightarrow> []) answers) in
        if length mapped_addrs < MIN_STUN_SERVERS then Some Unknown
        else
          let first = mapped_addrs ! 0;
              all_same_ip = (\<forall>a \<in> set mapped_addrs. sa_ip a = sa_ip first);
              all_same_port = (\<forall>a \<in> set mapped_addrs. sa_port a = sa_port first) in
          if all_same_ip \<and> all_same_port then Some FullCone
          else if all_same_ip \<and> \<not> all_same_port then Some Symmetric
          else Some Symmetric)"

lemma nat_type_roundtrip: "nat_type_of_i32 (nat_type_to_i32 t) = t"
  by (cases t) (simp_all add: nat_type_of_i32_def nat_type_to_i32_def)

lemma nat_type_display_inject: "nat_type_display s = nat_type_display t \<longleftrightarrow> s = t"
  by (cases s; cases t) simp_all

definition answered :: "(stun_error + sock_addr) list \<Rightarrow> sock_addr list" where
  "answered answers = concat (map (\<lambda>a. case a of Inr addr \<Rightarrow> [addr] | Inl _ \<Rightarrow> []) answers)"

lemma answered_length: "length (answered answers) \<le> length answers"
  by (induction answers) (auto simp: answered_def split: sum.split)

text \<open>
  The classification depends only on which addresses came back.  A bound socket reports a cone NAT
  exactly when at least two servers answered and all reported one address, unknown exactly when
  fewer than two answered, symmetric otherwise; the other two types are never reported.
\<close>

lemma nat_classification:
  "detect_nat_type True answers =
     Some (if length (answered answers) < 2 then Unknown
           else if \<exists>a. set (answered answers) = {a} then FullCone
           else Symmetric)"
proof (cases "length (answered answers) < 2")
  case True
  then show ?thesis by (simp add: detect_nat_type_def answered_def [symmetric] Let_def)
next
  case False
  then obtain a as where as: "answered answers = a # as" by (cases "answered answers") auto
  have n: "\<not> length answers < 2" using False answered_length [of answers] by simp
  have "(\<forall>b \<in> set (a # as). sa_ip b = sa_ip a) \<and> (\<forall>b \<in> set (a # as). sa_port b = sa_port a) \<longleftrightarrow>
      (\<exists>c. set (a # as) = {c})"
  proof -
    have "b = a \<longleftrightarrow> sa_ip b = sa_ip a \<and> sa_port b = sa_port a" for b
      by (cases b; cases a) auto
    then show ?thesis by auto
  qed
  with False n show ?thesis
    unfolding detect_nat_type_def Let_def answered_def [symmetric]
    by (simp add: as)
qed

section \<open>Hole punching\<close>

definition PUNCH_MAGIC :: bytes where "PUNCH_MAGIC = [0x52, 0x44, 0x50, 0x4e]"

abbreviation PROBE_MAX_SIZE :: nat where "PROBE_MAX_SIZE \<equiv> 64"

definition build_probe :: "u16 \<Rightarrow> bytes" where
  "build_probe local_port = PUNCH_MAGIC @ be16 local_port"

definition is_valid_probe :: "bytes \<Rightarrow> bool" where
  "is_valid_probe data \<longleftrightarrow> length PUNCH_MAGIC \<le> length data \<and> take (length PUNCH_MAGIC) data = PUNCH_MAGIC"

text \<open>
  What \<open>select!\<close> can return in one turn of the loop, with the clock at the start of the turn: a tick of
  the probe timer, a datagram from some address (cut to the buffer), a receive error, or the timeout.
\<close>

datatype punch_event = Tick | Datagram bytes sock_addr | Recv_error | Recv_timeout

datatype punch_result = Connected sock_addr | Timed_out | Bind_failed | Connect_failed

text \<open>The outcome and the packets sent; \<open>None\<close> while the loop is still waiting.\<close>

fun punch_loop ::
  "bytes \<Rightarrow> sock_addr \<Rightarrow> nat \<Rightarrow> bool \<Rightarrow> (nat \<times> punch_event) list \<Rightarrow> (bytes \<times> sock_addr) list \<Rightarrow>
     punch_result option \<times> (bytes \<times> sock_addr) list" where
  "punch_loop probe peer deadline can_connect [] sent = (None, sent)"
| "punch_loop probe peer deadline can_connect ((now, e) # es) sent =
     (if deadline - now = 0 then (Some Timed_out, sent)
      else
        (case e of
           Tick \<Rightarrow> punch_loop probe peer deadline can_connect es (sent @ [(probe, peer)])
         | Datagram data src \<Rightarrow>
             if is_valid_probe (take PROBE_MAX_SIZE data)
             then (Some (if can_connect then Connected peer else Connect_failed),
                   sent @ replicate 3 (probe, peer))
             else punch_loop probe peer deadline can_connect es sent
         | Recv_error \<Rightarrow> punch_loop probe peer deadline can_connect es sent
         | Recv_timeout \<Rightarrow> (Some Timed_out, sent)))"

definition punch_hole ::
  "bool \<Rightarrow> bool \<Rightarrow> u16 \<Rightarrow> sock_addr \<Rightarrow> nat \<Rightarrow> nat \<Rightarrow> (nat \<times> punch_event) list \<Rightarrow>
     punch_result option \<times> (bytes \<times> sock_addr) list" where
  "punch_hole can_bind can_connect bound_port peer_addr start timeout_dur events =
     (if \<not> can_bind then (Some Bind_failed, [])
      else punch_loop (build_probe bound_port) peer_addr (start + timeout_dur) can_connect events [])"

lemma is_valid_probe_take: "is_valid_probe (take PROBE_MAX_SIZE data) \<longleftrightarrow> is_valid_probe data"
  by (auto simp: is_valid_probe_def PUNCH_MAGIC_def min_def)

lemma own_probe_valid: "is_valid_probe (build_probe p @ rest)"
  by (simp add: build_probe_def is_valid_probe_def PUNCH_MAGIC_def)

text \<open>An event that leaves the loop waiting.\<close>

definition quiet :: "nat \<Rightarrow> nat \<times> punch_event \<Rightarrow> bool" where
  "quiet deadline ev \<longleftrightarrow>
     fst ev < deadline \<and>
     (case snd ev of Tick \<Rightarrow> True | Datagram data _ \<Rightarrow> \<not> is_valid_probe data | Recv_error \<Rightarrow> True
      | Recv_timeout \<Rightarrow> False)"

lemma punch_loop_quiet:
  "list_all (quiet deadline) es \<Longrightarrow>
   \<exists>sent'. punch_loop probe peer deadline c (es @ fs) sent = punch_loop probe peer deadline c fs sent'"
proof (induction es arbitrary: sent)
  case (Cons ev es)
  obtain now e where ev: "ev = (now, e)" by fastforce
  with Cons show ?case
    by (cases e) (auto simp: quiet_def is_valid_probe_take)
qed auto



end
