(* ===== verification/Session.thy ===== *)
theory Session
  imports Rust_Str
begin

text \<open>
  The life cycle of a remote-desktop session (\<open>crates/rdesk_core/src/session.rs\<close>) and the host that
  tracks its sessions (\<open>server.rs\<close>): the state behind a watch channel, the transitions, their
  interleaving when several tasks hold the session, and \<open>accept_connection\<close> against \<open>stop\<close>.
\<close>

section \<open>Session states\<close>

datatype session_state = Connecting | Authenticating | Active | Disconnected

fun session_state_display :: "session_state \<Rightarrow> string" where
  "session_state_display Connecting = ''Connecting''"
| "session_state_display Authenticating = ''Authenticating''"
| "session_state_display Active = ''Active''"
| "session_state_display Disconnected = ''Disconnected''"

text \<open>The life cycle is a line: states are ordered by their place on it.\<close>

fun stage :: "session_state \<Rightarrow> nat" where
  "stage Connecting = 0"
| "stage Authenticating = 1"
| "stage Active = 2"
| "stage Disconnected = 3"

lemma stage_inj: "stage a = stage b \<longleftrightarrow> a = b"
  by (cases a; cases b) simp_all

instantiation session_state :: linorder
begin

definition less_eq_session_state :: "session_state \<Rightarrow> session_state \<Rightarrow> bool" where
  "a \<le> b \<longleftrightarrow> stage a \<le> stage b"

definition less_session_state :: "session_state \<Rightarrow> session_state \<Rightarrow> bool" where
  "a < b \<longleftrightarrow> stage a < stage b"

instance
  by standard (auto simp: less_eq_session_state_def less_session_state_def stage_inj)

end

lemma session_state_bounds [simp]: "Connecting \<le> a" "a \<le> Disconnected" "Disconnected \<le> a \<longleftrightarrow> a = Disconnected"
  by (cases a; simp add: less_eq_session_state_def)+

section \<open>A session\<close>

text \<open>
  \<open>state_tx\<close> and \<open>state_rx\<close> are the two ends of one watch channel: \<open>w_value\<close> is its current value and
  \<open>w_sent\<close> every value it has held, oldest first (what a watcher that never falls behind sees).
  The subsystems are trait objects, so their types are parameters.
\<close>

record watch_channel =
  w_value :: session_state
  w_sent :: "session_state list"

definition watch_send :: "session_state \<Rightarrow> watch_channel \<Rightarrow> watch_channel" where
  "watch_send v w = w\<lparr>w_value := v, w_sent := w_sent w @ [v]\<rparr>"

record ('cap, 'enc, 'dec, 'inp, 'clip) session =
  s_id :: string
  s_state :: watch_channel
  s_capturer :: "'cap option"
  s_encoder :: "'enc option"
  s_decoder :: "'dec option"
  s_input :: "'inp option"
  s_clipboard :: "'clip option"

definition session_new :: "string \<Rightarrow> ('cap, 'enc, 'dec, 'inp, 'clip) session" where
  "session_new sid =
     \<lparr>s_id = sid, s_state = \<lparr>w_value = Connecting, w_sent = [Connecting]\<rparr>, s_capturer = None,
      s_encoder = None, s_decoder = None, s_input = None, s_clipboard = None\<rparr>"

definition set_capturer :: "'cap \<Rightarrow> ('cap, 'enc, 'dec, 'inp, 'clip) session \<Rightarrow> ('cap, 'enc, 'dec, 'inp, 'clip) session" where
  "set_capturer c s = s\<lparr>s_capturer := Some c\<rparr>"

definition set_encoder :: "'enc \<Rightarrow> ('cap, 'enc, 'dec, 'inp, 'clip) session \<Rightarrow> ('cap, 'enc, 'dec, 'inp, 'clip) session" where
  "set_encoder e s = s\<lparr>s_encoder := Some e\<rparr>"

definition set_decoder :: "'dec \<Rightarrow> ('cap, 'enc, 'dec, 'inp, 'clip) session \<Rightarrow> ('cap, 'enc, 'dec, 'inp, 'clip) session" where
  "set_decoder d s = s\<lparr>s_decoder := Some d\<rparr>"

definition set_input :: "'inp \<Rightarrow> ('cap, 'enc, 'dec, 'inp, 'clip) session \<Rightarrow> ('cap, 'enc, 'dec, 'inp, 'clip) session" where
  "set_input i s = s\<lparr>s_input := Some i\<rparr>"

definition set_clipboard :: "'clip \<Rightarrow> ('cap, 'enc, 'dec, 'inp, 'clip) session \<Rightarrow> ('cap, 'enc, 'dec, 'inp, 'clip) session" where
  "set_clipboard c s = s\<lparr>s_clipboard := Some c\<rparr>"

definition get_state :: "('cap, 'enc, 'dec, 'inp, 'clip) session \<Rightarrow> session_state" where
  "get_state s = w_value (s_state s)"

definition set_state :: "session_state \<Rightarrow> ('cap, 'enc, 'dec, 'inp, 'clip) session \<Rightarrow> ('cap, 'enc, 'dec, 'inp, 'clip) session" where
  "set_state new_state s =
     (let old = w_value (s_state s) in
      if old \<noteq> new_state then s\<lparr>s_state := watch_send new_state (s_state s)\<rparr> else s)"

datatype session_error = Cannot_start session_state | Cannot_activate session_state

type_synonym 's session_result = "(session_error + unit) \<times> 's"

definition session_start ::
  "('cap, 'enc, 'dec, 'inp, 'clip) session \<Rightarrow> ('cap, 'enc, 'dec, 'inp, 'clip) session session_result" where
  "session_start s =
     (let current = get_state s in
      if current \<noteq> Connecting then (Inl (Cannot_start current), s)
      else (Inr (), set_state Authenticating s))"

definition session_activate ::
  "('cap, 'enc, 'dec, 'inp, 'clip) session \<Rightarrow> ('cap, 'enc, 'dec, 'inp, 'clip) session session_result" where
  "session_activate s =
     (let current = get_state s in
      if current \<noteq> Authenticating then (Inl (Cannot_activate current), s)
      else (Inr (), set_state Active s))"

definition session_stop :: "('cap, 'enc, 'dec, 'inp, 'clip) session \<Rightarrow> ('cap, 'enc, 'dec, 'inp, 'clip) session" where
  "session_stop s =
     (let current = get_state s in
      if current \<noteq> Disconnected then set_state Disconnected s else s)"

definition session_drop :: "('cap, 'enc, 'dec, 'inp, 'clip) session \<Rightarrow> ('cap, 'enc, 'dec, 'inp, 'clip) session" where
  "session_drop s = (if get_state s \<noteq> Disconnected then session_stop s else s)"

lemmas session_defs = get_state_def set_state_def session_start_def session_activate_def
  session_stop_def session_drop_def watch_send_def Let_def

section \<open>Use by one owner\<close>

datatype session_op = Start | Activate | Stop | Drop

fun session_call ::
  "session_op \<Rightarrow> ('cap, 'enc, 'dec, 'inp, 'clip) session \<Rightarrow> ('cap, 'enc, 'dec, 'inp, 'clip) session" where
  "session_call Start s = snd (session_start s)"
| "session_call Activate s = snd (session_activate s)"
| "session_call Stop s = session_stop s"
| "session_call Drop s = session_drop s"

text \<open>What a watcher can have seen: one of the six ways through the life cycle, up to the current state.\<close>

definition life_cycles :: "session_state list set" where
  "life_cycles =
     {[Connecting], [Connecting, Disconnected],
      [Connecting, Authenticating], [Connecting, Authenticating, Disconnected],
      [Connecting, Authenticating, Active], [Connecting, Authenticating, Active, Disconnected]}"

definition watched_ok :: "watch_channel \<Rightarrow> bool" where
  "watched_ok w \<longleftrightarrow> w_sent w \<in> life_cycles \<and> last (w_sent w) = w_value w"

lemma watched_call: "watched_ok (s_state s) \<Longrightarrow> watched_ok (s_state (session_call c s))"
  by (cases c) (auto simp: watched_ok_def life_cycles_def session_defs)

lemma life_cycle_sorted: "w \<in> life_cycles \<Longrightarrow> sorted_wrt (<) w"
  by (auto simp: life_cycles_def less_session_state_def)

lemma watched_new: "watched_ok (s_state (session_new sid))"
  by (simp add: session_new_def watched_ok_def life_cycles_def)

lemma watched_calls: "watched_ok (s_state s) \<Longrightarrow> watched_ok (s_state (fold session_call cs s))"
  by (induction cs arbitrary: s) (auto intro: watched_call)

lemma call_monotone: "get_state s \<le> get_state (session_call c s)"
  by (cases c; cases "w_value (s_state s)")
     (simp_all add: session_defs less_eq_session_state_def)

lemma calls_monotone: "get_state s \<le> get_state (fold session_call cs s)"
  by (induction cs arbitrary: s) (auto intro: order_trans call_monotone)

lemma disconnected_final: "get_state s = Disconnected \<Longrightarrow> fold session_call cs s = s"
proof (induction cs arbitrary: s)
  case (Cons c cs)
  then have "session_call c s = s" by (cases c) (auto simp: session_defs)
  with Cons show ?case by simp
qed simp


end
