(* ===== verification/Session_Host.thy ===== *)
theory Session_Host
  imports Session
begin

text \<open>
  A session shared by several tasks, and the host object \<open>RemoteServer\<close>
  (\<open>crates/rdesk_core/src/server.rs\<close>): \<open>accept_connection\<close> and \<open>stop\<close> as the steps they take, in any
  interleaving.
\<close>

section \<open>Tasks sharing a session\<close>

text \<open>
  The transitions take a shared reference, so two tasks can interleave between the read of the guard,
  the read inside \<open>set_state\<close> and the send.  \<open>Returned True\<close> is \<open>Ok\<close>.
\<close>

datatype task = Calling session_op | Setting session_state | Sending session_state | Returned bool

fun guard_step :: "session_op \<Rightarrow> session_state \<Rightarrow> task" where
  "guard_step Start current = (if current \<noteq> Connecting then Returned False else Setting Authenticating)"
| "guard_step Activate current = (if current \<noteq> Authenticating then Returned False else Setting Active)"
| "guard_step Stop current = (if current \<noteq> Disconnected then Setting Disconnected else Returned True)"
| "guard_step Drop current = (if current \<noteq> Disconnected then Calling Stop else Returned True)"

fun task_step :: "task \<Rightarrow> watch_channel \<Rightarrow> task \<times> watch_channel" where
  "task_step (Calling c) w = (guard_step c (w_value w), w)"
| "task_step (Setting v) w = (if w_value w \<noteq> v then Sending v else Returned True, w)"
| "task_step (Sending v) w = (Returned True, watch_send v w)"
| "task_step (Returned r) w = (Returned r, w)"

inductive interleave :: "task list \<times> watch_channel \<Rightarrow> task list \<times> watch_channel \<Rightarrow> bool" where
  step: "i < length ts \<Longrightarrow> task_step (ts ! i) w = (t, w') \<Longrightarrow> interleave (ts, w) (ts[i := t], w')"

inductive_cases interleaveE: "interleave (ts, w) c"

text \<open>A task that runs alone does what the call does.\<close>

lemma task_alone:
  "\<exists>r. ((\<lambda>(t, w). task_step t w) ^^ 4) (Calling c, s_state s) = (Returned r, s_state (session_call c s)) \<and>
     (r \<longleftrightarrow> (case c of Start \<Rightarrow> \<not> isl (fst (session_start s)) | Activate \<Rightarrow> \<not> isl (fst (session_activate s))
        | _ \<Rightarrow> True))"
  by (cases c; cases "w_value (s_state s)") (auto simp: session_defs eval_nat_numeral)

text \<open>
  Two tasks that race between guard and send: the session is started and stopped, both calls report
  success, and it ends as authenticating after watchers have seen it disconnected.
\<close>

lemma start_stop_race:
  "interleave\<^sup>*\<^sup>* ([Calling Start, Calling Stop], s_state (session_new sid))
     ([Returned True, Returned True],
      \<lparr>w_value = Authenticating, w_sent = [Connecting, Disconnected, Authenticating]\<rparr>)"
proof -
  define w where "w = \<lparr>w_value = Connecting, w_sent = [Connecting]\<rparr>"
  define v where "v = \<lparr>w_value = Disconnected, w_sent = [Connecting, Disconnected]\<rparr>"
  have s0: "interleave ([Calling Start, Calling Stop], w) ([Setting Authenticating, Calling Stop], w)"
    using interleave.step [of 0 "[Calling Start, Calling Stop]" w] by (simp add: w_def)
  have s1: "interleave ([Setting Authenticating, Calling Stop], w) ([Sending Authenticating, Calling Stop], w)"
    using interleave.step [of 0 "[Setting Authenticating, Calling Stop]" w] by (simp add: w_def)
  have s2: "interleave ([Sending Authenticating, Calling Stop], w) ([Sending Authenticating, Setting Disconnected], w)"
    using interleave.step [of 1 "[Sending Authenticating, Calling Stop]" w] by (simp add: w_def)
  have s3: "interleave ([Sending Authenticating, Setting Disconnected], w) ([Sending Authenticating, Sending Disconnected], w)"
    using interleave.step [of 1 "[Sending Authenticating, Setting Disconnected]" w] by (simp add: w_def)
  have s4: "interleave ([Sending Authenticating, Sending Disconnected], w) ([Sending Authenticating, Returned True], v)"
    using interleave.step [of 1 "[Sending Authenticating, Sending Disconnected]" w] by (simp add: w_def v_def watch_send_def)
  have s5: "interleave ([Sending Authenticating, Returned True], v)
      ([Returned True, Returned True], \<lparr>w_value = Authenticating, w_sent = [Connecting, Disconnected, Authenticating]\<rparr>)"
    using interleave.step [of 0 "[Sending Authenticating, Returned True]" v] by (simp add: v_def watch_send_def)
  have "s_state (session_new sid) = w" by (simp add: session_new_def w_def)
  with s0 s1 s2 s3 s4 s5 show ?thesis
    by (metis (no_types, lifting) converse_rtranclp_into_rtranclp rtranclp.rtrancl_refl)
qed

text \<open>Tasks that only stop or drop the session.\<close>

fun stopping :: "task \<Rightarrow> bool" where
  "stopping (Calling c) \<longleftrightarrow> c = Stop \<or> c = Drop"
| "stopping (Setting v) \<longleftrightarrow> v = Disconnected"
| "stopping (Sending v) \<longleftrightarrow> v = Disconnected"
| "stopping (Returned r) \<longleftrightarrow> r"

definition stop_inv :: "session_state \<Rightarrow> task list \<times> watch_channel \<Rightarrow> bool" where
  "stop_inv v c \<longleftrightarrow> list_all stopping (fst c) \<and> (w_value (snd c) = v \<or> w_value (snd c) = Disconnected) \<and>
     (Returned True \<in> set (fst c) \<longrightarrow> w_value (snd c) = Disconnected)"

lemma stopping_step:
  assumes "stopping t" and "task_step t w = (t', w')"
  shows "stopping t' \<and> (w_value w' = w_value w \<or> w_value w' = Disconnected) \<and>
    (w_value w = Disconnected \<longrightarrow> w_value w' = Disconnected) \<and>
    (t' = Returned True \<longrightarrow> t = Returned True \<or> w_value w' = Disconnected)"
  using assms
  by (cases t) (auto simp: watch_send_def split: if_splits elim!: guard_step.elims)

lemma stop_inv_step: "interleave c c' \<Longrightarrow> stop_inv v c \<Longrightarrow> stop_inv v c'"
proof (induction rule: interleave.induct)
  case (step i ts w t w')
  then have t: "stopping (ts ! i)" by (simp add: stop_inv_def list_all_length)
  note S = stopping_step [OF t step.hyps(2)]
  have "list_all stopping (ts[i := t])"
    using step S by (auto simp: stop_inv_def list_all_length nth_list_update)
  moreover have "Returned True \<in> set (ts[i := t]) \<Longrightarrow> w_value w' = Disconnected"
  proof -
    assume "Returned True \<in> set (ts[i := t])"
    then have "t = Returned True \<or> Returned True \<in> set ts"
      using set_update_subset_insert [of ts i t] by auto
    moreover have "ts ! i = Returned True \<Longrightarrow> Returned True \<in> set ts"
      using nth_mem [OF step.hyps(1)] by simp
    ultimately show ?thesis
      using S step.prems by (auto simp: stop_inv_def)
  qed
  ultimately show ?case using S step by (auto simp: stop_inv_def)
qed

lemma stop_inv_steps: "interleave\<^sup>*\<^sup>* c c' \<Longrightarrow> stop_inv v c \<Longrightarrow> stop_inv v c'"
  by (induction rule: rtranclp_induct) (auto intro: stop_inv_step)

text \<open>
  Stopping is safe to race.  However many tasks stop or drop a shared session, in every
  interleaving it is only ever disconnected, and as soon as one of the calls has returned it is
  disconnected and stays so.
\<close>

lemma concurrent_stops:
  assumes "interleave\<^sup>*\<^sup>* (map Calling ops, s_state s) (ts, w)" and "set ops \<subseteq> {Stop, Drop}"
  shows "(w_value w = get_state s \<or> w_value w = Disconnected) \<and>
    (Returned r \<in> set ts \<longrightarrow> r \<and> w_value w = Disconnected)"
proof -
  have "stop_inv (get_state s) (map Calling ops, s_state s)"
    using assms(2) by (auto simp: stop_inv_def get_state_def list_all_iff)
  from stop_inv_steps [OF assms(1) this]
  have inv: "stop_inv (get_state s) (ts, w)" .
  have "Returned r \<in> set ts \<Longrightarrow> r"
    using inv by (auto simp: stop_inv_def list_all_iff)
  with inv show ?thesis by (cases r) (auto simp: stop_inv_def)
qed

lemma concurrent_stops_witness:
  "interleave\<^sup>*\<^sup>* (map Calling [Stop], s_state (session_new ''s'' :: (unit, unit, unit, unit, unit) session))
     ([Returned True], \<lparr>w_value = Disconnected, w_sent = [Connecting, Disconnected]\<rparr>) \<and>
   w_value \<lparr>w_value = Disconnected, w_sent = [Connecting, Disconnected]\<rparr> = Disconnected"
proof -
  define s :: "(unit, unit, unit, unit, unit) session" where "s = session_new ''s''"
  define w where "w = \<lparr>w_value = Disconnected, w_sent = [Connecting, Disconnected]\<rparr>"
  have "interleave ([Calling Stop], s_state s) ([Setting Disconnected], s_state s)"
    and "interleave ([Setting Disconnected], s_state s) ([Sending Disconnected], s_state s)"
    and "interleave ([Sending Disconnected], s_state s) ([Returned True], w)"
    using interleave.step [of 0 "[Calling Stop]" "s_state s"] interleave.step [of 0 "[Setting Disconnected]" "s_state s"]
      interleave.step [of 0 "[Sending Disconnected]" "s_state s"]
    by (simp_all add: s_def session_new_def w_def watch_send_def)
  then have run: "interleave\<^sup>*\<^sup>* (map Calling [Stop], s_state s) ([Returned True], w)"
    by (simp add: converse_rtranclp_into_rtranclp r_into_rtranclp)
  have "w_value w = Disconnected"
    using concurrent_stops [OF run, of True] by simp
  with run show ?thesis by (simp add: w_def s_def)
qed

section \<open>The host object\<close>

text \<open>
  \<open>start\<close> does not succeed yet, so a host object is a value of its record.  The results of the two
  constructors and the random number are arguments; a session is \<open>Arc\<close>-shared, so its position in
  \<open>rs_sessions\<close> is its identity.
\<close>

record ('cap, 'enc, 'dec, 'inp, 'clip) remote_server =
  rs_device_id :: string
  rs_listening :: bool
  rs_sessions :: "('cap, 'enc, 'dec, 'inp, 'clip) session list"

datatype server_error = Not_implemented | Not_listening | Session_error session_error

definition server_start :: "string \<Rightarrow> server_error + ('cap, 'enc, 'dec, 'inp, 'clip) remote_server" where
  "server_start device_id = Inl Not_implemented"

definition accept_connection_begin ::
  "'cap option \<Rightarrow> 'enc \<Rightarrow> 'inp option \<Rightarrow> string \<Rightarrow> ('cap, 'enc, 'dec, 'inp, 'clip) remote_server \<Rightarrow>
     server_error + ('cap, 'enc, 'dec, 'inp, 'clip) session" where
  "accept_connection_begin capturer encoder input rnd rs =
     (if \<not> rs_listening rs then Inl Not_listening
      else
        let session_id = ''server-'' @ rs_device_id rs @ ''-'' @ rnd;
            s0 = session_new session_id;
            s1 = (case capturer of None \<Rightarrow> s0 | Some c \<Rightarrow> set_capturer c s0);
            s2 = set_encoder encoder s1;
            s3 = (case input of None \<Rightarrow> s2 | Some i \<Rightarrow> set_input i s2) in
        case session_start s3 of
          (Inl e, _) \<Rightarrow> Inl (Session_error e)
        | (Inr _, s4) \<Rightarrow>
            (case session_activate s4 of
               (Inl e, _) \<Rightarrow> Inl (Session_error e)
             | (Inr _, s5) \<Rightarrow> Inr s5))"

definition accept_connection_finish ::
  "('cap, 'enc, 'dec, 'inp, 'clip) session \<Rightarrow> ('cap, 'enc, 'dec, 'inp, 'clip) remote_server \<Rightarrow>
     ('cap, 'enc, 'dec, 'inp, 'clip) remote_server" where
  "accept_connection_finish s rs = rs\<lparr>rs_sessions := rs_sessions rs @ [s]\<rparr>"

definition stop_listening ::
  "('cap, 'enc, 'dec, 'inp, 'clip) remote_server \<Rightarrow> ('cap, 'enc, 'dec, 'inp, 'clip) remote_server" where
  "stop_listening rs = rs\<lparr>rs_listening := False\<rparr>"

definition stop_sessions ::
  "('cap, 'enc, 'dec, 'inp, 'clip) remote_server \<Rightarrow> ('cap, 'enc, 'dec, 'inp, 'clip) remote_server" where
  "stop_sessions rs = rs\<lparr>rs_sessions := map session_stop (rs_sessions rs)\<rparr>"

definition active_session_count :: "('cap, 'enc, 'dec, 'inp, 'clip) remote_server \<Rightarrow> nat" where
  "active_session_count rs = length (rs_sessions rs)"

lemma accepted_is_active:
  "accept_connection_begin capturer encoder input rnd rs = Inr s \<Longrightarrow>
   rs_listening rs \<and> get_state s = Active \<and> w_sent (s_state s) = [Connecting, Authenticating, Active] \<and>
   s_capturer s = capturer \<and> s_encoder s = Some encoder \<and> s_input s = input"
  by (auto simp: accept_connection_begin_def session_defs session_new_def set_capturer_def set_encoder_def
      set_input_def split: if_splits option.splits)

lemma accept_never_session_error: "accept_connection_begin capturer encoder input rnd rs \<noteq> Inl (Session_error e)"
  by (auto simp: accept_connection_begin_def session_defs session_new_def set_capturer_def set_encoder_def
      set_input_def split: option.splits)

lemma stopped_sessions: "s \<in> set (rs_sessions (stop_sessions rs)) \<Longrightarrow> get_state s = Disconnected"
  by (auto simp: stop_sessions_def session_defs)

text \<open>
  An accept that passed its check before \<open>stop\<close> pushes its session after it: the stopped host keeps an
  active session, and the count includes the stopped ones.
\<close>

lemma stop_misses_accept:
  assumes "accept_connection_begin capturer encoder input rnd rs = Inr s"
  shows "let rs' = accept_connection_finish s (stop_sessions (stop_listening rs)) in
    \<not> rs_listening rs' \<and> get_state (last (rs_sessions rs')) = Active \<and>
    active_session_count rs' = Suc (active_session_count rs)"
  using accepted_is_active [OF assms]
  by (simp add: accept_connection_finish_def stop_sessions_def stop_listening_def active_session_count_def)

end
