(* ===== verification/Client_Bridge.thy ===== *)
theory Client_Bridge
  imports Session Local_Files "HOL-Library.Multiset" "HOL-Library.Char_ord" "HOL-Library.List_Lexorder"
begin

text \<open>
  The viewer's object \<open>RemoteClient\<close> (\<open>crates/rdesk_core/src/client.rs\<close>), the registry of sessions
  behind the bridge to the user interface (\<open>crates/rdesk_bridge/src/state.rs\<close>, \<open>api/session.rs\<close>,
  \<open>api/connection.rs\<close>), and the local helpers: chat, clipboard and files (\<open>rdesk_core\<close>).
\<close>

section \<open>The client\<close>

text \<open>The protocol's input events; a float is its bit pattern.\<close>

record mouse_event =
  me_x :: "32 word"
  me_y :: "32 word"
  me_mask :: "32 word"
  me_modifiers :: "32 word"
  me_event_type :: "32 word"

record key_event =
  ke_key_code :: u32
  ke_down :: bool
  ke_modifiers :: "32 word"
  ke_control_key :: "32 word"
  ke_chr :: string

record touch_point =
  tp_id :: "32 word"
  tp_x :: u32
  tp_y :: u32
  tp_pressure :: u32

record touch_event =
  te_points :: "touch_point list"
  te_event_type :: "32 word"

text \<open>What is put on the wire; the source has a trace line in its place.\<close>

datatype input_event = Mouse mouse_event | Key key_event | Touch touch_event

record ('cap, 'enc, 'dec, 'inp, 'clip) remote_client =
  rc_session :: "('cap, 'enc, 'dec, 'inp, 'clip) session"
  rc_decoder :: 'dec
  rc_remote_device_id :: string

datatype client_error = Not_implemented | Not_connected string | Session_not_found string

definition client_connect :: "string \<Rightarrow> string \<Rightarrow> client_error + ('cap, 'enc, 'dec, 'inp, 'clip) remote_client" where
  "client_connect device_id password = Inl Not_implemented"

definition send_event :: "input_event \<Rightarrow> ('cap, 'enc, 'dec, 'inp, 'clip) remote_client \<Rightarrow> input_event list" where
  "send_event e c = (if get_state (rc_session c) \<noteq> Active then [] else [e])"

definition client_disconnect ::
  "('cap, 'enc, 'dec, 'inp, 'clip) remote_client \<Rightarrow> ('cap, 'enc, 'dec, 'inp, 'clip) remote_client" where
  "client_disconnect c = c\<lparr>rc_session := session_stop (rc_session c)\<rparr>"

definition client_drop ::
  "('cap, 'enc, 'dec, 'inp, 'clip) remote_client \<Rightarrow> ('cap, 'enc, 'dec, 'inp, 'clip) remote_client" where
  "client_drop c =
     (if get_state (rc_session c) \<noteq> Disconnected then c\<lparr>rc_session := session_stop (rc_session c)\<rparr> else c)"

section \<open>The registry\<close>

type_synonym ('cap, 'enc, 'dec, 'inp, 'clip) registry =
  "(string, ('cap, 'enc, 'dec, 'inp, 'clip) remote_client) hmap"

definition register_client ::
  "('cap, 'enc, 'dec, 'inp, 'clip) remote_client \<Rightarrow> ('cap, 'enc, 'dec, 'inp, 'clip) registry \<Rightarrow>
     string \<times> ('cap, 'enc, 'dec, 'inp, 'clip) registry" where
  "register_client client sessions =
     (let session_id = s_id (rc_session client) in (session_id, hput session_id client sessions))"

definition get_client ::
  "string \<Rightarrow> ('cap, 'enc, 'dec, 'inp, 'clip) registry \<Rightarrow> client_error + ('cap, 'enc, 'dec, 'inp, 'clip) remote_client" where
  "get_client session_id sessions =
     (case hget sessions session_id of None \<Rightarrow> Inl (Not_connected session_id) | Some c \<Rightarrow> Inr c)"

definition remove_client ::
  "string \<Rightarrow> ('cap, 'enc, 'dec, 'inp, 'clip) registry \<Rightarrow>
     ('cap, 'enc, 'dec, 'inp, 'clip) remote_client option \<times> ('cap, 'enc, 'dec, 'inp, 'clip) registry" where
  "remove_client session_id sessions = (hget sessions session_id, hrem session_id sessions)"

section \<open>The bridge\<close>

definition bridge_send_mouse_event ::
  "string \<Rightarrow> 32 word \<Rightarrow> 32 word \<Rightarrow> 32 word \<Rightarrow> 32 word \<Rightarrow> ('cap, 'enc, 'dec, 'inp, 'clip) registry \<Rightarrow>
     client_error + input_event list" where
  "bridge_send_mouse_event session_id x y buttons event_type sessions =
     (case get_client session_id sessions of
        Inl e \<Rightarrow> Inl e
      | Inr client \<Rightarrow>
          Inr (send_event (Mouse \<lparr>me_x = x, me_y = y, me_mask = buttons, me_modifiers = 0,
                 me_event_type = event_type\<rparr>) client))"

definition bridge_send_key_event ::
  "string \<Rightarrow> u32 \<Rightarrow> bool \<Rightarrow> 32 word \<Rightarrow> ('cap, 'enc, 'dec, 'inp, 'clip) registry \<Rightarrow> client_error + input_event list" where
  "bridge_send_key_event session_id key_code down modifiers sessions =
     (case get_client session_id sessions of
        Inl e \<Rightarrow> Inl e
      | Inr client \<Rightarrow>
          Inr (send_event (Key \<lparr>ke_key_code = key_code, ke_down = down, ke_modifiers = modifiers,
                 ke_control_key = 0, ke_chr = []\<rparr>) client))"

definition bridge_send_touch_event ::
  "string \<Rightarrow> touch_point list \<Rightarrow> 32 word \<Rightarrow> ('cap, 'enc, 'dec, 'inp, 'clip) registry \<Rightarrow>
     client_error + input_event list" where
  "bridge_send_touch_event session_id points event_type sessions =
     (case get_client session_id sessions of
        Inl e \<Rightarrow> Inl e
      | Inr client \<Rightarrow> Inr (send_event (Touch \<lparr>te_points = points, te_event_type = event_type\<rparr>) client))"

definition request_keyframe :: "string \<Rightarrow> ('cap, 'enc, 'dec, 'inp, 'clip) registry \<Rightarrow> client_error + unit" where
  "request_keyframe session_id sessions =
     (case get_client session_id sessions of Inl e \<Rightarrow> Inl e | Inr _ \<Rightarrow> Inr ())"

definition connect_to_peer ::
  "string \<Rightarrow> string \<Rightarrow> ('cap, 'enc, 'dec, 'inp, 'clip) registry \<Rightarrow>
     (client_error + string) \<times> ('cap, 'enc, 'dec, 'inp, 'clip) registry" where
  "connect_to_peer device_id password sessions =
     (case client_connect device_id password of
        Inl e \<Rightarrow> (Inl e, sessions)
      | Inr client \<Rightarrow> (let (session_id, sessions1) = register_client client sessions in (Inr session_id, sessions1)))"

definition bridge_disconnect ::
  "string \<Rightarrow> ('cap, 'enc, 'dec, 'inp, 'clip) registry \<Rightarrow>
     (client_error + ('cap, 'enc, 'dec, 'inp, 'clip) remote_client) \<times> ('cap, 'enc, 'dec, 'inp, 'clip) registry" where
  "bridge_disconnect session_id sessions =
     (case remove_client session_id sessions of
        (None, sessions1) \<Rightarrow> (Inl (Session_not_found session_id), sessions1)
      | (Some client, sessions1) \<Rightarrow> (Inr (client_disconnect client), sessions1))"

lemma events_only_when_active:
  "bridge_send_mouse_event i x y buttons t sessions = Inr (e # es) \<Longrightarrow>
   \<exists>c. hget sessions i = Some c \<and> get_state (rc_session c) = Active \<and> es = []"
  "bridge_send_key_event i k down mods sessions = Inr (e # es) \<Longrightarrow>
   \<exists>c. hget sessions i = Some c \<and> get_state (rc_session c) = Active \<and> es = []"
  "bridge_send_touch_event i ps t sessions = Inr (e # es) \<Longrightarrow>
   \<exists>c. hget sessions i = Some c \<and> get_state (rc_session c) = Active \<and> es = []"
  by (auto simp: bridge_send_mouse_event_def bridge_send_key_event_def bridge_send_touch_event_def
      get_client_def send_event_def split: option.splits if_splits)

lemma disconnect_removes:
  "bridge_disconnect i sessions = (Inr c, sessions') \<Longrightarrow>
   get_state (rc_session c) = Disconnected \<and> send_event e c = [] \<and> client_drop c = c \<and>
   get_client i sessions' = Inl (Not_connected i) \<and>
   bridge_disconnect i sessions' = (Inl (Session_not_found i), sessions') \<and>
   (\<forall>j. j \<noteq> i \<longrightarrow> get_client j sessions' = get_client j sessions)"
proof -
  assume "bridge_disconnect i sessions = (Inr c, sessions')"
  then obtain c0 where c: "hget sessions i = Some c0" "c = client_disconnect c0" "sessions' = hrem i sessions"
    by (auto simp: bridge_disconnect_def remove_client_def split: option.splits)
  have "hrem i (hrem i sessions) = hrem i sessions"
    by transfer (simp add: AList.delete_eq)
  with c show ?thesis
    by (simp add: client_disconnect_def client_drop_def get_client_def bridge_disconnect_def remove_client_def
        send_event_def session_defs)
qed

lemma connect_registers_nothing:
  "connect_to_peer device_id password sessions = (Inl Not_implemented, sessions)"
  by (simp add: connect_to_peer_def client_connect_def)

section \<open>Chat and clipboard\<close>

record chat_message =
  cm_sender :: string
  cm_content :: string
  cm_timestamp :: "64 word"

text \<open>\<open>secs\<close>: the seconds since the epoch, \<open>None\<close> when the clock is before it.\<close>

definition chat_send_message ::
  "nat option \<Rightarrow> string \<Rightarrow> string \<Rightarrow> string \<Rightarrow> (string, chat_message list) hmap \<Rightarrow>
     chat_message option \<times> (string, chat_message list) hmap" where
  "chat_send_message secs session_id sender content store =
     (case secs of
        None \<Rightarrow> (None, store)
      | Some n \<Rightarrow>
          let message = \<lparr>cm_sender = sender, cm_content = content, cm_timestamp = of_nat n\<rparr>
          in (Some message, hput session_id (hor_default [] session_id store @ [message]) store))"

definition list_messages :: "string \<Rightarrow> (string, chat_message list) hmap \<Rightarrow> chat_message list" where
  "list_messages session_id store = hor_default [] session_id store"

lemma chat_appends:
  "chat_send_message (Some n) i sender content store = (Some m, store') \<Longrightarrow>
   list_messages j store' = (if j = i then list_messages i store @ [m] else list_messages j store)"
  by (auto simp: chat_send_message_def list_messages_def Let_def hor_default_def)

datatype clipboard_content = Clip_text string | Clip_html string | Clip_image_png u32 u32 bytes

definition clipboard_new :: "clipboard_content option" where "clipboard_new = None"

definition set_content :: "clipboard_content \<Rightarrow> clipboard_content option \<Rightarrow> clipboard_content option" where
  "set_content c _ = Some c"

definition clipboard_clear :: "clipboard_content option \<Rightarrow> clipboard_content option" where
  "clipboard_clear _ = None"

section \<open>Files\<close>

record file_entry =
  fe_name :: string
  fe_is_dir :: bool
  fe_size :: u64
  fe_modified :: "64 word"

datatype file_error =
  Empty_session | Empty_remote_path | Stat_failed | Not_a_file | Read_dir_failed | Create_failed | Write_failed

text \<open>
  The entries as the operating system lists them: \<open>None\<close> when reading the next entry or its metadata
  fails.  The order on strings is that of their bytes.
\<close>

definition list_directory :: "file_entry option list option \<Rightarrow> file_error + file_entry list" where
  "list_directory entries =
     (case entries of
        None \<Rightarrow> Inl Read_dir_failed
      | Some es \<Rightarrow>
          if None \<in> set es then Inl Stat_failed
          else Inr (sort_key fe_name (map the es)))"

definition send_file :: "string \<Rightarrow> bool option \<Rightarrow> string \<Rightarrow> file_error + unit" where
  "send_file session_id local_is_file remote_path =
     (if session_id = '''' then Inl Empty_session
      else
        case local_is_file of
          None \<Rightarrow> Inl Stat_failed
        | Some is_file \<Rightarrow>
            if \<not> is_file then Inl Not_a_file
            else if remote_path = '''' then Inl Empty_remote_path
            else Inr ())"

definition placeholder :: "string \<Rightarrow> string \<Rightarrow> string" where
  "placeholder session_id remote_path =
     ''rdesk stub download'' @ [CHR 0x0A] @ ''session='' @ session_id @ [CHR 0x0A] @
     ''remote_path='' @ remote_path @ [CHR 0x0A]"

text \<open>\<open>parent\<close> is the parent of the local path, if it has one.\<close>

definition receive_file ::
  "string \<Rightarrow> string \<Rightarrow> string option \<Rightarrow> string \<Rightarrow> bool \<Rightarrow> write_outcome \<Rightarrow> local_files \<Rightarrow>
     (file_error + unit) \<times> local_files" where
  "receive_file session_id remote_path parent local_path create_ok outcome fs =
     (if session_id = '''' then (Inl Empty_session, fs)
      else if remote_path = '''' then (Inl Empty_remote_path, fs)
      else if (case parent of None \<Rightarrow> False | Some p \<Rightarrow> p \<noteq> '''') \<and> \<not> create_ok then (Inl Create_failed, fs)
      else
        case fs_write outcome local_path (placeholder session_id remote_path) fs of
          (False, fs1) \<Rightarrow> (Inl Write_failed, fs1)
        | (True, fs1) \<Rightarrow> (Inr (), fs1))"

lemma list_directory_sorted:
  "list_directory (Some es) = Inr out \<Longrightarrow>
   sorted (map fe_name out) \<and> mset out = mset (map the es) \<and> None \<notin> set es"
  by (auto simp: list_directory_def split: if_splits)

lemma send_file_ok: "send_file i f r = Inr () \<longleftrightarrow> i \<noteq> '''' \<and> f = Some True \<and> r \<noteq> ''''"
  by (auto simp: send_file_def split: option.splits if_splits)

end
