(* ===== verification/Bridge_Local.thy ===== *)
theory Bridge_Local
  imports Client_Bridge
begin

text \<open>
  The bridge's functions for chat and files (\<open>crates/rdesk_bridge/src/api/chat.rs\<close>, \<open>api/file_transfer.rs\<close>)
  over the helpers of \<open>rdesk_core\<close>, and the input simulator of a host (\<open>rdesk_core/src/input.rs\<close>).
\<close>

section \<open>Input\<close>

datatype noop_input_simulator = NoopInputSimulator

definition create_input_simulator :: "string + noop_input_simulator" where
  "create_input_simulator = Inr NoopInputSimulator"

definition noop_mouse_event :: "mouse_event \<Rightarrow> noop_input_simulator \<Rightarrow> (string + unit) \<times> noop_input_simulator" where
  "noop_mouse_event event sim = (Inr (), sim)"

definition noop_key_event :: "key_event \<Rightarrow> noop_input_simulator \<Rightarrow> (string + unit) \<times> noop_input_simulator" where
  "noop_key_event event sim = (Inr (), sim)"

definition noop_touch_event :: "touch_event \<Rightarrow> noop_input_simulator \<Rightarrow> (string + unit) \<times> noop_input_simulator" where
  "noop_touch_event event sim = (Inr (), sim)"

section \<open>Chat\<close>

record chat_message_data =
  cd_sender :: string
  cd_content :: string
  cd_timestamp :: "64 word"

definition chat_data :: "chat_message \<Rightarrow> chat_message_data" where
  "chat_data m = \<lparr>cd_sender = cm_sender m, cd_content = cm_content m, cd_timestamp = cm_timestamp m\<rparr>"

definition send_chat_message ::
  "nat option \<Rightarrow> string \<Rightarrow> string \<Rightarrow> string \<Rightarrow> (string, chat_message list) hmap \<Rightarrow>
     chat_message_data option \<times> (string, chat_message list) hmap" where
  "send_chat_message secs session_id sender content store =
     (case chat_send_message secs session_id sender content store of
        (None, store1) \<Rightarrow> (None, store1)
      | (Some message, store1) \<Rightarrow> (Some (chat_data message), store1))"

definition list_chat_messages :: "string \<Rightarrow> (string, chat_message list) hmap \<Rightarrow> chat_message_data list" where
  "list_chat_messages session_id store = map chat_data (list_messages session_id store)"

section \<open>Files\<close>

record file_entry_data =
  fd_name :: string
  fd_is_dir :: bool
  fd_size :: u64
  fd_modified :: "64 word"

definition entry_data :: "file_entry \<Rightarrow> file_entry_data" where
  "entry_data e = \<lparr>fd_name = fe_name e, fd_is_dir = fe_is_dir e, fd_size = fe_size e, fd_modified = fe_modified e\<rparr>"

text \<open>An error with the context the bridge adds to it.\<close>

datatype bridge_error =
  Session_is_not_connected client_error
| List_failed file_error
| File_send_failed file_error
| File_receive_failed file_error

text \<open>\<open>read_dir\<close> is what the operating system of this machine lists for a path.\<close>

definition list_remote_dir ::
  "(string \<Rightarrow> file_entry option list option) \<Rightarrow> string \<Rightarrow> string \<Rightarrow>
     ('cap, 'enc, 'dec, 'inp, 'clip) registry \<Rightarrow> bridge_error + file_entry_data list" where
  "list_remote_dir read_dir session_id path sessions =
     (case get_client session_id sessions of
        Inl e \<Rightarrow> Inl (Session_is_not_connected e)
      | Inr _ \<Rightarrow>
          (case list_directory (read_dir path) of
             Inl e \<Rightarrow> Inl (List_failed e)
           | Inr entries \<Rightarrow> Inr (map entry_data entries)))"

definition bridge_send_file ::
  "(string \<Rightarrow> bool option) \<Rightarrow> string \<Rightarrow> string \<Rightarrow> string \<Rightarrow>
     ('cap, 'enc, 'dec, 'inp, 'clip) registry \<Rightarrow> bridge_error + unit" where
  "bridge_send_file is_file session_id local_path remote_path sessions =
     (case get_client session_id sessions of
        Inl e \<Rightarrow> Inl (Session_is_not_connected e)
      | Inr _ \<Rightarrow>
          (case send_file session_id (is_file local_path) remote_path of
             Inl e \<Rightarrow> Inl (File_send_failed e) | Inr _ \<Rightarrow> Inr ()))"

definition bridge_receive_file ::
  "(string \<Rightarrow> string option) \<Rightarrow> bool \<Rightarrow> write_outcome \<Rightarrow> string \<Rightarrow> string \<Rightarrow> string \<Rightarrow>
     ('cap, 'enc, 'dec, 'inp, 'clip) registry \<Rightarrow> local_files \<Rightarrow>
     (bridge_error + unit) \<times> local_files" where
  "bridge_receive_file parent create_ok outcome session_id remote_path local_path sessions fs =
     (case get_client session_id sessions of
        Inl e \<Rightarrow> (Inl (Session_is_not_connected e), fs)
      | Inr _ \<Rightarrow>
          (case receive_file session_id remote_path (parent local_path) local_path create_ok outcome fs of
             (Inl e, fs1) \<Rightarrow> (Inl (File_receive_failed e), fs1) | (Inr _, fs1) \<Rightarrow> (Inr (), fs1)))"

section \<open>What the user interface gets\<close>

text \<open>A sent message is the last of its session's transcript, and no other transcript changes.\<close>

lemma chat_listed:
  assumes "send_chat_message secs i sender content store = (Some d, store')"
  shows "list_chat_messages j store' =
      (if j = i then list_chat_messages i store @ [d] else list_chat_messages j store)"
    and "cd_sender d = sender" "cd_content d = content"
proof -
  obtain n m where m: "secs = Some n" "chat_send_message (Some n) i sender content store = (Some m, store')"
    "d = chat_data m"
    using assms by (cases secs) (auto simp: send_chat_message_def chat_send_message_def split: prod.splits option.splits)
  from chat_appends [OF m(2)] m(3) show "list_chat_messages j store' =
      (if j = i then list_chat_messages i store @ [d] else list_chat_messages j store)"
    by (simp add: list_chat_messages_def)
  show "cd_sender d = sender" "cd_content d = content"
    using m(2,3) by (auto simp: chat_send_message_def chat_data_def Let_def)
qed

lemma chat_fails_only_by_clock:
  "fst (send_chat_message secs i sender content store) = None \<longleftrightarrow> secs = None"
  by (auto simp: send_chat_message_def chat_send_message_def Let_def split: option.splits)

text \<open>The entries reach the user interface complete, once each and sorted by name.\<close>

lemma remote_dir_sorted:
  assumes "list_remote_dir read_dir i path sessions = Inr out"
  shows "\<exists>es. read_dir path = Some (map Some es) \<and> sorted (map fd_name out) \<and> mset out = mset (map entry_data es)"
proof -
  obtain es where l: "list_directory (read_dir path) = Inr es" "out = map entry_data es"
    using assms by (auto simp: list_remote_dir_def split: sum.splits)
  then obtain os where os: "read_dir path = Some os" by (cases "read_dir path") (auto simp: list_directory_def)
  from list_directory_sorted [OF l(1) [unfolded os]]
  have s: "sorted (map fe_name es)" "mset es = mset (map the os)" "None \<notin> set os" by simp_all
  have "os = map Some (map the os)" using s(3) by (induction os) (auto)
  moreover have "map fd_name out = map fe_name es" by (simp add: l(2) entry_data_def)
  moreover have "mset out = mset (map entry_data (map the os))"
    using s(2) by (simp add: l(2) multiset.map_comp)
  ultimately show ?thesis using os s(1) by metis
qed

text \<open>
  The directory listed is one of this machine: with the session registered, the answer does not depend on
  the session, on its client or on the peer; and a file that is sent leaves nothing but a success.
\<close>

lemma remote_dir_is_local:
  assumes "get_client i sessions = Inr c" and "get_client j sessions' = Inr c'"
  shows "list_remote_dir read_dir i path sessions = list_remote_dir read_dir j path sessions'"
  using assms by (simp add: list_remote_dir_def)

lemma file_calls_need_a_session:
  assumes "get_client i sessions = Inl e"
  shows "list_remote_dir read_dir i path sessions = Inl (Session_is_not_connected e)"
    and "bridge_send_file is_file i lp rp sessions = Inl (Session_is_not_connected e)"
    and "bridge_receive_file parent c w i rp lp sessions fs = (Inl (Session_is_not_connected e), fs)"
  using assms by (simp_all add: list_remote_dir_def bridge_send_file_def bridge_receive_file_def)

text \<open>
  A received file is a placeholder; no other file is written, and when the call fails the local file is as
  it was or a part of the placeholder.
\<close>

lemma receive_file_writes:
  assumes "bridge_receive_file parent create_ok outcome i rp lp sessions fs = (res, fs')"
  shows "p \<noteq> lp \<Longrightarrow> hget fs' p = hget fs p"
    and "res = Inr () \<Longrightarrow> hget fs' lp = Some (placeholder i rp)"
    and "res \<noteq> Inr () \<Longrightarrow> fs' = fs \<or> (\<exists>n. hget fs' lp = Some (take n (placeholder i rp)))"
  using assms
  by (auto simp: bridge_receive_file_def receive_file_def fs_write_def
      split: sum.splits if_splits write_outcome.splits option.splits)

end
