(* ===== verification/Video.thy ===== *)
theory Video
  imports Endian
begin

text \<open>
  The placeholder capturer and codec of \<open>crates/rdesk_core\<close> (\<open>capture/desktop.rs\<close>, \<open>codec/vpx.rs\<close>): a
  synthetic frame, and frames as a header and LZ4-compressed pixels.  The LZ4 functions are parameters.
\<close>

section \<open>Capture\<close>

record display_info =
  di_id :: u32
  di_name :: string
  di_x :: "32 word"
  di_y :: "32 word"
  di_width :: u32
  di_height :: u32
  di_is_primary :: bool

record cursor_info =
  cu_hotspot_x :: "32 word"
  cu_hotspot_y :: "32 word"
  cu_x :: "32 word"
  cu_y :: "32 word"
  cu_width :: u32
  cu_height :: u32
  cu_data :: bytes

record captured_frame =
  cf_width :: u32
  cf_height :: u32
  cf_stride :: u32
  cf_data :: bytes
  cf_cursor :: "cursor_info option"

definition DEFAULT_WIDTH :: u32 where "DEFAULT_WIDTH = 1280"
definition DEFAULT_HEIGHT :: u32 where "DEFAULT_HEIGHT = 720"

definition desktop_capturer_new :: display_info where
  "desktop_capturer_new =
     \<lparr>di_id = 0, di_name = ''Primary Display'', di_x = 0, di_y = 0,
      di_width = DEFAULT_WIDTH, di_height = DEFAULT_HEIGHT, di_is_primary = True\<rparr>"

definition displays :: "display_info \<Rightarrow> string + display_info list" where
  "displays d = Inr [d]"

definition create_capturer :: "string + display_info" where
  "create_capturer = Inr desktop_capturer_new"

text \<open>
  The four writes of one pixel; \<open>idx\<close> is computed in \<open>u32\<close>.  A write past the end is a panic, \<open>None\<close>.
\<close>

definition put_pixel :: "u32 \<Rightarrow> u32 \<Rightarrow> u32 \<Rightarrow> bytes \<Rightarrow> bytes option" where
  "put_pixel w x y data =
     (let idx = unat ((y * w + x) * 4) in
      if idx + 3 < length data
      then Some (data[idx := ucast (x mod 255), idx + 1 := ucast (y mod 255), idx + 2 := 32, idx + 3 := 255])
      else None)"

text \<open>The two loops: the coordinates in the order in which they are visited.\<close>

definition coordinates :: "nat \<Rightarrow> nat \<Rightarrow> (nat \<times> nat) list" where
  "coordinates w h = concat (map (\<lambda>y. map (\<lambda>x. (x, y)) [0..<w]) [0..<h])"

definition capture_frame :: "display_info \<Rightarrow> captured_frame option" where
  "capture_frame d =
     (let w = di_width d; h = di_height d in
      map_option (\<lambda>data. \<lparr>cf_width = w, cf_height = h, cf_stride = w * 4, cf_data = data, cf_cursor = None\<rparr>)
        (foldl (\<lambda>data (x, y). Option.bind data (put_pixel w (of_nat x) (of_nat y)))
           (Some (replicate (unat (w * h * 4)) 0)) (coordinates (unat w) (unat h))))"

section \<open>Codec\<close>

datatype codec_type = Raw | Vp9 | H264 | H265

datatype raw_encoder = RawEncoder

definition raw_encoder_new :: raw_encoder where "raw_encoder_new = RawEncoder"
definition raw_encoder_codec_type :: "raw_encoder \<Rightarrow> codec_type" where "raw_encoder_codec_type e = Raw"

datatype raw_decoder = RawDecoder

definition raw_decoder_new :: raw_decoder where "raw_decoder_new = RawDecoder"
definition raw_decoder_codec_type :: "raw_decoder \<Rightarrow> codec_type" where "raw_decoder_codec_type d = Raw"

record decoded_frame =
  df_width :: u32
  df_height :: u32
  df_data :: bytes

abbreviation HEADER_LEN :: nat where "HEADER_LEN \<equiv> 9"

datatype decode_error = Frame_too_short | Bad_payload

definition raw_encode :: "(bytes \<Rightarrow> bytes) \<Rightarrow> captured_frame \<Rightarrow> bool \<Rightarrow> bytes" where
  "raw_encode compress_prepend_size frame keyframe =
     (let compressed = compress_prepend_size (cf_data frame)
      in be32 (cf_width frame) @ be32 (cf_height frame) @ [if keyframe then 1 else 0] @ compressed)"

definition raw_decode :: "(bytes \<Rightarrow> bytes option) \<Rightarrow> bytes \<Rightarrow> bool \<Rightarrow> decode_error + decoded_frame" where
  "raw_decode decompress_size_prepended data keyframe =
     (if length data < HEADER_LEN then Inl Frame_too_short
      else
        let width = of_be32 (take 4 data);
            height = of_be32 (take 4 (drop 4 data));
            payload = drop HEADER_LEN data in
        case decompress_size_prepended payload of
          None \<Rightarrow> Inl Bad_payload
        | Some pixels \<Rightarrow> Inr \<lparr>df_width = width, df_height = height, df_data = pixels\<rparr>)"

section \<open>The codec is lossless\<close>

lemma raw_roundtrip:
  assumes "decompress (compress (cf_data f)) = Some (cf_data f)"
  shows "raw_decode decompress (raw_encode compress f key) key' =
     Inr \<lparr>df_width = cf_width f, df_height = cf_height f, df_data = cf_data f\<rparr>"
  using assms by (simp add: raw_decode_def raw_encode_def Let_def)

text \<open>The pair speaks one codec, and a captured frame has the size of the display that is listed.\<close>

lemma raw_pair_matches: "raw_encoder_codec_type raw_encoder_new = raw_decoder_codec_type raw_decoder_new"
  by (simp add: raw_encoder_codec_type_def raw_decoder_codec_type_def)

lemma captured_display:
  assumes "create_capturer = Inr c" and "capture_frame c = Some f"
  shows "\<exists>d. displays c = Inr [d] \<and> di_is_primary d \<and> cf_width f = di_width d \<and> cf_height f = di_height d"
  using assms
  by (auto simp: create_capturer_def desktop_capturer_new_def displays_def capture_frame_def Let_def)

lemma raw_decode_short: "raw_decode decompress data key = Inl Frame_too_short \<longleftrightarrow> length data < 9"
  by (auto simp: raw_decode_def Let_def split: option.split)

section \<open>The synthetic frame\<close>

text \<open>Index arithmetic: within a frame that fits, the offsets of the pixels do not wrap and do not overlap.\<close>

lemma unat_of_nat32: "n < 2 ^ 32 \<Longrightarrow> unat (of_nat n :: u32) = n"
  by (simp add: unsigned_of_nat take_bit_nat_eq_self)

lemma u32_bound: "unat (w :: u32) < 2 ^ 32"
proof -
  have "unat w < 2 ^ LENGTH(32)" by (rule unsigned_less)
  then show ?thesis by simp
qed

lemma pixel_index:
  assumes "x < unat w" and "y < unat h" and "unat w * unat h * 4 < 2 ^ 32"
  shows "unat ((of_nat y * w + of_nat x) * 4 :: u32) = (y * unat w + x) * 4"
    and "(y * unat w + x) * 4 + 3 < unat w * unat h * 4"
proof -
  have le: "y * unat w + x < unat h * unat w"
  proof -
    have "y * unat w + x < y * unat w + unat w" using assms(1) by simp
    also have "\<dots> = Suc y * unat w" by simp
    also have "\<dots> \<le> unat h * unat w" using assms(2) by (intro mult_le_mono1) simp
    finally show ?thesis .
  qed
  then show "(y * unat w + x) * 4 + 3 < unat w * unat h * 4" by (simp add: mult.commute)
  have e: "(of_nat y * w + of_nat x) * 4 = (of_nat ((y * unat w + x) * 4) :: u32)" by simp
  have b: "(y * unat w + x) * 4 < 2 ^ 32" using le assms(3) by (simp add: mult.commute)
  show "unat ((of_nat y * w + of_nat x) * 4 :: u32) = (y * unat w + x) * 4"
    unfolding e by (rule unat_of_nat32) (use b in simp)
qed

definition pixel_at :: "nat \<Rightarrow> bytes \<Rightarrow> nat \<Rightarrow> nat \<Rightarrow> bytes" where
  "pixel_at w data x y = map (\<lambda>j. data ! ((y * w + x) * 4 + j)) [0..<4]"

definition gradient :: "nat \<Rightarrow> nat \<Rightarrow> bytes" where
  "gradient x y = [of_nat (x mod 255), of_nat (y mod 255), 32, 255]"

lemma set_coordinates: "set (coordinates w h) = {(x, y). x < w \<and> y < h}"
  by (auto simp: coordinates_def)

lemma ucast_mod: "n < 2 ^ 32 \<Longrightarrow> (ucast ((of_nat n :: u32) mod 255) :: u8) = of_nat (n mod 255)"
proof -
  assume n: "n < 2 ^ 32"
  have "unat ((of_nat n :: u32) mod 255) = n mod 255"
    using n by (simp add: unat_mod_distrib unat_of_nat32)
  then show ?thesis by (metis of_nat_unat)
qed

lemma upt4: "[0..<4] = [0, 1, 2, 3 :: nat]"
  by (simp add: upt_rec)

lemma four_updates:
  "i * 4 + 3 < length data \<Longrightarrow>
   map (\<lambda>j. (data[i * 4 := a, i * 4 + 1 := b, i * 4 + 2 := c, i * 4 + 3 := e]) ! (m * 4 + j)) [0..<4] =
     (if m = i then [a, b, c, e] else map (\<lambda>j. data ! (m * 4 + j)) [0..<4])"
proof (cases "m = i")
  case False
  then have "i * 4 + p \<noteq> m * 4 + j" if "p < 4" "j < 4" for p j using that by arith
  then show ?thesis
    using False by (intro nth_equalityI) (simp_all add: nth_list_update_neq [where j = "m * 4 + _"])
qed (simp add: upt4)

lemma put_pixel_paints:
  assumes "x < unat w" and "y < unat (h :: u32)" and "unat w * unat h * 4 < 2 ^ 32"
    and "length data = unat w * unat h * 4"
  shows "\<exists>data'. put_pixel w (of_nat x) (of_nat y) data = Some data' \<and> length data' = length data \<and>
    (\<forall>x' y'. x' < unat w \<longrightarrow> y' < unat h \<longrightarrow>
       pixel_at (unat w) data' x' y' = (if x' = x \<and> y' = y then gradient x y else pixel_at (unat w) data x' y'))"
proof -
  note I = pixel_index [OF assms(1-3)]
  have "x < 2 ^ 32" "y < 2 ^ 32"
    using assms(1,2) u32_bound [of w] u32_bound [of h] by simp_all
  then have c: "(ucast ((of_nat x :: u32) mod 255) :: u8) = of_nat (x mod 255)"
    "(ucast ((of_nat y :: u32) mod 255) :: u8) = of_nat (y mod 255)"
    by (simp_all add: ucast_mod)
  let ?k = "(y * unat w + x) * 4"
  let ?d = "data[?k := of_nat (x mod 255), ?k + 1 := of_nat (y mod 255), ?k + 2 := 32, ?k + 3 := 255]"
  have put: "put_pixel w (of_nat x) (of_nat y) data = Some ?d"
    using I assms(4) by (simp add: put_pixel_def Let_def c)
  have "pixel_at (unat w) ?d x' y' = (if x' = x \<and> y' = y then gradient x y else pixel_at (unat w) data x' y')"
    if "x' < unat w" "y' < unat h" for x' y'
  proof -
    have "y' * unat w + x' = y * unat w + x \<longleftrightarrow> x' = x \<and> y' = y"
    proof
      assume e: "y' * unat w + x' = y * unat w + x"
      then have "(y' * unat w + x') div unat w = (y * unat w + x) div unat w" by simp
      then have "y' = y" using that(1) assms(1) by simp
      with e show "x' = x \<and> y' = y" by simp
    qed simp
    moreover have "?k + 3 < length data" using I(2) assms(4) by simp
    ultimately show ?thesis
      unfolding pixel_at_def gradient_def by (simp only: four_updates)
  qed
  with put show ?thesis by auto
qed

lemma paint_all:
  assumes "\<forall>(x, y) \<in> set ps. x < unat w \<and> y < unat (h :: u32)" and "unat w * unat h * 4 < 2 ^ 32"
    and "length data = unat w * unat h * 4"
  shows "\<exists>data'. foldl (\<lambda>data (x, y). Option.bind data (put_pixel w (of_nat x) (of_nat y))) (Some data) ps = Some data' \<and>
    length data' = length data \<and>
    (\<forall>x y. x < unat w \<longrightarrow> y < unat h \<longrightarrow>
       pixel_at (unat w) data' x y = (if (x, y) \<in> set ps then gradient x y else pixel_at (unat w) data x y))"
  using assms(1,3)
proof (induction ps arbitrary: data)
  case (Cons p ps)
  obtain x y where p: "p = (x, y)" by fastforce
  obtain d1 where d1: "put_pixel w (of_nat x) (of_nat y) data = Some d1" "length d1 = length data"
    "\<forall>x' y'. x' < unat w \<longrightarrow> y' < unat h \<longrightarrow>
       pixel_at (unat w) d1 x' y' = (if x' = x \<and> y' = y then gradient x y else pixel_at (unat w) data x' y')"
    using put_pixel_paints [of x w y h data] Cons.prems assms(2) by (auto simp: p)
  from Cons.IH [of d1] Cons.prems d1(2) obtain d2 where
    "foldl (\<lambda>data (x, y). Option.bind data (put_pixel w (of_nat x) (of_nat y))) (Some d1) ps = Some d2"
    "length d2 = length d1"
    "\<forall>x y. x < unat w \<longrightarrow> y < unat h \<longrightarrow>
       pixel_at (unat w) d2 x y = (if (x, y) \<in> set ps then gradient x y else pixel_at (unat w) d1 x y)"
    by auto
  with d1 show ?case by (intro exI [of _ d2]) (auto simp: p)
qed simp

text \<open>
  A frame of a display whose pixels fit \<open>u32\<close> arithmetic is captured without a panic, with four bytes
  per pixel and the gradient at every pixel; and it comes back from the codec.
\<close>

lemma captured_gradient:
  assumes "unat (di_width d) * unat (di_height d) * 4 < 2 ^ 32"
  shows "\<exists>f. capture_frame d = Some f \<and> cf_width f = di_width d \<and> cf_height f = di_height d \<and>
    length (cf_data f) = unat (di_width d) * unat (di_height d) * 4 \<and>
    (\<forall>x y. x < unat (di_width d) \<longrightarrow> y < unat (di_height d) \<longrightarrow>
       pixel_at (unat (di_width d)) (cf_data f) x y = gradient x y)"
proof -
  let ?w = "di_width d" and ?h = "di_height d"
  have "unat (?w * ?h * 4) = unat (of_nat (unat ?w * unat ?h * 4) :: u32)" by simp
  also have "\<dots> = unat ?w * unat ?h * 4" using assms by (intro unat_of_nat32) simp
  finally have n: "unat (?w * ?h * 4) = unat ?w * unat ?h * 4" .
  from paint_all [of "coordinates (unat ?w) (unat ?h)" ?w ?h "replicate (unat ?w * unat ?h * 4) 0"] assms
  show ?thesis by (auto simp: capture_frame_def Let_def n set_coordinates)
qed

lemma desktop_capture_roundtrip:
  assumes "\<And>b. decompress (compress b) = Some b"
  shows "\<exists>f g. capture_frame desktop_capturer_new = Some f \<and>
    raw_decode decompress (raw_encode compress f key) key' = Inr g \<and>
    df_width g = 1280 \<and> df_height g = 720 \<and> length (df_data g) = 1280 * 720 * 4"
  using captured_gradient [of desktop_capturer_new] raw_roundtrip [of decompress compress, OF assms]
  by (auto simp: desktop_capturer_new_def DEFAULT_WIDTH_def DEFAULT_HEIGHT_def)

end
