(* ===== verification/Platform.thy ===== *)
theory Platform
  imports Main
begin

text \<open>
  The platforms of \<open>crates/rdesk_common/src/platform.rs\<close>.  The function behind \<open>cfg\<close> is chosen by the
  compiler's \<open>target_os\<close>, an argument here; a target without one does not compile, the value \<open>None\<close>.
\<close>

datatype platform = Windows | MacOS | Linux | Android | IOS

fun as_str :: "platform \<Rightarrow> string" where
  "as_str Windows = ''Windows''"
| "as_str MacOS = ''macOS''"
| "as_str Linux = ''Linux''"
| "as_str Android = ''Android''"
| "as_str IOS = ''iOS''"

definition platform_display :: "platform \<Rightarrow> string" where
  "platform_display p = as_str p"

definition cfg_if_platform :: "string \<Rightarrow> platform option" where
  "cfg_if_platform target_os =
     (if target_os = ''windows'' then Some Windows
      else if target_os = ''macos'' then Some MacOS
      else if target_os = ''linux'' then Some Linux
      else if target_os = ''android'' then Some Android
      else if target_os = ''ios'' then Some IOS
      else None)"

definition current_platform :: "string \<Rightarrow> platform option" where
  "current_platform target_os = cfg_if_platform target_os"

definition platform_name :: "string \<Rightarrow> string option" where
  "platform_name target_os = map_option as_str (current_platform target_os)"

text \<open>The name determines the platform, and every platform is some target's.\<close>

lemma as_str_inject: "as_str p = as_str q \<longleftrightarrow> p = q"
  by (cases p; cases q) simp_all

lemma platform_named:
  "platform_name target = Some name \<longleftrightarrow> (\<exists>p. current_platform target = Some p \<and> name = platform_display p)"
  by (auto simp: platform_name_def platform_display_def)

lemma every_platform_has_a_target: "\<exists>target. current_platform target = Some p"
  by (cases p) (auto simp: current_platform_def cfg_if_platform_def intro: exI [of _ "''windows''"]
      exI [of _ "''macos''"] exI [of _ "''linux''"] exI [of _ "''android''"] exI [of _ "''ios''"])

end
