(* ===== verification/Identity.thy ===== *)
theory Identity
  imports Wake_Model Platform Local_Files
begin

text \<open>
  Device ids, passwords and settings of an installation (\<open>crates/rdesk_common/src/device_id.rs\<close>,
  \<open>password.rs\<close>, \<open>config.rs\<close>) and the functions of the bridge over them
  (\<open>crates/rdesk_bridge/src/api/connection.rs\<close>, \<open>device.rs\<close>, \<open>settings.rs\<close>).  Random numbers, Argon2 and
  the JSON of \<open>serde_json\<close> are parameters; each access to the file system may fail.
\<close>

section \<open>The installation's files\<close>

record app_config =
  ac_signaling_server :: string
  ac_relay_server :: string
  ac_device_id :: string
  ac_permanent_password :: "string option"

text \<open>
  The operating system: the directories for settings and data of this application, when there is a home
  directory at all, whether they exist or can be created, and which calls on files succeed.
\<close>

record os =
  os_project_dirs :: "(string \<times> string) option"
  os_dir_exists :: bool
  os_create_dir :: bool
  os_read :: bool
  os_write :: write_outcome

datatype home_error = No_directory | Create_dir_failed | Read_failed | Write_failed | Parse_failed | Hash_failed

definition CONFIG_FILE_NAME :: string where "CONFIG_FILE_NAME = ''config.json''"
definition DEVICE_ID_FILE :: string where "DEVICE_ID_FILE = ''device_id''"

definition ensure_dir :: "os \<Rightarrow> string \<Rightarrow> home_error + string" where
  "ensure_dir os dir =
     (if \<not> os_dir_exists os \<and> \<not> os_create_dir os then Inl Create_dir_failed else Inr dir)"

definition config_dir :: "os \<Rightarrow> home_error + string" where
  "config_dir os =
     (case os_project_dirs os of None \<Rightarrow> Inl No_directory | Some (dir, _) \<Rightarrow> ensure_dir os dir)"

definition config_path :: "os \<Rightarrow> home_error + string" where
  "config_path os = map_sum id (\<lambda>dir. dir @ ''/'' @ CONFIG_FILE_NAME) (config_dir os)"

definition device_id_path :: "os \<Rightarrow> home_error + string" where
  "device_id_path os =
     (case os_project_dirs os of
        None \<Rightarrow> Inl No_directory
      | Some (_, data_dir) \<Rightarrow> map_sum id (\<lambda>dir. dir @ ''/'' @ DEVICE_ID_FILE) (ensure_dir os data_dir))"

section \<open>Device ids\<close>

text \<open>\<open>n\<close> is the random number, drawn from 100000000 to 999999999.\<close>

definition generate_device_id :: "nat \<Rightarrow> string" where
  "generate_device_id n = to_decimal n"

definition validate_device_id :: "string \<Rightarrow> bool" where
  "validate_device_id i \<longleftrightarrow>
     length i = 9 \<and> (case i of [] \<Rightarrow> False | c # _ \<Rightarrow> is_ascii_digit c \<and> c \<noteq> CHR ''0'') \<and>
     (\<forall>c \<in> set i. is_ascii_digit c)"

definition load_device_id :: "os \<Rightarrow> local_files \<Rightarrow> home_error + string option" where
  "load_device_id os h =
     (case device_id_path os of
        Inl e \<Rightarrow> Inl e
      | Inr path \<Rightarrow>
          (case hget h path of
             None \<Rightarrow> Inr None
           | Some content \<Rightarrow>
               if \<not> os_read os then Inl Read_failed
               else
                 let i = trim content
                 in Inr (if validate_device_id i then Some i else None)))"

definition save_device_id :: "os \<Rightarrow> string \<Rightarrow> local_files \<Rightarrow> (home_error + unit) \<times> local_files" where
  "save_device_id os i h =
     (case device_id_path os of
        Inl e \<Rightarrow> (Inl e, h)
      | Inr path \<Rightarrow>
          (case fs_write (os_write os) path i h of
             (False, h1) \<Rightarrow> (Inl Write_failed, h1) | (True, h1) \<Rightarrow> (Inr (), h1)))"

definition get_or_create_device_id :: "os \<Rightarrow> nat \<Rightarrow> local_files \<Rightarrow> (home_error + string) \<times> local_files" where
  "get_or_create_device_id os n h =
     (case load_device_id os h of
        Inl e \<Rightarrow> (Inl e, h)
      | Inr (Some i) \<Rightarrow> (Inr i, h)
      | Inr None \<Rightarrow>
          let i = generate_device_id n in
          (case save_device_id os i h of (Inl e, h1) \<Rightarrow> (Inl e, h1) | (Inr _, h1) \<Rightarrow> (Inr i, h1)))"

section \<open>Passwords\<close>

definition TEMP_PASSWORD_CHARS :: string where
  "TEMP_PASSWORD_CHARS = ''abcdefghijklmnopqrstuvwxyzABCDEFGHIJKLMNOPQRSTUVWXYZ0123456789''"

abbreviation TEMP_PASSWORD_LEN :: nat where "TEMP_PASSWORD_LEN \<equiv> 6"

text \<open>\<open>idx\<close> are the six random indices.\<close>

definition generate_temporary_password :: "(nat \<Rightarrow> nat) \<Rightarrow> string" where
  "generate_temporary_password idx = map (\<lambda>k. TEMP_PASSWORD_CHARS ! idx k) [0..<TEMP_PASSWORD_LEN]"

definition hash_password :: "(string \<Rightarrow> string \<Rightarrow> string option) \<Rightarrow> string \<Rightarrow> string \<Rightarrow> home_error + string" where
  "hash_password argon2 salt password =
     (case argon2 salt password of None \<Rightarrow> Inl Hash_failed | Some hash \<Rightarrow> Inr hash)"

definition verify_password ::
  "(string \<Rightarrow> 'p option) \<Rightarrow> ('p \<Rightarrow> string \<Rightarrow> bool) \<Rightarrow> string \<Rightarrow> string \<Rightarrow> home_error + bool" where
  "verify_password parse verify password hash =
     (case parse hash of None \<Rightarrow> Inl Parse_failed | Some parsed \<Rightarrow> Inr (verify parsed password))"

section \<open>Settings\<close>

definition default_signaling_server :: string where "default_signaling_server = ''qisw.top:80''"
definition default_relay_server :: string where "default_relay_server = ''qisw.top:80''"

definition config_default :: app_config where
  "config_default =
     \<lparr>ac_signaling_server = default_signaling_server, ac_relay_server = default_relay_server,
      ac_device_id = '''', ac_permanent_password = None\<rparr>"

definition config_save :: "(app_config \<Rightarrow> string) \<Rightarrow> os \<Rightarrow> app_config \<Rightarrow> local_files \<Rightarrow> (home_error + unit) \<times> local_files" where
  "config_save to_json os config h =
     (case config_path os of
        Inl e \<Rightarrow> (Inl e, h)
      | Inr path \<Rightarrow>
          (case fs_write (os_write os) path (to_json config) h of
             (False, h1) \<Rightarrow> (Inl Write_failed, h1) | (True, h1) \<Rightarrow> (Inr (), h1)))"

definition config_load ::
  "(app_config \<Rightarrow> string) \<Rightarrow> (string \<Rightarrow> app_config option) \<Rightarrow> os \<Rightarrow> nat \<Rightarrow> local_files \<Rightarrow> (home_error + app_config) \<times> local_files" where
  "config_load to_json of_json os n h =
     (case config_path os of
        Inl e \<Rightarrow> (Inl e, h)
      | Inr path \<Rightarrow>
          (case hget h path of
             Some data \<Rightarrow>
               if \<not> os_read os then (Inl Read_failed, h)
               else (case of_json data of None \<Rightarrow> (Inl Parse_failed, h) | Some config \<Rightarrow> (Inr config, h))
           | None \<Rightarrow>
               let config = config_default\<lparr>ac_device_id := generate_device_id n\<rparr> in
               (case config_save to_json os config h of
                  (Inl e, h1) \<Rightarrow> (Inl e, h1) | (Inr _, h1) \<Rightarrow> (Inr config, h1))))"

text \<open>The functions of the bridge.\<close>

definition get_device_id ::
  "(app_config \<Rightarrow> string) \<Rightarrow> (string \<Rightarrow> app_config option) \<Rightarrow> os \<Rightarrow> nat \<Rightarrow> nat \<Rightarrow> local_files \<Rightarrow> string \<times> local_files" where
  "get_device_id to_json of_json os n n' h =
     (case get_or_create_device_id os n h of
        (Inr i, h1) \<Rightarrow> (i, h1)
      | (Inl _, h1) \<Rightarrow>
          (case config_load to_json of_json os n' h1 of
             (Inr c, h2) \<Rightarrow> (ac_device_id c, h2) | (Inl _, h2) \<Rightarrow> ('''', h2)))"

definition update_config ::
  "(app_config \<Rightarrow> string) \<Rightarrow> (string \<Rightarrow> app_config option) \<Rightarrow> os \<Rightarrow> nat \<Rightarrow> (app_config \<Rightarrow> home_error + app_config) \<Rightarrow>
     local_files \<Rightarrow> (home_error + unit) \<times> local_files" where
  "update_config to_json of_json os n f h =
     (case config_load to_json of_json os n h of
        (Inl e, h1) \<Rightarrow> (Inl e, h1)
      | (Inr config, h1) \<Rightarrow>
          (case f config of Inl e \<Rightarrow> (Inl e, h1) | Inr config' \<Rightarrow> config_save to_json os config' h1))"

definition set_permanent_password ::
  "(app_config \<Rightarrow> string) \<Rightarrow> (string \<Rightarrow> app_config option) \<Rightarrow> (string \<Rightarrow> string \<Rightarrow> string option) \<Rightarrow> os \<Rightarrow> nat \<Rightarrow>
     string \<Rightarrow> string \<Rightarrow> local_files \<Rightarrow> (home_error + unit) \<times> local_files" where
  "set_permanent_password to_json of_json argon2 os n salt password =
     update_config to_json of_json os n (\<lambda>config.
       if password = '''' then Inr (config\<lparr>ac_permanent_password := None\<rparr>)
       else
         (case hash_password argon2 salt password of
            Inl e \<Rightarrow> Inl e | Inr hash \<Rightarrow> Inr (config\<lparr>ac_permanent_password := Some hash\<rparr>)))"

definition save_settings ::
  "(app_config \<Rightarrow> string) \<Rightarrow> (string \<Rightarrow> app_config option) \<Rightarrow> os \<Rightarrow> nat \<Rightarrow> string \<Rightarrow> string \<Rightarrow> local_files \<Rightarrow>
     (home_error + unit) \<times> local_files" where
  "save_settings to_json of_json os n signaling_server relay_server =
     update_config to_json of_json os n (\<lambda>config.
       Inr (config\<lparr>ac_signaling_server := signaling_server, ac_relay_server := relay_server\<rparr>))"

record settings_data =
  sd_signaling_server :: string
  sd_relay_server :: string
  sd_has_permanent_password :: bool

definition load_settings ::
  "(app_config \<Rightarrow> string) \<Rightarrow> (string \<Rightarrow> app_config option) \<Rightarrow> os \<Rightarrow> nat \<Rightarrow> local_files \<Rightarrow>
     (home_error + settings_data) \<times> local_files" where
  "load_settings to_json of_json os n h =
     (case config_load to_json of_json os n h of
        (Inl e, h1) \<Rightarrow> (Inl e, h1)
      | (Inr c, h1) \<Rightarrow>
          (Inr \<lparr>sd_signaling_server = ac_signaling_server c, sd_relay_server = ac_relay_server c,
             sd_has_permanent_password = ac_permanent_password c \<noteq> None\<rparr>, h1))"

record device_info_data =
  dv_device_id :: string
  dv_platform :: string
  dv_signaling_server :: string
  dv_relay_server :: string

text \<open>\<open>target\<close> is the platform the program was compiled for.\<close>

definition get_device_info ::
  "(app_config \<Rightarrow> string) \<Rightarrow> (string \<Rightarrow> app_config option) \<Rightarrow> platform \<Rightarrow> os \<Rightarrow> nat \<Rightarrow> local_files \<Rightarrow>
     (home_error + device_info_data) \<times> local_files" where
  "get_device_info to_json of_json target os n h =
     (case config_load to_json of_json os n h of
        (Inl e, h1) \<Rightarrow> (Inl e, h1)
      | (Inr c, h1) \<Rightarrow>
          (Inr \<lparr>dv_device_id = ac_device_id c, dv_platform = as_str target,
             dv_signaling_server = ac_signaling_server c, dv_relay_server = ac_relay_server c\<rparr>, h1))"

section \<open>The two files are two\<close>

text \<open>An operating system that does what it is asked.\<close>

definition os_works :: "os \<Rightarrow> bool" where
  "os_works os \<longleftrightarrow> os_project_dirs os \<noteq> None \<and> (os_dir_exists os \<or> os_create_dir os) \<and> os_read os \<and> os_write os = Completes"

lemma os_works_paths:
  assumes "os_works os"
  obtains c d where "config_path os = Inr (c @ ''/config.json'')" "device_id_path os = Inr (d @ ''/device_id'')"
    "os_project_dirs os = Some (c, d)" "os_read os" "os_write os = Completes"
  using assms
  by (auto simp: os_works_def config_path_def config_dir_def device_id_path_def ensure_dir_def
      CONFIG_FILE_NAME_def DEVICE_ID_FILE_def)

lemma two_files: "c @ ''/config.json'' \<noteq> d @ ''/device_id''"
proof
  assume "c @ ''/config.json'' = d @ ''/device_id''"
  then have "last (c @ ''/config.json'') = last (d @ ''/device_id'')" by (rule arg_cong)
  then show False by simp
qed

lemma device_id_path_same:
  "os_works os' \<Longrightarrow> os_project_dirs os' = os_project_dirs os \<Longrightarrow> device_id_path os = Inr path \<Longrightarrow>
   device_id_path os' = Inr path"
  by (auto simp: os_works_def device_id_path_def ensure_dir_def split: option.splits if_splits)

section \<open>Ids are well formed and stay\<close>

lemma char_of_not_0: "48 < k \<Longrightarrow> k < 256 \<Longrightarrow> char_of (k :: nat) \<noteq> CHR ''0''"
proof
  assume k: "48 < k" "k < 256" and "char_of k = CHR ''0''"
  then have "of_char (char_of k) = (of_char (CHR ''0'') :: nat)" by simp
  with k show False by simp
qed

lemma to_decimal_length:
  "10 ^ k \<le> n \<Longrightarrow> n < 10 ^ Suc k \<Longrightarrow>
   length (to_decimal n) = Suc k \<and> to_decimal n \<noteq> [] \<and> (0 < n \<longrightarrow> hd (to_decimal n) \<noteq> CHR ''0'')"
proof (induction k arbitrary: n)
  case 0
  then have n: "n = 1 \<or> n = 2 \<or> n = 3 \<or> n = 4 \<or> n = 5 \<or> n = 6 \<or> n = 7 \<or> n = 8 \<or> n = 9" by auto
  then show ?case by (elim disjE) (simp_all add: to_decimal.simps char_of_not_0)
next
  case (Suc k)
  then have "10 ^ k \<le> n div 10" "n div 10 < 10 ^ Suc k" "\<not> n < 10"
    by (simp_all add: less_eq_div_iff_mult_less_eq div_less_iff_less_mult mult.commute)
       (metis Suc.prems(1) le_less_trans less_le_trans linorder_not_less nat_mult_1_right one_le_numeral one_le_power power_Suc mult_le_mono2)
  moreover from this have "0 < n div 10" by simp
  ultimately show ?case
    using Suc.IH [of "n div 10"] by (simp add: to_decimal.simps [of n])
qed

lemma generated_id_valid:
  "100000000 \<le> n \<Longrightarrow> n \<le> 999999999 \<Longrightarrow> validate_device_id (generate_device_id n)"
proof -
  assume n: "100000000 \<le> n" "n \<le> 999999999"
  then have l: "length (to_decimal n) = 9 \<and> to_decimal n \<noteq> [] \<and> hd (to_decimal n) \<noteq> CHR ''0''"
    using to_decimal_length [of 8 n] by simp
  moreover have "\<forall>c \<in> set (to_decimal n). is_ascii_digit c"
    using to_decimal_digits by blast
  ultimately show ?thesis
    by (cases "to_decimal n") (auto simp: validate_device_id_def generate_device_id_def)
qed

lemma valid_id_trim: "validate_device_id i \<Longrightarrow> trim i = i"
  by (rule trim_ascii_id)
     (auto simp: validate_device_id_def is_ascii_digit_def is_whitespace_def white_space_def)

lemma device_id_on_disk:
  assumes n: "100000000 \<le> n" "n \<le> 999999999" and g: "get_or_create_device_id os n h = (Inr i, h')"
    and p: "device_id_path os = Inr path"
  shows "validate_device_id i \<and> (\<exists>content. hget h' path = Some content \<and> trim content = i)"
  using g generated_id_valid [OF n]
  by (auto simp: p get_or_create_device_id_def load_device_id_def save_device_id_def Let_def valid_id_trim
      fs_write_True split: option.splits if_splits prod.splits bool.splits)

lemma device_id_stable:
  assumes n: "100000000 \<le> n" "n \<le> 999999999" and g: "get_or_create_device_id os n h = (Inr i, h')"
    and w: "os_works os'" "os_project_dirs os' = os_project_dirs os"
  shows "validate_device_id i \<and> get_or_create_device_id os' n' h' = (Inr i, h')"
proof -
  obtain path where p: "device_id_path os = Inr path"
    using g by (cases "device_id_path os") (auto simp: get_or_create_device_id_def load_device_id_def)
  from device_id_path_same [OF w p] have p': "device_id_path os' = Inr path" .
  from w(1) have "os_read os'" by (simp add: os_works_def)
  with device_id_on_disk [OF n g p] p' show ?thesis
    by (auto simp: get_or_create_device_id_def load_device_id_def)
qed

lemma temporary_password_shape:
  assumes "\<And>k. k < 6 \<Longrightarrow> idx k < 62"
  shows "length (generate_temporary_password idx) = 6 \<and>
    set (generate_temporary_password idx) \<subseteq> set TEMP_PASSWORD_CHARS"
proof -
  have "length TEMP_PASSWORD_CHARS = 62" by (simp add: TEMP_PASSWORD_CHARS_def)
  then show ?thesis using assms by (auto simp: generate_temporary_password_def)
qed

text \<open>Settings and passwords are changed independently and survive a reload.\<close>

lemma settings_kept:
  assumes J: "\<And>c. of_json (to_json c) = Some c" and w: "os_works os"
    and h: "config_path os = Inr path" "hget h path = Some (to_json c)"
  shows "save_settings to_json of_json os n sig rel h =
      (Inr (), hput path (to_json (c\<lparr>ac_signaling_server := sig, ac_relay_server := rel\<rparr>)) h)"
    and "argon2 salt pw = Some hash \<Longrightarrow> pw \<noteq> '''' \<Longrightarrow>
      set_permanent_password to_json of_json argon2 os n salt pw h =
      (Inr (), hput path (to_json (c\<lparr>ac_permanent_password := Some hash\<rparr>)) h)"
  using assms
  by (simp_all add: save_settings_def set_permanent_password_def update_config_def config_load_def
      config_save_def hash_password_def os_works_def)

text \<open>
  The settings are written in place: a write that stops in the middle leaves a file that no longer parses,
  and every function that loads the settings fails from then on.
\<close>

lemma torn_settings:
  assumes p: "config_path os = Inr path" "config_path os' = Inr path" "os_read os'"
    and w: "os_write os = Stops_after n" "of_json (take n (to_json c)) = None"
  shows "config_save to_json os c h = (Inl Write_failed, h') \<Longrightarrow>
    config_load to_json of_json os' m h' = (Inl Parse_failed, h') \<and>
    save_settings to_json of_json os' m sig rel h' = (Inl Parse_failed, h')"
  by (auto simp: p w config_save_def fs_write_def config_load_def save_settings_def update_config_def)

text \<open>
  A fresh installation has two identities: the id the device registers under and the one in its
  settings are drawn separately and need not agree, now or later.
\<close>

lemma two_identities:
  assumes J: "\<And>c. of_json (to_json c) = Some c" and w: "os_works os"
  shows "case get_device_id to_json of_json os n k hempty of
      (i, h1) \<Rightarrow> i = to_decimal n \<and>
        (\<exists>h2 info. get_device_info to_json of_json target os m h1 = (Inr info, h2) \<and>
           dv_device_id info = to_decimal m)"
proof -
  obtain c d where p: "config_path os = Inr (c @ ''/config.json'')" "device_id_path os = Inr (d @ ''/device_id'')"
    and rw: "os_read os" "os_write os = Completes"
    by (rule os_works_paths [OF w])
  show ?thesis
    using two_files [of c d]
    by (simp add: p rw get_device_id_def get_or_create_device_id_def load_device_id_def save_device_id_def
        get_device_info_def config_load_def config_save_def generate_device_id_def Let_def)
qed

end
