(* ===== verification/Endpoints.thy ===== *)
theory Endpoints
  imports Framing Identity
begin

text \<open>
  The endpoints of \<open>crates/rdesk_net\<close>: the QUIC client and server (\<open>quic/client.rs\<close>, \<open>quic/server.rs\<close>) and
  the placeholders of the relay and rendezvous clients (\<open>relay/client.rs\<close>, \<open>rendezvous/client.rs\<close>).  What the
  crates \<open>rcgen\<close>, \<open>rustls\<close> and \<open>quinn\<close> do is an argument, a record of functions that may fail; an error is
  the context the code attaches to it.
\<close>

section \<open>Configurations\<close>

definition IDLE_TIMEOUT_MS :: u32 where "IDLE_TIMEOUT_MS = 30000"
definition KEEP_ALIVE_INTERVAL :: ms where "KEEP_ALIVE_INTERVAL = 10 * 1000"

text \<open>\<open>SkipServerVerification\<close> is the verifier the client installs.\<close>

datatype server_verifier = SkipServerVerification

definition verify_server_cert ::
  "server_verifier \<Rightarrow> 'cert \<Rightarrow> 'cert list \<Rightarrow> string \<Rightarrow> bytes \<Rightarrow> ms \<Rightarrow> string + unit" where
  "verify_server_cert v end_entity intermediates server_name ocsp_response now = Inr ()"

definition verify_tls12_signature :: "server_verifier \<Rightarrow> bytes \<Rightarrow> 'cert \<Rightarrow> 'sig \<Rightarrow> string + unit" where
  "verify_tls12_signature v message cert dss = Inr ()"

definition verify_tls13_signature :: "server_verifier \<Rightarrow> bytes \<Rightarrow> 'cert \<Rightarrow> 'sig \<Rightarrow> string + unit" where
  "verify_tls13_signature v message cert dss = Inr ()"

datatype signature_scheme =
  RSA_PKCS1_SHA256 | RSA_PKCS1_SHA384 | RSA_PKCS1_SHA512
| ECDSA_NISTP256_SHA256 | ECDSA_NISTP384_SHA384 | ECDSA_NISTP521_SHA512
| RSA_PSS_SHA256 | RSA_PSS_SHA384 | RSA_PSS_SHA512 | ED25519 | ED448

definition supported_verify_schemes :: "server_verifier \<Rightarrow> signature_scheme list" where
  "supported_verify_schemes v =
     [RSA_PKCS1_SHA256, RSA_PKCS1_SHA384, RSA_PKCS1_SHA512,
      ECDSA_NISTP256_SHA256, ECDSA_NISTP384_SHA384, ECDSA_NISTP521_SHA512,
      RSA_PSS_SHA256, RSA_PSS_SHA384, RSA_PSS_SHA512, ED25519, ED448]"

record ('cert, 'key) client_tls =
  ct_verifier :: server_verifier
  ct_auth_cert :: "'cert list \<times> 'key"
  ct_alpn_protocols :: "bytes list"

record ('cert, 'key) server_tls =
  st_client_auth :: bool
  st_single_cert :: "'cert list \<times> 'key"
  st_alpn_protocols :: "bytes list"

record 'idle transport_config =
  tc_max_idle_timeout :: "'idle option"
  tc_keep_alive_interval :: "ms option"

text \<open>The crates: each step gives its value or fails.\<close>

record ('cert, 'key, 'idle, 'addr, 'sock) quic_library =
  ql_self_signed :: "string list \<Rightarrow> ('cert \<times> 'key) option"
  ql_protocol_versions :: "unit option"
  ql_use_cert :: "'cert list \<Rightarrow> 'key \<Rightarrow> unit option"
  ql_client_config :: "('cert, 'key) client_tls \<Rightarrow> unit option"
  ql_server_config :: "('cert, 'key) server_tls \<Rightarrow> unit option"
  ql_idle_timeout :: "ms \<Rightarrow> 'idle option"
  ql_any_addr :: 'addr
  ql_client_socket :: "'addr \<Rightarrow> 'sock option"
  ql_server_socket :: "'addr \<Rightarrow> 'sock option"

text \<open>A fallible step with its context.\<close>

definition with_context :: "string \<Rightarrow> 'a option \<Rightarrow> ('a \<Rightarrow> string + 'b) \<Rightarrow> string + 'b" where
  "with_context msg r k = (case r of None \<Rightarrow> Inl msg | Some v \<Rightarrow> k v)"

section \<open>The client\<close>

record ('cert, 'key, 'idle, 'sock) quic_client =
  qc_endpoint :: 'sock
  qc_crypto :: "('cert, 'key) client_tls"
  qc_transport :: "'idle transport_config"

definition quic_client_new ::
  "('cert, 'key, 'idle, 'addr, 'sock) quic_library \<Rightarrow> string + ('cert, 'key, 'idle, 'sock) quic_client" where
  "quic_client_new lib =
     with_context ''failed to generate self-signed certificate'' (ql_self_signed lib [''rdesk-client'']) (\<lambda>(cert_der, key_der).
     with_context ''failed to set protocol versions'' (ql_protocol_versions lib) (\<lambda>_.
     with_context ''failed to set client auth certificate'' (ql_use_cert lib [cert_der] key_der) (\<lambda>_.
     let rustls_config = \<lparr>ct_verifier = SkipServerVerification, ct_auth_cert = ([cert_der], key_der),
           ct_alpn_protocols = [str_bytes ''rdesk'']\<rparr> in
     with_context ''failed to create QuicClientConfig'' (ql_client_config lib rustls_config) (\<lambda>_.
     with_context ''invalid idle timeout'' (ql_idle_timeout lib (unat IDLE_TIMEOUT_MS)) (\<lambda>idle.
     let transport = \<lparr>tc_max_idle_timeout = Some idle, tc_keep_alive_interval = Some KEEP_ALIVE_INTERVAL\<rparr> in
     with_context ''failed to create QUIC client endpoint'' (ql_client_socket lib (ql_any_addr lib)) (\<lambda>endpoint.
     Inr \<lparr>qc_endpoint = endpoint, qc_crypto = rustls_config, qc_transport = transport\<rparr>))))))"

text \<open>\<open>initiate\<close> is the endpoint's \<open>connect\<close>, \<open>handshake\<close> the outcome of awaiting it.\<close>

definition quic_connect ::
  "('sock \<Rightarrow> 'addr \<Rightarrow> string \<Rightarrow> 'connecting option) \<Rightarrow> ('connecting \<Rightarrow> 'conn option) \<Rightarrow> 'addr \<Rightarrow>
     ('cert, 'key, 'idle, 'sock) quic_client \<Rightarrow> string + 'conn" where
  "quic_connect initiate handshake addr c =
     with_context ''failed to initiate QUIC connection'' (initiate (qc_endpoint c) addr ''rdesk'') (\<lambda>connecting.
     with_context ''QUIC handshake failed'' (handshake connecting) Inr)"

section \<open>The server\<close>

record ('cert, 'key, 'idle, 'sock) quic_server =
  qs_endpoint :: 'sock
  qs_crypto :: "('cert, 'key) server_tls"
  qs_transport :: "'idle transport_config"

definition quic_server_new ::
  "('cert, 'key, 'idle, 'addr, 'sock) quic_library \<Rightarrow> 'addr \<Rightarrow> string + ('cert, 'key, 'idle, 'sock) quic_server" where
  "quic_server_new lib bind_addr =
     with_context ''failed to generate self-signed certificate'' (ql_self_signed lib [''rdesk-server'']) (\<lambda>(cert_der, key_der).
     with_context ''failed to set protocol versions'' (ql_protocol_versions lib) (\<lambda>_.
     with_context ''failed to set server certificate'' (ql_use_cert lib [cert_der] key_der) (\<lambda>_.
     let rustls_config = \<lparr>st_client_auth = False, st_single_cert = ([cert_der], key_der),
           st_alpn_protocols = [str_bytes ''rdesk'']\<rparr> in
     with_context ''failed to create QuicServerConfig'' (ql_server_config lib rustls_config) (\<lambda>_.
     with_context ''invalid idle timeout'' (ql_idle_timeout lib (unat IDLE_TIMEOUT_MS)) (\<lambda>idle.
     let transport = \<lparr>tc_max_idle_timeout = Some idle, tc_keep_alive_interval = Some KEEP_ALIVE_INTERVAL\<rparr> in
     with_context ''failed to create QUIC server endpoint'' (ql_server_socket lib bind_addr) (\<lambda>endpoint.
     Inr \<lparr>qs_endpoint = endpoint, qs_crypto = rustls_config, qs_transport = transport\<rparr>))))))"

text \<open>\<open>incoming\<close> is what the endpoint hands out next, \<open>None\<close> when it is closed.\<close>

definition quic_accept ::
  "('sock \<Rightarrow> 'incoming option) \<Rightarrow> ('incoming \<Rightarrow> 'conn option) \<Rightarrow>
     ('cert, 'key, 'idle, 'sock) quic_server \<Rightarrow> string + 'conn" where
  "quic_accept incoming handshake srv =
     with_context ''QUIC endpoint closed'' (incoming (qs_endpoint srv)) (\<lambda>i.
     with_context ''failed to accept QUIC connection'' (handshake i) Inr)"

definition local_addr ::
  "('sock \<Rightarrow> 'addr option) \<Rightarrow> ('cert, 'key, 'idle, 'sock) quic_server \<Rightarrow> string + 'addr" where
  "local_addr addr_of srv = with_context ''failed to get local address'' (addr_of (qs_endpoint srv)) Inr"

section \<open>The placeholders\<close>

record relay_client =
  rk_server_addr :: string

definition relay_connect :: "string \<Rightarrow> string + relay_client" where
  "relay_connect server_addr = Inr \<lparr>rk_server_addr = server_addr\<rparr>"

record rendezvous_client =
  rz_server_addr :: string

record fetch_peer_response =
  fp_found :: bool
  fp_pk :: bytes
  fp_nat_type :: "32 word"
  fp_online :: bool

record punch_hole_response =
  ph_socket_addr :: bytes
  ph_nat_type :: "32 word"
  ph_pk :: bytes
  ph_failure :: "32 word"

record register_peer_response =
  rg_success :: bool
  rg_error :: string

definition rendezvous_new :: "string \<Rightarrow> string + rendezvous_client" where
  "rendezvous_new server_addr = Inr \<lparr>rz_server_addr = server_addr\<rparr>"

definition fetch_peer :: "string \<Rightarrow> rendezvous_client \<Rightarrow> string + fetch_peer_response" where
  "fetch_peer device_id c =
     (let found = validate_device_id device_id
      in Inr \<lparr>fp_found = found, fp_pk = [], fp_nat_type = 0, fp_online = found\<rparr>)"

definition rendezvous_punch_hole :: "string \<Rightarrow> string \<Rightarrow> rendezvous_client \<Rightarrow> string + punch_hole_response" where
  "rendezvous_punch_hole device_id token c =
     Inr \<lparr>ph_socket_addr = [], ph_nat_type = 0, ph_pk = [], ph_failure = 0\<rparr>"

definition register_peer :: "string \<Rightarrow> rendezvous_client \<Rightarrow> string + register_peer_response" where
  "register_peer device_id c = Inr \<lparr>rg_success = True, rg_error = ''''\<rparr>"

section \<open>What the two ends agree on\<close>

lemma with_context_Inr: "with_context msg r k = Inr v \<longleftrightarrow> (\<exists>a. r = Some a \<and> k a = Inr v)"
  by (simp add: with_context_def split: option.split)

lemma quic_client_created:
  "quic_client_new lib = Inr c \<longleftrightarrow>
   (\<exists>cert key idle sock tls. ql_self_signed lib [''rdesk-client''] = Some (cert, key) \<and>
      ql_protocol_versions lib = Some () \<and> ql_use_cert lib [cert] key = Some () \<and>
      tls = \<lparr>ct_verifier = SkipServerVerification, ct_auth_cert = ([cert], key),
        ct_alpn_protocols = [str_bytes ''rdesk'']\<rparr> \<and>
      ql_client_config lib tls = Some () \<and> ql_idle_timeout lib 30000 = Some idle \<and>
      ql_client_socket lib (ql_any_addr lib) = Some sock \<and>
      c = \<lparr>qc_endpoint = sock, qc_crypto = tls, qc_transport =
        \<lparr>tc_max_idle_timeout = Some idle, tc_keep_alive_interval = Some KEEP_ALIVE_INTERVAL\<rparr>\<rparr>)"
  by (auto simp: quic_client_new_def with_context_Inr Let_def IDLE_TIMEOUT_MS_def)

lemma quic_server_created:
  "quic_server_new lib addr = Inr s \<longleftrightarrow>
   (\<exists>cert key idle sock tls. ql_self_signed lib [''rdesk-server''] = Some (cert, key) \<and>
      ql_protocol_versions lib = Some () \<and> ql_use_cert lib [cert] key = Some () \<and>
      tls = \<lparr>st_client_auth = False, st_single_cert = ([cert], key),
        st_alpn_protocols = [str_bytes ''rdesk'']\<rparr> \<and>
      ql_server_config lib tls = Some () \<and> ql_idle_timeout lib 30000 = Some idle \<and>
      ql_server_socket lib addr = Some sock \<and>
      s = \<lparr>qs_endpoint = sock, qs_crypto = tls, qs_transport =
        \<lparr>tc_max_idle_timeout = Some idle, tc_keep_alive_interval = Some KEEP_ALIVE_INTERVAL\<rparr>\<rparr>)"
  by (auto simp: quic_server_new_def with_context_Inr Let_def IDLE_TIMEOUT_MS_def)

text \<open>
  A client and a server that came up speak the same application protocol with the same limits, and keep
  an idle connection alive: the interval is below the time-out.  Neither end learns from TLS who the other
  is: the server asks for no certificate, and the client takes any certificate under any name.  Who the
  peer is, is left to the Noise handshake.
\<close>

lemma endpoints_agree:
  assumes c: "quic_client_new lib = Inr c" and s: "quic_server_new lib addr = Inr srv"
  shows "ct_alpn_protocols (qc_crypto c) = st_alpn_protocols (qs_crypto srv)"
    and "qc_transport c = qs_transport srv"
    and "KEEP_ALIVE_INTERVAL < unat IDLE_TIMEOUT_MS"
    and "\<not> st_client_auth (qs_crypto srv)"
    and "verify_server_cert (ct_verifier (qc_crypto c)) cert chain name ocsp now = Inr ()"
  using c s by (auto simp: quic_client_created quic_server_created verify_server_cert_def
      KEEP_ALIVE_INTERVAL_def IDLE_TIMEOUT_MS_def)

lemma no_scheme_missing: "set (supported_verify_schemes v) = UNIV" "distinct (supported_verify_schemes v)"
proof -
  have "s \<in> set (supported_verify_schemes v)" for s
    by (cases s) (simp_all add: supported_verify_schemes_def)
  then show "set (supported_verify_schemes v) = UNIV" by blast
  show "distinct (supported_verify_schemes v)" by (simp add: supported_verify_schemes_def)
qed

text \<open>
  The placeholder of the rendezvous client: every id of the right form is found and online, and hole
  punching never comes with an address to punch to.
\<close>

lemma every_generated_id_is_online:
  "100000000 \<le> n \<Longrightarrow> n \<le> 999999999 \<Longrightarrow>
   \<exists>r. fetch_peer (generate_device_id n) c = Inr r \<and> fp_found r \<and> fp_online r"
  using generated_id_valid [of n] by (simp add: fetch_peer_def Let_def)

end
