(* ===== verification/Relay_Footprint.thy ===== *)
theory Relay_Footprint
  imports Capture_Audience Account_Props File_Props Pairing_Props Preview_Props Websocket_Props
begin

text \<open>
  What each handler of the relay leaves alone.  The shared state falls into six parts, each the concern
  of one component; the footprint of a handler is the set of parts it may change.  The composition of
  the components in \<open>Relay_System\<close> rests on these lemmas.
\<close>

section \<open>The parts of the shared state\<close>

datatype relay_part = P_screen | P_commands | P_files | P_viewers | P_accounts | P_pairings

text \<open>Sessions of viewers are only touched, or removed; none is new or bound to another device.\<close>

definition viewers_kept :: "app_state \<Rightarrow> app_state \<Rightarrow> bool" where
  "viewers_kept s s' \<longleftrightarrow>
     (\<forall>t v'. hget (viewer_sessions s') t = Some v' \<longrightarrow>
        (\<exists>v. hget (viewer_sessions s) t = Some v \<and> vs_device_id v' = vs_device_id v))"

fun part_same :: "relay_part \<Rightarrow> app_state \<Rightarrow> app_state \<Rightarrow> bool" where
  "part_same P_screen s s' \<longleftrightarrow>
     frames s' = frames s \<and> screen_demands s' = screen_demands s \<and> previews s' = previews s"
| "part_same P_commands s s' \<longleftrightarrow> same_commands s s'"
| "part_same P_files s s' \<longleftrightarrow> file_bytes s' = file_bytes s \<and> file_store s' = file_store s"
| "part_same P_viewers s s' \<longleftrightarrow> viewers_kept s s'"
| "part_same P_accounts s s' \<longleftrightarrow>
     users s' = users s \<and> username_index s' = username_index s \<and> files s' = files s \<and>
     user_store_path s' = user_store_path s"
| "part_same P_pairings s s' \<longleftrightarrow> pairings s' = pairings s"

definition touches :: "relay_part set \<Rightarrow> app_state \<Rightarrow> app_state \<Rightarrow> bool" where
  "touches A s s' \<longleftrightarrow> (\<forall>p. p \<notin> A \<longrightarrow> part_same p s s')"

lemma all_parts:
  "(\<forall>p. Q p) \<longleftrightarrow> Q P_screen \<and> Q P_commands \<and> Q P_files \<and> Q P_viewers \<and> Q P_accounts \<and> Q P_pairings"
  by (metis relay_part.exhaust)

lemma viewers_kept_refl [simp]: "viewers_kept s s"
  by (simp add: viewers_kept_def)

lemma viewers_kept_same: "viewer_sessions s' = viewer_sessions s \<Longrightarrow> viewers_kept s s'"
  by (simp add: viewers_kept_def)

lemma viewers_kept_trans: "viewers_kept s s' \<Longrightarrow> viewers_kept s' s'' \<Longrightarrow> viewers_kept s s''"
  unfolding viewers_kept_def by metis

lemma part_same_refl [simp]: "part_same p s s"
  by (cases p) (simp_all add: same_commands_def)

lemma part_same_trans: "part_same p s s' \<Longrightarrow> part_same p s' s'' \<Longrightarrow> part_same p s s''"
  by (cases p) (auto simp: same_commands_def intro: viewers_kept_trans)

lemma touches_refl [simp]: "touches A s s"
  by (simp add: touches_def)

lemma touches_trans: "touches A s s' \<Longrightarrow> touches A s' s'' \<Longrightarrow> touches A s s''"
  unfolding touches_def by (blast intro: part_same_trans)

lemma touches_mono: "touches A s s' \<Longrightarrow> A \<subseteq> B \<Longrightarrow> touches B s s'"
  unfolding touches_def by blast

lemma touchesD:
  assumes "touches A s s'"
  shows "P_screen \<notin> A \<Longrightarrow> frames s' = frames s" "P_screen \<notin> A \<Longrightarrow> screen_demands s' = screen_demands s"
    and "P_screen \<notin> A \<Longrightarrow> previews s' = previews s"
    and "P_commands \<notin> A \<Longrightarrow> same_commands s s'"
    and "P_files \<notin> A \<Longrightarrow> file_bytes s' = file_bytes s" "P_files \<notin> A \<Longrightarrow> file_store s' = file_store s"
    and "P_viewers \<notin> A \<Longrightarrow> viewers_kept s s'"
    and "P_accounts \<notin> A \<Longrightarrow> users s' = users s" "P_accounts \<notin> A \<Longrightarrow> username_index s' = username_index s"
    and "P_accounts \<notin> A \<Longrightarrow> files s' = files s" "P_accounts \<notin> A \<Longrightarrow> user_store_path s' = user_store_path s"
    and "P_pairings \<notin> A \<Longrightarrow> pairings s' = pairings s"
  using assms part_same.simps unfolding touches_def by blast+

lemma viewers_kept_touched [simp]:
  "viewers_kept s (s'\<lparr>viewer_sessions := viewers_touched now d tok s\<rparr>)"
  by (auto simp: viewers_kept_def hget_viewers_touched split: option.splits if_splits)

text \<open>The updates a handler is made of.\<close>

named_theorems footprint \<open>what a handler or one of its updates may change\<close>

lemma touches_upd [footprint, simp]:
  "touches A s (s\<lparr>auth_sessions := a\<rparr>)" "touches A s (s\<lparr>account_presence := p\<rparr>)"
  "touches A s (s\<lparr>frame_broadcasters := b\<rparr>)" "touches A s (s\<lparr>ws_host_cmd_tx := w\<rparr>)"
  "touches A s (s\<lparr>viewer_sessions := viewers_touched now d tok s\<rparr>)"
  "touches A s (map_agents f s)" "touches A s (map_targets f s)"
  by (simp_all add: touches_def all_parts same_commands_def viewers_kept_same map_agents_def map_targets_def
      del: all_simps)

section \<open>Screens, registrations, sockets\<close>

lemma touches_renew [footprint]: "touches {P_screen} s (snd (renew_screen_lease now d tok key s))"
  by (auto simp: touches_def all_parts same_commands_def renew_eq viewers_kept_def hget_viewers_touched
      split: option.splits if_splits)

lemma touches_fetch [footprint]: "touches {P_screen} s (snd (fetch_frame now d tok s))"
proof (cases "viewer_ok now d tok s")
  case True
  then have "snd (fetch_frame now d tok s) = snd (renew_screen_lease now d tok tok s)"
    by (auto simp: fetch_frame_eq Let_def split: option.split)
  then show ?thesis by (simp add: touches_renew)
qed (simp add: fetch_frame_eq)

lemma touches_release [footprint]: "touches {P_screen} s (release_screen_lease now d key s)"
  by (auto simp: touches_def all_parts same_commands_def release_eq Let_def viewers_kept_same split: option.split)

lemma touches_demand [footprint]: "touches {P_screen} s (snd (host_screen_demand now d ht s))"
  by (auto simp: touches_def all_parts same_commands_def host_screen_demand_state Let_def viewers_kept_same)

lemma touches_stop [footprint]: "touches {P_screen} s (snd (stop_viewer_screen now d tok s))"
  by (auto simp: touches_def all_parts same_commands_def stop_eq Let_def viewers_kept_def hget_viewers_touched
      split: option.splits if_splits)

lemma touches_close [footprint]: "touches {P_screen} s (snd (close_viewer_session now d tok s))"
  by (auto simp: touches_def all_parts same_commands_def close_eq Let_def viewers_kept_def hget_viewers_touched
      split: option.splits if_splits)

lemma touches_disconnect_for [footprint]: "touches {P_screen} s (disconnect_viewers_for_device d s)"
  by (auto simp: touches_def all_parts same_commands_def disconnect_viewers_for_device_def Let_def put_demand_def
      viewers_kept_def split: option.splits if_splits)

lemma touches_disconnect [footprint]: "touches {P_screen} s (snd (disconnect_viewers now d ht s))"
  by (simp add: disconnect_viewers_def touches_disconnect_for)

lemma touches_remove_preview [footprint]: "touches {P_screen, P_commands} s (remove_preview_state d s)"
proof -
  have "touches {P_screen, P_commands} s (disconnect_viewers_for_device d s)"
    by (rule touches_mono [OF touches_disconnect_for]) simp
  then show ?thesis
    by (rule touches_trans) (simp add: remove_preview_state_def Let_def touches_def all_parts viewers_kept_same)
qed

lemma touches_unregister [footprint]: "touches {P_screen, P_commands} s (snd (unregister_preview now d ht s))"
  by (simp add: unregister_preview_def touches_remove_preview)

lemma touches_register [footprint]: "touches {P_screen} s (snd (register_preview now tok q s))"
  by (auto simp: touches_def all_parts same_commands_def register_preview_def check_eqs Let_def viewers_kept_same
      split: option.split)

lemma broadcast_frame_more [simp]:
  "command_queues (broadcast_frame d f s) = command_queues s"
  "command_waiters (broadcast_frame d f s) = command_waiters s" "oneshots (broadcast_frame d f s) = oneshots s"
  "file_bytes (broadcast_frame d f s) = file_bytes s" "file_store (broadcast_frame d f s) = file_store s"
  "viewer_sessions (broadcast_frame d f s) = viewer_sessions s" "users (broadcast_frame d f s) = users s"
  "username_index (broadcast_frame d f s) = username_index s" "files (broadcast_frame d f s) = files s"
  "user_store_path (broadcast_frame d f s) = user_store_path s" "wake_rt (broadcast_frame d f s) = wake_rt s"
  by (simp_all add: broadcast_frame_def split: option.split)

lemma touches_upload_frame [footprint]: "touches {P_screen} s (snd (upload_frame now q body s))"
  by (auto simp: touches_def all_parts same_commands_def upload_frame_def Let_def prune_eq put_demand_def
      viewers_kept_same)

lemma touches_same_account [footprint]: "touches {} s (snd (same_account now q reg s))"
  by (auto simp: same_account_def check_eqs split: option.split)

lemma touches_queue [footprint]: "touches {P_commands} s (queue_command now d cid kind payload s)"
  by (simp add: touches_def all_parts queue_command_def viewers_kept_same)

lemma touches_send_result [footprint]: "touches {P_commands} s (send_result cid r s)"
  by (simp add: touches_def all_parts send_result_def viewers_kept_same)

lemma touches_broadcaster [footprint]: "touches {} s (snd (get_or_create_broadcaster d s))"
  by (simp add: get_or_create_broadcaster_def Let_def)

lemma touches_host_open [footprint]: "touches {} s (ws_host_open d s)"
  using touches_broadcaster [of s d]
  by (simp add: ws_host_open_def Let_def case_prod_beta) (rule touches_trans, assumption, simp)

lemma touches_host_close [footprint]: "touches {} s (ws_host_close d s)"
  by (simp add: ws_host_close_def)

lemma touches_viewer_handler [footprint]: "touches {} s (snd (ws_viewer_handler now d tok s))"
  by (simp add: ws_viewer_handler_def validate_viewer_eq)

lemma touches_host_message [footprint]:
  "touches {P_screen, P_commands} s (snd (ws_host_message pr now d msg s))"
  by (auto simp: touches_def all_parts ws_host_message_def send_result_def Let_def viewers_kept_same
      split: ws_message.split option.split)

lemma touches_viewer_open [footprint]: "touches {P_screen} s (snd (ws_viewer_open now d tok key s))"
proof -
  obtain ok s1 where r: "renew_screen_lease now d tok key s = (ok, s1)" by fastforce
  have "touches {P_screen} s s1" using touches_renew [of s now d tok key] by (simp add: r)
  moreover have "touches {P_screen} s1 (snd (get_or_create_broadcaster d s1))"
    by (rule touches_mono [OF touches_broadcaster]) simp
  ultimately show ?thesis
    by (auto simp: ws_viewer_open_def r intro: touches_trans)
qed

section \<open>Commands and files\<close>

lemma touches_forward_start [footprint]:
  "touches {P_commands} s (snd (forward_start now d tok kind cid payload s))"
  by (auto simp: touches_def all_parts forward_start_def check_eqs queue_command_def viewers_kept_def hget_viewers_touched
      split: option.splits if_splits)

lemma touches_forward_finish [footprint]: "touches {P_commands} s (snd (forward_finish cid to s))"
  by (auto simp: touches_def all_parts forward_finish_def viewers_kept_same split: option.split)

lemma touches_expire [footprint]: "touches {P_commands} s (expire_stale_device_commands now d s)"
proof -
  have "touches {P_commands} s (snd (expire_loop now q s))" for q
  proof (induction q arbitrary: s)
    case (Cons c q)
    show ?case
      using touches_trans [OF touches_send_result Cons.IH] by simp
  qed simp
  moreover have "touches {P_commands} s' (s'\<lparr>command_queues := q\<rparr>)" for s' q
    by (simp add: touches_def all_parts viewers_kept_same)
  ultimately show ?thesis
    by (auto simp: expire_stale_device_commands_def case_prod_beta Let_def intro: touches_trans split: option.split)
qed

lemma touches_poll [footprint]: "touches {P_commands} s (snd (poll_turn now d s))"
proof -
  have "touches {P_commands} s' (s'\<lparr>command_queues := q\<rparr>)" for s' q
    by (simp add: touches_def all_parts viewers_kept_same)
  then show ?thesis
    using touches_expire [of s now d]
    by (auto simp: poll_turn_def Let_def intro: touches_trans split: option.split list.split)
qed

lemma touches_complete [footprint]: "touches {P_commands} s (snd (complete_host_command now d ht cid ok text s))"
  by (simp add: complete_host_command_def touches_send_result)

lemma touches_send_command [footprint]: "touches {P_commands} s (snd (send_command now d tok cid c s))"
  by (simp add: send_command_def touches_forward_start)

lemma touches_file_list [footprint]: "touches {P_commands} s (snd (file_list_start now d tok path cid s))"
proof -
  have "touches {P_commands} s (s\<lparr>viewer_sessions := viewers_touched now d tok s\<rparr>)" by simp
  from touches_trans [OF this touches_forward_start] show ?thesis
    by (simp add: file_list_start_def validate_viewer_eq)
qed

lemma touches_resolve [footprint]:
  "touches {P_screen, P_commands, P_viewers} s (snd (resolve_preview now d headers vt cid q s))"
proof -
  let ?A = "{P_screen, P_commands, P_viewers}"
  have rp: "touches ?A s (remove_preview_state d s)"
    by (rule touches_mono [OF touches_remove_preview]) auto
  have sa: "touches ?A s (snd (same_account now q reg s))" for reg
    by (rule touches_mono [OF touches_same_account]) simp
  have gr: "touches ?A t (snd (grant_viewer now headers d vt reg t))" for reg t
    by (simp add: touches_def all_parts grant_viewer_def same_commands_def)
  have qu: "touches ?A t (queue_command now d cid k p t)" for k p t
    by (rule touches_mono [OF touches_queue]) simp
  show ?thesis
    by (auto simp: resolve_preview_def Let_def case_prod_beta rp sa intro: touches_trans [OF sa gr] touches_trans [OF sa qu]
        split: option.split bool.split)
qed

lemma touches_resolve_finish [footprint]:
  "touches {P_commands, P_viewers} s (snd (resolve_preview_finish now d headers vt cid ht reg to s))"
proof -
  let ?A = "{P_commands, P_viewers}"
  have ff: "touches ?A s (snd (forward_finish cid to s))"
    by (rule touches_mono [OF touches_forward_finish]) simp
  have gr: "touches ?A t (snd (grant_viewer now headers d vt reg t))" for t
    by (simp add: touches_def all_parts grant_viewer_def same_commands_def)
  show ?thesis
    by (auto simp: resolve_preview_finish_def Let_def case_prod_beta ff intro: touches_trans [OF ff gr] split: option.split)
qed

lemma touches_viewer_text [footprint]: "touches {P_commands} s (snd (ws_viewer_text pj now d tok cid m s))"
proof -
  let ?s1 = "s\<lparr>viewer_sessions := viewers_touched now d tok s\<rparr>"
  have 1: "touches {P_commands} s ?s1" by simp
  have 2: "touches {P_commands} s (?s1\<lparr>ws_host_cmd_tx := w\<rparr>)" for w
    by (rule touches_trans [OF 1]) simp
  have 3: "touches {P_commands} s (snd (forward_start now d tok k cid p ?s1))" for k p
    by (rule touches_trans [OF 1 touches_forward_start])
  show ?thesis
    using 1 2 3 by (auto simp: ws_viewer_text_def validate_viewer_eq Let_def case_prod_beta split: option.split sum.split)
qed

lemma touches_viewer_turn [footprint]:
  "touches {P_screen, P_commands} s (snd (snd (ws_viewer_turn pj now d tok key cid e loop s)))"
proof -
  have tx: "touches {P_screen, P_commands} s (snd (ws_viewer_text pj now d tok cid m s))" for m
    by (rule touches_mono [OF touches_viewer_text]) simp
  have fin: "touches {P_screen, P_commands} s (snd (forward_finish c to s))" for c to
    by (rule touches_mono [OF touches_forward_finish]) simp
  have re: "touches {P_screen, P_commands} s (snd (renew_screen_lease now d tok key s))"
    by (rule touches_mono [OF touches_renew]) simp
  show ?thesis
    using tx fin re
    by (auto simp: ws_viewer_turn_def case_prod_beta Let_def
        split: viewer_loop.split viewer_event.split option.split ws_message.split)
qed

lemma touches_admit [footprint]: "touches {P_files} s (snd (admit_file now q h s))"
  by (auto simp: touches_def all_parts same_commands_def admit_file_def validate_viewer_eq try_reserve_def Let_def
      viewers_kept_def hget_viewers_touched split: option.splits if_splits)

lemma touches_drop_reservation [footprint]: "touches {P_files} s (drop_reservation sz s)"
  by (simp add: touches_def all_parts same_commands_def drop_reservation_def viewers_kept_same)

lemma touches_file_end [footprint]: "touches {P_files} s (relay_file_end fid sz s)"
  by (simp add: touches_def all_parts same_commands_def relay_file_end_def drop_held_def drop_reservation_def viewers_kept_same)

lemma touches_file_start [footprint]:
  "touches {P_commands, P_files} s (snd (relay_file_start now q name fid cid data s))"
proof -
  have "touches {P_commands, P_files} s (s\<lparr>file_store := m\<rparr>)" for m
    by (simp add: touches_def all_parts viewers_kept_same)
  moreover have "touches {P_commands, P_files} t (snd (forward_start now d tok k cid p t))" for d tok k p t
    by (rule touches_mono [OF touches_forward_start]) simp
  ultimately show ?thesis
    unfolding relay_file_start_def Let_def by (blast intro: touches_trans)
qed

lemma touches_collect [footprint]: "touches {P_files} s (snd (file_host_download now fid d ht s))"
  by (auto simp: touches_def all_parts same_commands_def file_host_download_def Let_def viewers_kept_same
      split: option.split)

lemma touches_read [footprint]: "touches {} s (snd (file_download now fid tok s))"
  by (auto simp: file_download_def validate_viewer_eq split: option.split)

section \<open>The sweep\<close>

lemma touches_fold: "(\<And>x t. touches A t (f x t)) \<Longrightarrow> touches A s (fold f xs s)"
proof (induction xs arbitrary: s)
  case (Cons x xs)
  from touches_trans [OF Cons.prems Cons.IH [OF Cons.prems]] show ?case by simp
qed simp

lemma touches_prune [footprint]: "touches {P_screen} s (prune_all_demands now s)"
  unfolding prune_all_demands_def
  by (rule touches_fold)
    (simp add: touches_def all_parts same_commands_def prune_demand_of_def prune_gen put_demand_def viewers_kept_same)

definition swept_files :: "ms \<Rightarrow> app_state \<Rightarrow> app_state" where
  "swept_files now s =
     s\<lparr>file_store := hsweep (\<lambda>_ b. FILE_BLOB_TTL_MS < now - fb_created_at_ms b) (file_store s)\<rparr>"

lemma cleanup_parts:
  "\<exists>t. touches {P_screen, P_commands} s t \<and> cleanup_expired now s = swept_files now t"
proof -
  let ?A = "{P_screen, P_commands}"
  let ?s1 = "fold remove_preview_state (stale_previews now s) s"
  have 1: "touches ?A s ?s1" by (rule touches_fold) (rule touches_remove_preview)
  have 2: "touches ?A t (t\<lparr>viewer_sessions := hsweep P (viewer_sessions t)\<rparr>)" for t P
    by (auto simp: touches_def all_parts viewers_kept_def split: option.splits if_splits)
  have 3: "touches ?A t (prune_all_demands now t)" for t
    by (rule touches_mono [OF touches_prune]) simp
  have 4: "touches ?A t (fold (expire_stale_device_commands now) ks t)" for ks t
    by (rule touches_fold) (rule touches_mono [OF touches_expire], simp)
  show ?thesis
    unfolding cleanup_expired_def Let_def swept_files_def
    by (intro exI conjI, rule touches_trans [OF _ 4], rule touches_trans [OF _ touches_upd(1)],
        rule touches_trans [OF _ 3], rule touches_trans [OF _ 2], rule touches_trans [OF 1 touches_upd(2)]) (rule refl)
qed

lemma only_removes_swept: "only_removes_files s (swept_files now s)"
  by (auto simp: only_removes_files_def swept_files_def split: option.splits if_splits)

lemma touches_swept [footprint]: "touches {P_files} s (swept_files now s)"
  by (simp add: touches_def all_parts same_commands_def swept_files_def viewers_kept_same)

lemma touches_cleanup [footprint]: "touches {P_screen, P_commands, P_files} s (cleanup_expired now s)"
proof -
  obtain t where t: "touches {P_screen, P_commands} s t" "cleanup_expired now s = swept_files now t"
    using cleanup_parts by blast
  show ?thesis
    unfolding t(2) by (rule touches_trans [OF touches_mono [OF t(1)] touches_mono [OF touches_swept]]) auto
qed

lemma cleanup_files: "only_removes_files s (cleanup_expired now s)"
proof -
  obtain t where t: "touches {P_screen, P_commands} s t" "cleanup_expired now s = swept_files now t"
    using cleanup_parts by blast
  have "file_bytes t = file_bytes s" "file_store t = file_store s"
    using touchesD(5,6) [OF t(1)] by simp_all
  then show ?thesis
    using only_removes_swept [of t now] by (simp add: t(2) only_removes_files_def)
qed

section \<open>Accounts, remote wake, pairing\<close>

lemma touches_auth [footprint]: "touches {} s (snd (authenticated_user now h s))"
  by (simp add: authenticated_user_eq)

lemma touches_file_ops:
  "touches {P_accounts} s (set_file p c s)" "touches {P_accounts} s (remove_file p s)"
  "touches {P_accounts} s (rename_file p q s)"
  by (simp_all add: touches_def all_parts same_commands_def set_file_def remove_file_def rename_file_def viewers_kept_same
      split: option.split)

lemma touches_snapshot [footprint]: "touches {P_accounts} s (snd (write_user_snapshot fault tmp us s))"
  by (auto simp: write_user_snapshot_def split: write_fault.split
      intro: touches_file_ops touches_trans [OF touches_trans [OF touches_file_ops(1) touches_file_ops(1)]]
        touches_trans [OF touches_file_ops(1)])

lemma touches_persist_auth [footprint]: "touches {P_accounts} s (snd (persist_auth_sessions fault s))"
  by (auto simp: persist_auth_sessions_def Let_def intro: touches_file_ops split: write_fault.split)

lemma touches_accounts_upd:
  "touches {P_accounts} s (s\<lparr>users := u\<rparr>)" "touches {P_accounts} s (s\<lparr>username_index := n\<rparr>)"
  "touches {P_accounts} s (s\<lparr>users := u, username_index := n\<rparr>)"
  "touches {P_accounts} s (s\<lparr>users := u, username_index := n, auth_sessions := a, account_presence := p\<rparr>)"
  by (simp_all add: touches_def all_parts same_commands_def viewers_kept_same)

lemma touches_register_commit [footprint]: "touches {P_accounts} s (snd (register_commit fault tmp user s))"
  by (auto simp: register_commit_eq Let_def intro: touches_snapshot touches_trans touches_accounts_upd)

lemma touches_delete_commit [footprint]: "touches {P_accounts} s (snd (delete_commit fault tmp user s))"
  by (auto simp: delete_commit_eq Let_def intro: touches_snapshot touches_trans touches_accounts_upd)

lemma touches_login [footprint]: "touches {P_accounts} s (snd (login_account lower verify now fault token q s))"
  by (auto simp: login_account_def Let_def create_session_eq split: option.split
      intro: touches_trans [OF touches_upd(1) touches_persist_auth])

lemma touches_devices [footprint]: "touches {} s (snd (list_account_devices now h s))"
  by (auto simp: list_account_devices_def authenticated_user_eq split: option.split)

lemma touches_presence [footprint]: "touches {} s (snd (upsert_account_presence now h d pl hn ch s))"
  by (auto simp: upsert_account_presence_def authenticated_user_eq Let_def
      intro: touches_trans [OF touches_upd(1) touches_upd(2)] split: option.split)

lemma touches_store_update [footprint]: "touches {P_accounts} s (snd (store_update c owner m s))"
proof -
  have "touches {P_accounts} s (snd (update_wake now fault tmp owner m s))" for now fault tmp
    using touches_trans [OF touches_snapshot touches_accounts_upd(1)] touches_snapshot
    by (auto simp: update_wake_def Let_def case_prod_beta split: option.split sum.split)
  then show ?thesis by (simp add: store_update_def)
qed

lemma touches_with_account:
  assumes "\<And>u t. touches A t (snd (f u t))"
  shows "touches A s (snd (with_account now h f s))"
proof -
  have "touches A s (s\<lparr>auth_sessions := auth_token_touched now (bearer_of h) s\<rparr>)" by simp
  from touches_trans [OF this assms] show ?thesis
    by (simp add: with_account_def account_def authenticated_user_eq split: option.split)
qed

lemma touches_store_then:
  assumes "\<And>v t. touches {P_accounts} t (snd (g v t))"
  shows "touches {P_accounts} s (snd (case store_update c owner m s of (Inl e, s1) \<Rightarrow> (Inl e, s1) | (Inr v, s1) \<Rightarrow> g v s1))"
  using touches_store_update [of s c owner m] assms
  by (auto split: prod.split sum.split intro: touches_trans)

lemma touches_advance [footprint]: "touches {P_accounts} s (snd (advance c owner s))"
  by (simp add: advance_def Let_def touches_store_update split: option.split)

lemma touches_advance_then:
  assumes "\<And>v t. touches {P_accounts} t (snd (g v t))"
  shows "touches {P_accounts} s (snd (case advance c owner s of (Inl e, s1) \<Rightarrow> (Inl e, s1) | (Inr v, s1) \<Rightarrow> g v s1))"
  using touches_advance [of s c owner] assms
  by (auto split: prod.split sum.split intro: touches_trans)

lemma touches_set_pairings [footprint, simp]: "touches {P_pairings} s (set_pairings rt s)"
  by (simp add: touches_def all_parts same_commands_def set_pairings_def viewers_kept_same)

lemma touches_update_session [footprint, simp]: "touches {P_pairings} s (update_session i f s)"
  by (simp add: update_session_def split: option.split)

lemma touches_phone [footprint]: "touches {P_pairings} s (snd (phone_session digest now owner i b s))"
  by (auto simp: phone_session_def Let_def split: sum.split prod.split option.split
      intro: touches_trans [OF touches_set_pairings touches_set_pairings])

lemma touches_create_locked [footprint]:
  "touches {P_pairings} s (snd (create_locked digest now rnd h owner name dev mac s))"
proof -
  obtain r s' where r: "create_locked digest now rnd h owner name dev mac s = (r, s')" by fastforce
  then show ?thesis by (cases rule: create_locked_cases) (simp_all add: r)
qed

lemma touches_confirm [footprint]: "touches {P_pairings} s (snd (confirm_locked digest now owner i b s))"
  using touches_phone [of s digest now owner "Some i" b]
  by (auto simp: confirm_locked_def split: prod.split sum.split intro: touches_trans)

lemma touches_cancel [footprint]: "touches {P_pairings} s (snd (cancel_locked digest now owner i proof s))"
  by (simp add: cancel_locked_def split: sum.split)

lemma touches_cancel_all [footprint]: "touches {P_pairings} s (cancel_all_locked owner creator s)"
  by (simp add: cancel_all_locked_def)

lemma touches_enroll [footprint]: "touches {P_accounts} s (snd (enroll digest c h owner tid hash p s))"
proof -
  have "touches {P_accounts} s (s\<lparr>auth_sessions := a\<rparr>)" for a by simp
  from touches_trans [OF this touches_store_update] show ?thesis
    by (auto simp: enroll_def account_def authenticated_user_eq split: sum.split option.split)
qed

end
