(* ===== verification/Relay_System.thy ===== *)
theory Relay_System
  imports Relay_Footprint
begin

text \<open>
  The relay as a whole: one transition system whose steps are all the handlers of \<open>main.rs\<close> and of
  \<open>wake\<close>, over the one state they share.  A handler that suspends is several steps, so every
  interleaving of the code is a run.  Fresh tokens are drawn outside the tables they go into, as the
  random 128-bit tokens of the code are.
\<close>

section \<open>What the relay relies on\<close>

text \<open>The functions of other crates: SHA-256 of the wake tokens, lower-casing, Argon2, the JSON parsers.\<close>

record outside =
  ex_digest :: "string \<Rightarrow> string"
  ex_lower :: "string \<Rightarrow> string"
  ex_hash :: "string \<Rightarrow> string option"
  ex_verify :: "string \<Rightarrow> string \<Rightarrow> bool"
  ex_parse_result :: "string \<Rightarrow> command_result_request option"
  ex_parse_json :: "string \<Rightarrow> json option"

section \<open>Handlers cut at their suspension points\<close>

text \<open>\<open>register_account\<close> up to the store lock, and from the lock on.\<close>

definition registered_user :: "outside \<Rightarrow> ms \<Rightarrow> string \<Rightarrow> account_auth_request \<Rightarrow> user_record option" where
  "registered_user x now user_id request =
     (let username = normalize_username (ex_lower x) (rq_username request);
          password = trim (rq_password request)
      in if username = [] \<or> length password < MIN_PASSWORD_LEN then None
         else map_option (\<lambda>password_hash.
           \<lparr>ur_user_id = user_id, ur_username = username,
            ur_display_name = display_name_of (rq_display_name request) username,
            ur_password_hash = password_hash, ur_created_at_ms = now, ur_wake = wake_default\<rparr>)
           (ex_hash x password))"

definition account_created ::
  "ms \<Rightarrow> write_fault \<Rightarrow> write_fault \<Rightarrow> string \<Rightarrow> string \<Rightarrow> user_record \<Rightarrow> app_state \<Rightarrow> app_state" where
  "account_created now fault fault' tmp token user s =
     (case register_commit fault tmp user s of
        (Ok_with _, s1) \<Rightarrow> snd (persist_auth_sessions fault' (snd (create_account_session now token user s1)))
      | (_, s1) \<Rightarrow> s1)"

lemma register_account_split:
  "snd (register_account (ex_lower x) (ex_hash x) now fault fault' tmp uid token env request s) = s \<or>
   (\<exists>user. registered_user x now uid request = Some user \<and>
      snd (register_account (ex_lower x) (ex_hash x) now fault fault' tmp uid token env request s) =
        account_created now fault fault' tmp token user (env s))"
  by (auto simp: register_account_def registered_user_def account_created_def Let_def case_prod_beta
      split: option.split response.split)

text \<open>\<open>delete_account\<close> from the lock on; the record is the one the credential check returned.\<close>

definition account_deleted ::
  "write_fault \<Rightarrow> write_fault \<Rightarrow> string \<Rightarrow> user_record \<Rightarrow> app_state \<Rightarrow> app_state" where
  "account_deleted fault fault' tmp user s =
     (case delete_commit fault tmp user s of
        (Ok_with _, s1) \<Rightarrow> snd (persist_auth_sessions fault' s1)
      | (_, s1) \<Rightarrow> s1)"

lemma delete_account_split:
  fixes s now headers
  defines "s1 \<equiv> s\<lparr>auth_sessions := auth_token_touched now (bearer_of headers) s\<rparr>"
  shows "snd (delete_account verify now fault fault' tmp env headers password s) = s1 \<or>
   (\<exists>user. account_ok now headers s = Some user \<and>
      snd (delete_account verify now fault fault' tmp env headers password s) =
        account_deleted fault fault' tmp user (env s1))"
  by (simp add: delete_account_def authenticated_user_eq account_deleted_def s1_def
      split: option.split response.split prod.split)

section \<open>The state of the system\<close>

text \<open>
  Beside the shared state: the handlers in flight (requests that wait for a host, uploads, open sockets,
  polls) and a record of what happened, which the properties speak about.
\<close>

datatype command_origin =
  Queued_by string string \<comment> \<open>a command in the queue of a device, from the viewer with this token\<close>
| Sent_by string string \<comment> \<open>a command put on the host's socket\<close>
| Asked_for string \<comment> \<open>the request of a viewer without a password to be let in\<close>

datatype waiting_handler =
  H_command
| H_upload string u64
| H_resolve string string string preview_registration
| H_socket string

text \<open>Why a viewer session was issued: what the request showed, or the host's answer to a command.\<close>

datatype grant_reason =
  By_request ms resolve_preview_request preview_registration "string option"
| By_host string

record relay_sys =
  rl_app :: app_state
  rl_origin :: "string \<rightharpoonup> command_origin"
  rl_pending :: "string \<rightharpoonup> waiting_handler"
  rl_delivered :: "(string \<times> string) list"
  rl_transfers :: "(string, u64 \<times> bool) hmap"
  rl_uploads :: "string \<rightharpoonup> file_upload_query \<times> string"
  rl_epoch :: "string \<Rightarrow> nat"
  rl_steady :: bool
  rl_grants :: "(string \<times> string \<times> grant_reason) set"
  rl_answers :: "(string \<times> string \<times> bool) set"
  rl_signed_in :: "(string \<times> string) set"
  rl_polling :: "string set"
  rl_sockets :: "string set"
  rl_viewers :: "string \<rightharpoonup> string \<times> string \<times> viewer_loop"
  rl_pairings :: "pairing_event list"

definition relay_start :: "app_state \<Rightarrow> relay_sys" where
  "relay_start s =
     \<lparr>rl_app = s, rl_origin = Map.empty, rl_pending = Map.empty, rl_delivered = [], rl_transfers = hempty,
      rl_uploads = Map.empty, rl_epoch = (\<lambda>_. 0), rl_steady = True, rl_grants = {}, rl_answers = {},
      rl_signed_in = {}, rl_polling = {}, rl_sockets = {}, rl_viewers = Map.empty, rl_pairings = []\<rparr>"

section \<open>Steps that only change the shared state\<close>

text \<open>Endpoints of the screen and the read-only ones.\<close>

inductive screen_op :: "app_state \<Rightarrow> app_state \<Rightarrow> bool" where
  so_fetch: "screen_op s (snd (fetch_frame now d tok s))"
| so_demand: "screen_op s (snd (host_screen_demand now d ht s))"
| so_stop: "screen_op s (snd (stop_viewer_screen now d tok s))"
| so_close: "screen_op s (snd (close_viewer_session now d tok s))"
| so_disconnect: "screen_op s (snd (disconnect_viewers now d ht s))"
| so_unregister: "screen_op s (snd (unregister_preview now d ht s))"

text \<open>Steps that leave all six parts alone: checks that touch a session, presence, opening of sockets.\<close>

inductive quiet_op :: "app_state \<Rightarrow> app_state \<Rightarrow> bool" where
  qo_viewer_check: "quiet_op s (snd (ws_viewer_handler now d tok s))"
| qo_host_close: "quiet_op s (ws_host_close d s)"
| qo_read: "quiet_op s (snd (file_download now fid tok s))"
| qo_devices: "quiet_op s (snd (list_account_devices now h s))"
| qo_presence: "quiet_op s (snd (upsert_account_presence now h d pl hn can_host s))"
| qo_forward_refused: "forward_start now d tok kind cid payload s = (Inl status, s') \<Longrightarrow> quiet_op s s'"
| qo_list_refused: "file_list_start now d tok path cid s = (Inl status, s') \<Longrightarrow> quiet_op s s'"

section \<open>The steps\<close>

text \<open>What the code can have read when a viewer's socket receives a frame.\<close>

definition frame_in_channel :: "string \<Rightarrow> viewer_event \<Rightarrow> app_state \<Rightarrow> bool" where
  "frame_in_channel d e s \<longleftrightarrow>
     (case e of Frame_received f _ \<Rightarrow> f \<in> set (hor_default [] d (frame_broadcasters s)) | _ \<Rightarrow> True)"

text \<open>The result a host's socket message carries.\<close>

definition answers_of :: "outside \<Rightarrow> string \<Rightarrow> ws_message \<Rightarrow> (string \<times> string \<times> bool) set" where
  "answers_of x d msg =
     (case msg of
        Text m \<Rightarrow> (case ex_parse_result x m of
                     Some result \<Rightarrow> {(cq_command_id result, d, cq_ok result)} | None \<Rightarrow> {})
      | _ \<Rightarrow> {})"

text \<open>Screens and registrations.  \<open>rl_steady\<close> says that no host has switched to capture on demand with a
  frame in store, or used its socket after such a switch.\<close>

inductive screen_step :: "outside \<Rightarrow> relay_sys \<Rightarrow> relay_sys \<Rightarrow> bool" for x where
  rs_Screen: "screen_op (rl_app r) s' \<Longrightarrow> screen_step x r (r\<lparr>rl_app := s'\<rparr>)"
| rs_Upload_frame: "upload_frame now q body (rl_app r) = (Ok_with t, s') \<Longrightarrow>
    screen_step x r (r\<lparr>rl_app := s', rl_epoch := (rl_epoch r)(fq_device_id q := named_epoch q)\<rparr>)"
| rs_Frame_refused: "upload_frame now q body (rl_app r) = (Status n, s') \<Longrightarrow> screen_step x r (r\<lparr>rl_app := s'\<rparr>)"
| rs_Register: "screen_step x r (r\<lparr>
      rl_app := snd (register_preview now tok q (rl_app r)),
      rl_steady := rl_steady r \<and> (rp_on_demand_capture q \<longrightarrow>
        host_on_demand (rp_device_id q) (rl_app r) \<or> hget (frames (rl_app r)) (rp_device_id q) = None)\<rparr>)"

text \<open>How viewers get in.\<close>

inductive resolve_step :: "outside \<Rightarrow> relay_sys \<Rightarrow> relay_sys \<Rightarrow> bool" for x where
  rs_Resolve: "resolve_preview now d headers vt cid q (rl_app r) = (Resolved resp, s') \<Longrightarrow>
    resolve_step x r (r\<lparr>rl_app := s',
      rl_grants := (if rs_authorized resp
        then insert (d, vt, By_request now q (the (hget (previews (rl_app r)) d))
               (auth_token_ok now (rr_auth_token q) (rl_app r))) (rl_grants r)
        else rl_grants r)\<rparr>)"
| rs_Resolve_wait: "rl_origin r cid = None \<Longrightarrow>
    resolve_preview now d headers vt cid q (rl_app r) = (Waiting ht reg, s') \<Longrightarrow>
    resolve_step x r (r\<lparr>rl_app := s', rl_origin := (rl_origin r)(cid \<mapsto> Asked_for d),
      rl_pending := (rl_pending r)(cid \<mapsto> H_resolve d vt ht reg)\<rparr>)"
| rs_Resolve_finish: "rl_pending r cid = Some (H_resolve d vt ht reg) \<Longrightarrow>
    resolve_preview_finish now d headers vt cid ht reg timed_out (rl_app r) = (Some resp, s') \<Longrightarrow>
    resolve_step x r (r\<lparr>rl_app := s', rl_pending := (rl_pending r)(cid := None),
      rl_grants := (if rs_authorized resp then insert (d, vt, By_host cid) (rl_grants r) else rl_grants r)\<rparr>)"

text \<open>Commands and the host's polls.\<close>

inductive command_step :: "outside \<Rightarrow> relay_sys \<Rightarrow> relay_sys \<Rightarrow> bool" for x where
  rs_Command: "rl_origin r cid = None \<Longrightarrow> send_command now d tok cid c (rl_app r) = (Inr cid, s') \<Longrightarrow>
    command_step x r (r\<lparr>rl_app := s', rl_origin := (rl_origin r)(cid \<mapsto> Queued_by d tok),
      rl_pending := (rl_pending r)(cid \<mapsto> H_command)\<rparr>)"
| rs_List: "rl_origin r cid = None \<Longrightarrow> file_list_start now d tok path cid (rl_app r) = (Inr cid, s') \<Longrightarrow>
    command_step x r (r\<lparr>rl_app := s', rl_origin := (rl_origin r)(cid \<mapsto> Queued_by d tok),
      rl_pending := (rl_pending r)(cid \<mapsto> H_command)\<rparr>)"
| rs_Command_finish: "rl_pending r cid = Some H_command \<Longrightarrow>
    forward_finish cid timed_out (rl_app r) = (Some outcome, s') \<Longrightarrow>
    command_step x r (r\<lparr>rl_app := s', rl_pending := (rl_pending r)(cid := None)\<rparr>)"
| rs_Hang_up: "rl_pending r cid = Some h \<Longrightarrow> h = H_command \<or> h = H_resolve d vt ht reg \<Longrightarrow>
    command_step x r (r\<lparr>rl_pending := (rl_pending r)(cid := None)\<rparr>)"
| rs_Poll_begin: "validate_host now d ht (rl_app r) \<Longrightarrow>
    command_step x r (r\<lparr>rl_polling := insert d (rl_polling r)\<rparr>)"
| rs_Poll: "d \<in> rl_polling r \<Longrightarrow> poll_turn now d (rl_app r) = (Some cmd, s') \<Longrightarrow>
    command_step x r (r\<lparr>rl_app := s', rl_delivered := rl_delivered r @ [(d, pc_command_id cmd)]\<rparr>)"
| rs_Poll_none: "d \<in> rl_polling r \<Longrightarrow> poll_turn now d (rl_app r) = (None, s') \<Longrightarrow>
    command_step x r (r\<lparr>rl_app := s'\<rparr>)"
| rs_Complete: "command_step x r (r\<lparr>
      rl_app := snd (complete_host_command now d ht cid ok text (rl_app r)),
      rl_answers := (if validate_host now d ht (rl_app r) then insert (cid, d, ok) (rl_answers r)
                     else rl_answers r)\<rparr>)"

text \<open>The web sockets.\<close>

inductive socket_step :: "outside \<Rightarrow> relay_sys \<Rightarrow> relay_sys \<Rightarrow> bool" for x where
  rs_Host_open: "ws_host_handler now d ht (rl_app r) = Ok_with () \<Longrightarrow>
    socket_step x r (r\<lparr>rl_app := ws_host_open d (rl_app r), rl_sockets := insert d (rl_sockets r)\<rparr>)"
| rs_Host_message: "d \<in> rl_sockets r \<Longrightarrow>
    socket_step x r (r\<lparr>rl_app := snd (ws_host_message (ex_parse_result x) now d msg (rl_app r)),
      rl_answers := rl_answers r \<union> answers_of x d msg,
      rl_steady := rl_steady r \<and> \<not> host_on_demand d (rl_app r)\<rparr>)"
| rs_Viewer_open: "rl_viewers r key = None \<Longrightarrow>
    ws_viewer_open now d tok key (rl_app r) = (loop, s') \<Longrightarrow>
    socket_step x r (r\<lparr>rl_app := s',
      rl_viewers := (rl_viewers r)(key := (if loop = Running then Some (d, tok, Running) else None))\<rparr>)"
| rs_Viewer_queued: "rl_viewers r key = Some (d, tok, Running) \<Longrightarrow> rl_origin r cid = None \<Longrightarrow>
    ws_viewer_turn (ex_parse_json x) now d tok key cid e Running (rl_app r) = (out, Forwarding c, s') \<Longrightarrow>
    socket_step x r (r\<lparr>rl_app := s', rl_origin := (rl_origin r)(c \<mapsto> Queued_by d tok),
      rl_pending := (rl_pending r)(c \<mapsto> H_socket key),
      rl_viewers := (rl_viewers r)(key \<mapsto> (d, tok, Forwarding c))\<rparr>)"
| rs_Viewer_answered: "rl_viewers r key = Some (d, tok, Forwarding c) \<Longrightarrow>
    ws_viewer_turn (ex_parse_json x) now d tok key cid e (Forwarding c) (rl_app r) = (out, Running, s') \<Longrightarrow>
    socket_step x r (r\<lparr>rl_app := s', rl_pending := (rl_pending r)(c := None),
      rl_viewers := (rl_viewers r)(key \<mapsto> (d, tok, Running))\<rparr>)"
| rs_Viewer_turn: "rl_viewers r key = Some (d, tok, Running) \<Longrightarrow> rl_origin r cid = None \<Longrightarrow>
    frame_in_channel d e (rl_app r) \<Longrightarrow>
    ws_viewer_turn (ex_parse_json x) now d tok key cid e Running (rl_app r) = (out, Running, s') \<Longrightarrow>
    socket_step x r (r\<lparr>rl_app := s',
      rl_origin := (if ws_host_cmd_tx s' = ws_host_cmd_tx (rl_app r) then rl_origin r
                    else (rl_origin r)(cid \<mapsto> Sent_by d tok))\<rparr>)"
| rs_Viewer_end: "rl_viewers r key = Some (d, tok, Running) \<Longrightarrow> frame_in_channel d e (rl_app r) \<Longrightarrow>
    ws_viewer_turn (ex_parse_json x) now d tok key cid e Running (rl_app r) = (out, Ended, s') \<Longrightarrow>
    socket_step x r (r\<lparr>rl_app := release_screen_lease now d key s', rl_viewers := (rl_viewers r)(key := None)\<rparr>)"

text \<open>Files in transit.\<close>

inductive upload_step :: "outside \<Rightarrow> relay_sys \<Rightarrow> relay_sys \<Rightarrow> bool" for x where
  rs_Admit: "admit_file now q h (rl_app r) = (Inr (name, sz), s') \<Longrightarrow>
    hget (rl_transfers r) fid = None \<Longrightarrow> hget (file_store (rl_app r)) fid = None \<Longrightarrow>
    upload_step x r (r\<lparr>rl_app := s', rl_transfers := hput fid (sz, False) (rl_transfers r),
      rl_uploads := (rl_uploads r)(fid \<mapsto> (q, name))\<rparr>)"
| rs_File_refused: "admit_file now q h (rl_app r) = (Inl e, s') \<Longrightarrow> upload_step x r (r\<lparr>rl_app := s'\<rparr>)"
| rs_Incomplete: "hget (rl_transfers r) fid = Some (sz, False) \<Longrightarrow> body_complete sz received = None \<Longrightarrow>
    upload_step x r (r\<lparr>rl_app := drop_reservation sz (rl_app r), rl_transfers := hrem fid (rl_transfers r)\<rparr>)"
| rs_Stored: "hget (rl_transfers r) fid = Some (sz, False) \<Longrightarrow> rl_uploads r fid = Some (q, name) \<Longrightarrow>
    body_complete sz received = Some data \<Longrightarrow> rl_origin r cid = None \<Longrightarrow>
    relay_file_start now q name fid cid data (rl_app r) = (Inr cid, s') \<Longrightarrow>
    upload_step x r (r\<lparr>rl_app := s', rl_transfers := hput fid (sz, True) (rl_transfers r),
      rl_origin := (rl_origin r)(cid \<mapsto> Queued_by (uq_device_id q) (uq_token q)),
      rl_pending := (rl_pending r)(cid \<mapsto> H_upload fid sz)\<rparr>)"
| rs_Store_refused: "hget (rl_transfers r) fid = Some (sz, False) \<Longrightarrow> rl_uploads r fid = Some (q, name) \<Longrightarrow>
    body_complete sz received = Some data \<Longrightarrow>
    relay_file_start now q name fid cid data (rl_app r) = (Inl status, s') \<Longrightarrow>
    upload_step x r (r\<lparr>rl_app := relay_file_end fid sz s', rl_transfers := hrem fid (rl_transfers r)\<rparr>)"
| rs_File_finish: "rl_pending r cid = Some (H_upload fid sz) \<Longrightarrow>
    file_upload_finish fid cid sz timed_out (rl_app r) = (Some resp, s') \<Longrightarrow>
    upload_step x r (r\<lparr>rl_app := s', rl_pending := (rl_pending r)(cid := None),
      rl_transfers := hrem fid (rl_transfers r)\<rparr>)"
| rs_File_hang_up: "rl_pending r cid = Some (H_upload fid sz) \<Longrightarrow>
    upload_step x r (r\<lparr>rl_app := relay_file_end fid sz (rl_app r), rl_pending := (rl_pending r)(cid := None),
      rl_transfers := hrem fid (rl_transfers r)\<rparr>)"
| rs_Collect: "file_host_download now fid d ht (rl_app r) = (resp, s') \<Longrightarrow> upload_step x r (r\<lparr>rl_app := s'\<rparr>)"

text \<open>Accounts and remote wake.\<close>

inductive account_step :: "outside \<Rightarrow> relay_sys \<Rightarrow> relay_sys \<Rightarrow> bool" for x where
  rs_Sign_in: "authenticated_user now h (rl_app r) = (Some user, s') \<Longrightarrow>
    account_step x r (r\<lparr>rl_app := s', rl_signed_in := insert (ur_user_id user, ur_username user) (rl_signed_in r)\<rparr>)"
| rs_Create_account: "registered_user x now uid q = Some user \<Longrightarrow> hget (users (rl_app r)) uid = None \<Longrightarrow>
    uid \<notin> fst ` rl_signed_in r \<Longrightarrow> tmp \<noteq> user_store_path (rl_app r) \<Longrightarrow>
    account_step x r (r\<lparr>rl_app := account_created now fault fault' tmp tok user (rl_app r)\<rparr>)"
| rs_Login: "account_step x r (r\<lparr>rl_app :=
      snd (login_account (ex_lower x) (ex_verify x) now fault tok q (rl_app r))\<rparr>)"
| rs_Persist: "account_step x r (r\<lparr>rl_app := snd (persist_auth_sessions fault (rl_app r))\<rparr>)"
| rs_Delete_account: "(ur_user_id user, ur_username user) \<in> rl_signed_in r \<Longrightarrow>
    tmp \<noteq> user_store_path (rl_app r) \<Longrightarrow>
    account_step x r (r\<lparr>rl_app := account_deleted fault fault' tmp user (rl_app r)\<rparr>)"
| rs_Wake: "wake_op (ex_digest x) (user_store_path (rl_app r)) (rl_app r) s' \<Longrightarrow>
    account_step x r (r\<lparr>rl_app := s'\<rparr>)"

text \<open>Device pairing.\<close>

inductive pairing_step :: "outside \<Rightarrow> relay_sys \<Rightarrow> relay_sys \<Rightarrow> bool" for x where
  rs_Pair_create: "owner \<in> fst ` rl_signed_in r \<Longrightarrow> mac_parse raw = Inr m \<Longrightarrow>
    pairing_step x r (r\<lparr>rl_app := snd (create_locked (ex_digest x) now rnd h owner name dev (mac_normalized m) (rl_app r))\<rparr>)"
| rs_Pair_resolve: "owner \<in> fst ` rl_signed_in r \<Longrightarrow>
    pairing_step x r (r\<lparr>rl_app := snd (phone_session (ex_digest x) now owner i b (rl_app r))\<rparr>)"
| rs_Pair_confirm: "owner \<in> fst ` rl_signed_in r \<Longrightarrow>
    confirm_locked (ex_digest x) now owner i b (rl_app r) = (res, s') \<Longrightarrow>
    pairing_step x r (r\<lparr>rl_app := s', rl_pairings :=
      (case res of Inr _ \<Rightarrow> Phone_confirmed owner i b # rl_pairings r | Inl _ \<Rightarrow> rl_pairings r)\<rparr>)"
| rs_Pair_claim: "owner \<in> fst ` rl_signed_in r \<Longrightarrow> sc_tmp c \<noteq> user_store_path (rl_app r) \<Longrightarrow>
    pairings s0 = pairings (rl_app r) \<Longrightarrow> desktop_session (ex_digest x) now owner i proof_text s0 = Inr p \<Longrightarrow>
    pg_confirmed p \<Longrightarrow> pg_claimed p = None \<Longrightarrow>
    claim_locked (ex_digest x) now c (\<lambda>_. rl_app r) h tid owner i proof_text tok s0 = (res, s') \<Longrightarrow>
    pairing_step x r (r\<lparr>rl_app := s', rl_pairings :=
      (case res of Inr t \<Rightarrow> Desktop_claimed owner i proof_text tok t # rl_pairings r | Inl _ \<Rightarrow> rl_pairings r)\<rparr>)"
| rs_Pair_cancel: "owner \<in> fst ` rl_signed_in r \<Longrightarrow>
    pairing_step x r (r\<lparr>rl_app := snd (cancel_locked (ex_digest x) now owner i proof_text (rl_app r))\<rparr>)"
| rs_Pair_cancel_all: "owner \<in> fst ` rl_signed_in r \<Longrightarrow>
    pairing_step x r (r\<lparr>rl_app := cancel_all_locked owner creator (rl_app r)\<rparr>)"
| rs_Pair_sweep: "pairing_step x r (r\<lparr>rl_app :=
      set_pairings (pairing_prune now (pairings (rl_app r))) (rl_app r)\<rparr>)"

text \<open>Any handler, one step at a time.\<close>

inductive relay_step :: "outside \<Rightarrow> relay_sys \<Rightarrow> relay_sys \<Rightarrow> bool" for x where
  rs_screen: "screen_step x r r' \<Longrightarrow> relay_step x r r'"
| rs_resolve: "resolve_step x r r' \<Longrightarrow> relay_step x r r'"
| rs_command: "command_step x r r' \<Longrightarrow> relay_step x r r'"
| rs_socket: "socket_step x r r' \<Longrightarrow> relay_step x r r'"
| rs_upload: "upload_step x r r' \<Longrightarrow> relay_step x r r'"
| rs_account: "account_step x r r' \<Longrightarrow> relay_step x r r'"
| rs_pairing: "pairing_step x r r' \<Longrightarrow> relay_step x r r'"
| rs_quiet: "quiet_op (rl_app r) s' \<Longrightarrow> relay_step x r (r\<lparr>rl_app := s'\<rparr>)"
| rs_cleanup: "relay_step x r (r\<lparr>rl_app := cleanup_expired now (rl_app r)\<rparr>)"

section \<open>Runs\<close>

text \<open>
  A run starts with a server that came up on its disk.  The database file is absent, or one that a
  server wrote: ids and names are distinct, the wake data well formed.
\<close>

definition good_disk :: "string \<Rightarrow> (string, file_content) hmap \<Rightarrow> bool" where
  "good_disk path disk \<longleftrightarrow> path \<noteq> auth_sessions_path path \<and>
     (case hget disk path of
        None \<Rightarrow> True
      | Some (Users_file us) \<Rightarrow> distinct (map ur_user_id us) \<and> distinct (map ur_username us) \<and>
          (\<forall>u \<in> set us. wake_ok (ur_wake u))
      | Some _ \<Rightarrow> False)"

inductive relay_reachable :: "outside \<Rightarrow> relay_sys \<Rightarrow> bool" for x where
  relay_init: "good_disk path disk \<Longrightarrow> tmp \<noteq> path \<Longrightarrow> start_server now fault tmp path disk = Some s \<Longrightarrow>
    relay_reachable x (relay_start s)"
| relay_next: "relay_reachable x r \<Longrightarrow> relay_step x r r' \<Longrightarrow> relay_reachable x r'"

section \<open>Each component's view\<close>

definition capture_view :: "relay_sys \<Rightarrow> capture_sys" where
  "capture_view r = \<lparr>ca_app = rl_app r, ca_epoch = rl_epoch r\<rparr>"

definition queued_ids :: "relay_sys \<Rightarrow> string set" where
  "queued_ids r = {cid. \<exists>o'. rl_origin r cid = Some o' \<and> (\<forall>d t. o' \<noteq> Sent_by d t)}"

definition command_view :: "relay_sys \<Rightarrow> cmd_sys" where
  "command_view r = \<lparr>cs_app = rl_app r, cs_issued = queued_ids r, cs_waiting = dom (rl_pending r),
     cs_delivered = map snd (rl_delivered r)\<rparr>"

definition file_view :: "relay_sys \<Rightarrow> file_sys" where
  "file_view r = \<lparr>fy_app = rl_app r, fy_transfers = rl_transfers r\<rparr>"

end
