(* ===== verification/Relay_Refines.thy ===== *)
theory Relay_Refines
  imports Relay_System
begin

text \<open>
  The relay refines its components: in every run of the whole system, the part each component sees is a
  run of the component's own transition system.  The invariants proved of the components therefore hold
  of the relay.
\<close>

section \<open>What the steps of each component leave alone\<close>

lemma touches_eq: "f = (v, s') \<Longrightarrow> touches A s (snd f) \<Longrightarrow> touches A s s'"
  by simp

lemma touches_eq2: "f = (v, w, s') \<Longrightarrow> touches A s (snd (snd f)) \<Longrightarrow> touches A s s'"
  by simp

lemma quiet_touches: "quiet_op s s' \<Longrightarrow> touches {} s s'"
proof (cases rule: quiet_op.cases, assumption)
  have v: "touches {} s (s\<lparr>viewer_sessions := viewers_touched now d tok s\<rparr>)" for now d tok by simp
  show "forward_start now d tok kind cid payload s = (Inl status, s') \<Longrightarrow> touches {} s s'"
    for now d tok kind cid payload status
    by (auto simp: forward_start_def validate_viewer_eq Let_def split: if_splits option.splits)
  show "file_list_start now d tok path cid s = (Inl status, s') \<Longrightarrow> touches {} s s'" for now d tok path cid status
    by (auto simp: file_list_start_def forward_start_def validate_viewer_eq Let_def split: if_splits option.splits)
qed (auto intro: touches_viewer_handler touches_host_close touches_read touches_devices touches_presence)

lemma screen_op_touches: "screen_op s s' \<Longrightarrow> touches {P_screen, P_commands} s s'"
  by (cases rule: screen_op.cases, assumption)
    (auto intro: touches_fetch touches_demand touches_stop touches_close touches_disconnect touches_unregister
      touches_mono)

lemma screen_step_touches:
  "screen_step x r r' \<Longrightarrow> touches {P_screen, P_commands} (rl_app r) (rl_app r')"
  by (cases rule: screen_step.cases, assumption)
    (auto intro: screen_op_touches touches_mono [OF touches_register] touches_mono [OF touches_eq [OF _ touches_upload_frame]])

lemma resolve_step_touches:
  "resolve_step x r r' \<Longrightarrow> touches {P_screen, P_commands, P_viewers} (rl_app r) (rl_app r')"
  by (cases rule: resolve_step.cases, assumption)
    (auto intro: touches_eq [OF _ touches_resolve] touches_mono [OF touches_eq [OF _ touches_resolve_finish]])

lemma command_step_touches: "command_step x r r' \<Longrightarrow> touches {P_commands} (rl_app r) (rl_app r')"
  by (cases rule: command_step.cases, assumption)
    (auto intro: touches_eq [OF _ touches_send_command] touches_eq [OF _ touches_file_list]
      touches_eq [OF _ touches_forward_finish] touches_eq [OF _ touches_poll] touches_complete)

lemma socket_step_touches:
  "socket_step x r r' \<Longrightarrow> touches {P_screen, P_commands} (rl_app r) (rl_app r')"
  by (cases rule: socket_step.cases, assumption)
    (auto intro: touches_mono [OF touches_host_open] touches_host_message touches_mono [OF touches_eq [OF _ touches_viewer_open]]
      touches_eq2 [OF _ touches_viewer_turn] touches_trans [OF touches_eq2 [OF _ touches_viewer_turn] touches_mono [OF touches_release]])

lemma upload_finish_touches: "touches {P_commands, P_files} s (snd (file_upload_finish fid cid sz to s))"
proof -
  have "touches {P_commands, P_files} s (snd (forward_finish cid to s))"
    by (rule touches_mono [OF touches_forward_finish]) simp
  moreover have "touches {P_commands, P_files} t (relay_file_end fid sz t)" for t
    by (rule touches_mono [OF touches_file_end]) simp
  ultimately show ?thesis
    by (auto simp: file_upload_finish_def case_prod_beta intro: touches_trans split: option.split sum.split)
qed

lemma upload_step_touches: "upload_step x r r' \<Longrightarrow> touches {P_commands, P_files} (rl_app r) (rl_app r')"
  by (cases rule: upload_step.cases, assumption)
    (auto intro: touches_mono [OF touches_eq [OF _ touches_admit]] touches_mono [OF touches_drop_reservation]
      touches_eq [OF _ touches_file_start] touches_eq [OF _ upload_finish_touches] touches_mono [OF touches_file_end]
      touches_trans [OF touches_eq [OF _ touches_file_start] touches_mono [OF touches_file_end]]
      touches_mono [OF touches_eq [OF _ touches_collect]])

interpretation wt: endpoint_invariant "touches {P_accounts} s" p for s p
  by unfold_locales (auto intro: touches_trans [OF _ touches_mono [OF touches_upd(1)]] touches_trans [OF _ touches_upd(6)]
      touches_trans [OF _ touches_upd(7)] touches_trans [OF _ touches_store_update])

lemma account_created_touches: "touches {P_accounts} s (account_created now fault fault' tmp tok user s)"
proof -
  obtain res s1 where c: "register_commit fault tmp user s = (res, s1)" by fastforce
  then have "touches {P_accounts} s s1"
    using touches_register_commit [of s fault tmp user] by simp
  then show ?thesis
    by (auto simp: account_created_def c create_session_eq split: response.split
        intro: touches_trans touches_trans [OF touches_upd(1) touches_persist_auth])
qed

lemma account_deleted_touches: "touches {P_accounts} s (account_deleted fault fault' tmp user s)"
proof -
  obtain res s1 where c: "delete_commit fault tmp user s = (res, s1)" by fastforce
  then have "touches {P_accounts} s s1"
    using touches_delete_commit [of s fault tmp user] by simp
  then show ?thesis
    by (auto simp: account_deleted_def c split: response.split intro: touches_trans touches_persist_auth)
qed

lemma account_step_touches: "account_step x r r' \<Longrightarrow> touches {P_accounts} (rl_app r) (rl_app r')"
  by (cases rule: account_step.cases, assumption)
    (auto intro: touches_mono [OF touches_eq [OF _ touches_auth]] account_created_touches touches_login touches_persist_auth
      account_deleted_touches wt.every_endpoint)

text \<open>A claim that waited for the store lock: the session table is as it was when the claim began.\<close>

lemma claim_waited:
  assumes "pairings s0 = pairings s" "desktop_session digest now owner i pf s0 = Inr p"
    and "pg_confirmed p" "pg_claimed p = None"
  shows "claim_locked digest now c (\<lambda>_. s) h tid owner i pf tok s0 =
    (case enroll digest c h owner tid (digest tok) p s of
       (Inl e, s1) \<Rightarrow> (Inl e, s1)
     | (Inr _, s1) \<Rightarrow> (Inr tid, update_session i (\<lambda>p. p\<lparr>pg_claimed := Some (tid, digest tok)\<rparr>) s1))"
proof -
  have "while_locked (\<lambda>_. s) s0 = s"
    using assms(1) by (simp add: while_locked_def set_pairings_def)
  then show ?thesis using assms(2-4) by (simp add: claim_locked_def Let_def)
qed

lemma pairing_step_touches: "pairing_step x r r' \<Longrightarrow> touches {P_accounts, P_pairings} (rl_app r) (rl_app r')"
proof (cases rule: pairing_step.cases, assumption)
  fix c s0 i pf p h tid tok owner now res s'
  assume r': "r' = r\<lparr>rl_app := s', rl_pairings :=
      (case res of Inl _ \<Rightarrow> rl_pairings r | Inr t \<Rightarrow> Desktop_claimed owner i pf tok t # rl_pairings r)\<rparr>"
    and cl: "pairings s0 = pairings (rl_app r)" "desktop_session (ex_digest x) now owner i pf s0 = Inr p"
      "pg_confirmed p" "pg_claimed p = None"
      "claim_locked (ex_digest x) now c (\<lambda>_. rl_app r) h tid owner i pf tok s0 = (res, s')"
  obtain y s1 where e: "enroll (ex_digest x) c h owner tid (ex_digest x tok) p (rl_app r) = (y, s1)" by fastforce
  have "touches {P_accounts, P_pairings} (rl_app r) s1"
    by (rule touches_mono [OF touches_eq [OF e touches_enroll]]) simp
  moreover have "touches {P_accounts, P_pairings} s1 (update_session i f s1)" for f
    by (rule touches_mono [OF touches_update_session]) simp
  ultimately have "touches {P_accounts, P_pairings} (rl_app r) s'"
    using cl(5) by (auto simp: claim_waited [OF cl(1-4)] e intro: touches_trans split: sum.splits)
  then show ?thesis by (simp add: r')
qed (auto intro: touches_mono [OF touches_create_locked] touches_mono [OF touches_phone]
      touches_mono [OF touches_eq [OF _ touches_confirm]] touches_mono [OF touches_cancel] touches_mono [OF touches_cancel_all]
      touches_mono [OF touches_set_pairings])


section \<open>The audience of the screen\<close>

lemma capture_steps:
  assumes "capture_reachable \<lparr>ca_app = s, ca_epoch = e\<rparr>"
  shows "screen_op s s' \<Longrightarrow> capture_reachable \<lparr>ca_app = s', ca_epoch = e\<rparr>"
    and "capture_reachable \<lparr>ca_app = release_screen_lease now d key s, ca_epoch = e\<rparr>"
    and "capture_reachable \<lparr>ca_app = remove_preview_state d s, ca_epoch = e\<rparr>"
    and "capture_reachable \<lparr>ca_app = cleanup_expired now s, ca_epoch = e\<rparr>"
    and "capture_reachable \<lparr>ca_app = snd (ws_viewer_open now d tok key s), ca_epoch = e\<rparr>"
    and "capture_reachable \<lparr>ca_app = snd (snd (ws_viewer_turn pj now d tok key cid ev loop s)), ca_epoch = e\<rparr>"
    and "\<not> host_on_demand d s \<Longrightarrow>
      capture_reachable \<lparr>ca_app = snd (ws_host_message pr now d msg s), ca_epoch = e\<rparr>"
    and "touches A s s' \<Longrightarrow> P_screen \<notin> A \<Longrightarrow> capture_reachable \<lparr>ca_app = s', ca_epoch = e\<rparr>"
proof -
  let ?c = "\<lparr>ca_app = s, ca_epoch = e\<rparr>"
  have go: "capture_reachable c'" if "capture_step ?c c'" for c'
    by (rule capture_next [OF assms that])
  show "screen_op s s' \<Longrightarrow> capture_reachable \<lparr>ca_app = s', ca_epoch = e\<rparr>"
    by (cases rule: screen_op.cases, assumption)
      (use go [OF cu_Fetch] go [OF cu_Demand] go [OF cu_Stop] go [OF cu_Close] go [OF cu_Disconnect] go [OF cu_Unregister]
        in simp_all)
  show "capture_reachable \<lparr>ca_app = release_screen_lease now d key s, ca_epoch = e\<rparr>"
    using go [OF cu_Release] by simp
  show "capture_reachable \<lparr>ca_app = remove_preview_state d s, ca_epoch = e\<rparr>"
    using go [OF cu_Stale] by simp
  show "capture_reachable \<lparr>ca_app = cleanup_expired now s, ca_epoch = e\<rparr>"
    using go [OF cu_Cleanup] by simp
  show "capture_reachable \<lparr>ca_app = snd (ws_viewer_open now d tok key s), ca_epoch = e\<rparr>"
    using go [OF cu_Viewer_open] by simp
  show "capture_reachable \<lparr>ca_app = snd (snd (ws_viewer_turn pj now d tok key cid ev loop s)), ca_epoch = e\<rparr>"
    using go [OF cu_Viewer_turn] by simp
  show "\<not> host_on_demand d s \<Longrightarrow> capture_reachable \<lparr>ca_app = snd (ws_host_message pr now d msg s), ca_epoch = e\<rparr>"
    using go [OF cu_Host_socket] by simp
  show "touches A s s' \<Longrightarrow> P_screen \<notin> A \<Longrightarrow> capture_reachable \<lparr>ca_app = s', ca_epoch = e\<rparr>"
    using go [OF cu_Other [of s' ?c]] touchesD(1-3) [of A s s'] by (simp add: host_on_demand_def)
qed

lemma resolve_screen_cases:
  "snd (resolve_preview now d headers vt cid q s) = remove_preview_state d s \<or>
   touches {P_commands, P_viewers} s (snd (resolve_preview now d headers vt cid q s))"
proof -
  let ?A = "{P_commands, P_viewers}"
  have sa: "touches ?A s (snd (same_account now q reg s))" for reg
    by (rule touches_mono [OF touches_same_account]) simp
  have gr: "touches ?A t (snd (grant_viewer now headers d vt reg t))" for reg t
    by (simp add: touches_def all_parts grant_viewer_def same_commands_def)
  have qu: "touches ?A t (queue_command now d cid k p t)" for k p t
    by (rule touches_mono [OF touches_queue]) simp
  show ?thesis
    by (auto simp: resolve_preview_def Let_def case_prod_beta sa intro: touches_trans [OF sa gr] touches_trans [OF sa qu]
        split: option.split bool.split)
qed

lemma screen_step_capture:
  assumes "screen_step x r r'" "rl_steady r'" "capture_reachable (capture_view r)"
  shows "capture_reachable (capture_view r')"
proof -
  have r: "capture_reachable \<lparr>ca_app = rl_app r, ca_epoch = rl_epoch r\<rparr>"
    using assms(3) by (simp add: capture_view_def)
  note go = capture_next [OF r]
  from assms(1) show ?thesis
  proof (cases rule: screen_step.cases)
    case (rs_Screen s')
    then show ?thesis by (simp add: capture_view_def capture_steps(1) [OF r])
  next
    case (rs_Upload_frame now q body t s')
    with go [OF cu_Upload] show ?thesis by (simp add: capture_view_def)
  next
    case (rs_Frame_refused now q body n s')
    with go [OF cu_Upload_refused] show ?thesis by (simp add: capture_view_def)
  next
    case (rs_Register q now tok)
    with assms(2) have "rp_on_demand_capture q \<Longrightarrow> host_on_demand (rp_device_id q) (rl_app r) \<or>
        hget (frames (rl_app r)) (rp_device_id q) = None" by simp
    with go [OF cu_Register, of q now tok] go [OF cu_Register_continuous, of q now tok]
    show ?thesis by (cases "rp_on_demand_capture q") (simp_all add: rs_Register capture_view_def)
  qed
qed

lemma resolve_step_capture:
  assumes "resolve_step x r r'" "capture_reachable (capture_view r)"
  shows "capture_reachable (capture_view r')"
proof -
  have r: "capture_reachable \<lparr>ca_app = rl_app r, ca_epoch = rl_epoch r\<rparr>"
    using assms(2) by (simp add: capture_view_def)
  have rp: "capture_reachable \<lparr>ca_app = s', ca_epoch = rl_epoch r\<rparr>"
    if "resolve_preview now d headers vt cid q (rl_app r) = (res, s')" for now d headers vt cid q res s'
    using resolve_screen_cases [of now d headers vt cid q "rl_app r"] capture_steps(3) [OF r, of d] capture_steps(8) [OF r]
    by (auto simp: that)
  from assms(1) show ?thesis
    by (cases rule: resolve_step.cases)
      (auto simp: capture_view_def intro: rp capture_steps(8) [OF r touches_eq [OF _ touches_resolve_finish]])
qed

lemma socket_step_capture:
  assumes "socket_step x r r'" "rl_steady r'" "capture_reachable (capture_view r)"
  shows "capture_reachable (capture_view r')"
proof -
  have r: "capture_reachable \<lparr>ca_app = rl_app r, ca_epoch = rl_epoch r\<rparr>"
    using assms(3) by (simp add: capture_view_def)
  have turn: "capture_reachable \<lparr>ca_app = s', ca_epoch = rl_epoch r\<rparr>"
    if "ws_viewer_turn pj now d tok key cid e loop (rl_app r) = (out, loop', s')" for pj now d tok key cid e loop out loop' s'
    using capture_steps(6) [OF r, of pj now d tok key cid e loop] by (simp add: that)
  have op: "capture_reachable \<lparr>ca_app = s', ca_epoch = rl_epoch r\<rparr>"
    if "ws_viewer_open now d tok key (rl_app r) = (loop, s')" for now d tok key loop s'
    using capture_steps(5) [OF r, of now d tok key] by (simp add: that)
  from assms(1,2) show ?thesis
    by (cases rule: socket_step.cases)
      (auto simp: capture_view_def intro: turn op capture_steps(2) [OF turn] capture_steps(7) [OF r]
        capture_steps(8) [OF r touches_host_open])
qed

lemma other_epochs:
  "command_step x r r' \<Longrightarrow> rl_epoch r' = rl_epoch r \<and> rl_steady r' = rl_steady r"
  "upload_step x r r' \<Longrightarrow> rl_epoch r' = rl_epoch r \<and> rl_steady r' = rl_steady r"
  "account_step x r r' \<Longrightarrow> rl_epoch r' = rl_epoch r \<and> rl_steady r' = rl_steady r"
  "pairing_step x r r' \<Longrightarrow> rl_epoch r' = rl_epoch r \<and> rl_steady r' = rl_steady r"
  by (auto elim!: command_step.cases upload_step.cases account_step.cases pairing_step.cases)

lemma steady_before: "relay_step x r r' \<Longrightarrow> rl_steady r' \<Longrightarrow> rl_steady r"
  by (auto elim!: relay_step.cases screen_step.cases resolve_step.cases socket_step.cases dest: other_epochs)

lemma capture_refined:
  assumes "relay_step x r r'" "rl_steady r'" "capture_reachable (capture_view r)"
  shows "capture_reachable (capture_view r')"
proof -
  have r: "capture_reachable \<lparr>ca_app = rl_app r, ca_epoch = rl_epoch r\<rparr>"
    using assms(3) by (simp add: capture_view_def)
  have keep: "capture_reachable (capture_view r')"
    if "touches A (rl_app r) (rl_app r')" "P_screen \<notin> A" "rl_epoch r' = rl_epoch r" for A
    using capture_steps(8) [OF r that(1,2)] that(3) by (simp add: capture_view_def)
  from assms(1) show ?thesis
  proof (cases rule: relay_step.cases)
    case rs_screen then show ?thesis using assms(2,3) by (rule screen_step_capture)
  next
    case rs_resolve then show ?thesis using assms(3) by (rule resolve_step_capture)
  next
    case rs_socket then show ?thesis using assms(2,3) by (rule socket_step_capture)
  next
    case rs_command then show ?thesis
      using keep [OF command_step_touches] other_epochs(1) by simp
  next
    case rs_upload then show ?thesis
      using keep [OF upload_step_touches] other_epochs(2) by simp
  next
    case rs_account then show ?thesis
      using keep [OF account_step_touches] other_epochs(3) by simp
  next
    case rs_pairing then show ?thesis
      using keep [OF pairing_step_touches] other_epochs(4) by simp
  next
    case (rs_quiet s') then show ?thesis
      using keep [of "{}"] quiet_touches by simp
  next
    case (rs_cleanup now) then show ?thesis
      using capture_steps(4) [OF r] by (simp add: capture_view_def)
  qed
qed


section \<open>Commands\<close>

text \<open>Where a handler queues a command, and where one is answered.\<close>

lemma forward_start_Inr:
  assumes "forward_start now d tok kind cid payload s = (Inr c, s')"
  shows "c = cid" "viewer_ok now d tok s"
    and "\<exists>s1. touches {} s s1 \<and> s' = queue_command now d cid kind payload s1"
proof -
  let ?s1 = "s\<lparr>viewer_sessions := viewers_touched now d tok s\<rparr>"
  have "c = cid \<and> viewer_ok now d tok s \<and> s' = queue_command now d cid kind payload ?s1"
    using assms by (auto simp: forward_start_def validate_viewer_eq Let_def split: if_splits option.splits)
  moreover have "touches {} s ?s1" by simp
  ultimately show "c = cid" "viewer_ok now d tok s"
    and "\<exists>s1. touches {} s s1 \<and> s' = queue_command now d cid kind payload s1"
    by blast+
qed

lemma resolve_Resolved:
  assumes "resolve_preview now d headers vt cid q s = (Resolved resp, s')"
  shows "s' = remove_preview_state d s \<or> touches {P_viewers} s s'"
proof -
  have sa: "touches {P_viewers} s (snd (same_account now q reg s))" for reg
    by (rule touches_mono [OF touches_same_account]) simp
  have gr: "touches {P_viewers} t (snd (grant_viewer now headers d vt reg t))" for reg t
    by (simp add: touches_def all_parts grant_viewer_def same_commands_def)
  have sg: "touches {P_viewers} s t'"
    if "same_account now q reg s = (b, t)" "grant_viewer now headers d vt reg t = (resp', t')" for reg b t resp' t'
    using touches_trans [OF sa [of reg] gr [of t reg for t]] that
    by (metis gr sa snd_conv touches_trans)
  show ?thesis
    using assms sa
    by (auto simp: resolve_preview_def Let_def intro: sg touches_eq split: option.splits if_splits prod.splits bool.splits)
qed

lemma resolve_Waiting:
  assumes "resolve_preview now d headers vt cid q s = (Waiting ht reg, s')"
  shows "\<exists>s1 p. touches {} s s1 \<and> s' = queue_command now d cid ''incoming_request'' p s1"
proof -
  have sa: "touches {} s t" if "same_account now q reg s = (b, t)" for reg b t
    using touches_same_account [of s now q reg] that by simp
  show ?thesis
    using assms
    by (auto simp: resolve_preview_def Let_def grant_viewer_def split: option.splits if_splits prod.splits bool.splits
        dest!: sa)
qed

lemma resolve_finish_Some:
  assumes "resolve_preview_finish now d headers vt cid ht reg to s = (Some resp, s')"
  shows "\<exists>outcome s1. forward_finish cid to s = (Some outcome, s1) \<and> touches {P_viewers} s1 s'"
  using assms
  by (auto simp: resolve_preview_finish_def Let_def grant_viewer_def touches_def all_parts same_commands_def
      split: option.splits if_splits prod.splits)

lemma file_finish_Some:
  assumes "file_upload_finish fid cid sz to s = (Some resp, s')"
  shows "\<exists>outcome s1. forward_finish cid to s = (Some outcome, s1) \<and> s' = relay_file_end fid sz s1"
  using assms by (auto simp: file_upload_finish_def split: option.splits sum.splits prod.splits)

lemma file_start_eq:
  assumes "relay_file_start now q name fid cid data s = (res, s')"
  shows "\<exists>kind payload. forward_start now (uq_device_id q) (uq_token q) kind cid payload
      (s\<lparr>file_store := hput fid \<lparr>fb_data = data, fb_filename = name, fb_created_at_ms = now,
          fb_device_id = uq_device_id q\<rparr> (file_store s)\<rparr>) = (res, s')"
  using assms unfolding relay_file_start_def Let_def by blast

text \<open>
  A property of the queues and the answers that other components cannot break: the sweep, the removal
  of a registration and the screens keep it.
\<close>

locale command_part =
  fixes I :: "app_state \<Rightarrow> bool"
  assumes unmoved: "I s \<Longrightarrow> same_commands s s' \<Longrightarrow> I s'"
    and dropped: "I s \<Longrightarrow> I (s\<lparr>command_queues := hrem d (command_queues s)\<rparr>)"
    and expired: "I s \<Longrightarrow> I (expire_stale_device_commands now d s)"
begin

lemma keep: "I s \<Longrightarrow> touches A s s' \<Longrightarrow> P_commands \<notin> A \<Longrightarrow> I s'"
  by (blast intro: unmoved touchesD(4))

lemma each: "(\<And>y t. I t \<Longrightarrow> I (f y t)) \<Longrightarrow> I s \<Longrightarrow> I (fold f ys s)"
  by (induction ys arbitrary: s) simp_all

lemma removed: "I s \<Longrightarrow> I (remove_preview_state d s)"
proof -
  assume I: "I s"
  let ?s1 = "disconnect_viewers_for_device d s"
  let ?s2 = "?s1\<lparr>command_queues := hrem d (command_queues ?s1)\<rparr>"
  have "I ?s2"
    by (rule dropped [OF keep [OF I touches_disconnect_for]]) simp
  moreover have "touches {P_screen} ?s2 (remove_preview_state d s)"
    by (simp add: remove_preview_state_def Let_def touches_def all_parts same_commands_def viewers_kept_same)
  ultimately show ?thesis by (rule keep) simp
qed

lemma swept: "I s \<Longrightarrow> I (cleanup_expired now s)"
proof -
  assume I: "I s"
  have rm: "I (fold remove_preview_state ds s)" for ds
    by (rule each [OF removed I])
  have up: "I t \<Longrightarrow> I (t\<lparr>account_presence := a\<rparr>)" "I t \<Longrightarrow> I (t\<lparr>auth_sessions := b\<rparr>)"
    "I t \<Longrightarrow> I (prune_all_demands now t)" for t a b
    by (auto elim: keep [where A = "{P_screen}"] intro: touches_prune)
  have vs: "I t \<Longrightarrow> I (t\<lparr>viewer_sessions := v\<rparr>)" "I t \<Longrightarrow> I (t\<lparr>file_store := m\<rparr>)" for t v m
    by (auto elim!: keep [where A = "{P_viewers, P_files}"] simp: touches_def all_parts same_commands_def)
  have ex: "I t \<Longrightarrow> I (fold (expire_stale_device_commands now) ks t)" for ks t
    by (rule each [OF expired])
  show ?thesis
    unfolding cleanup_expired_def Let_def by (intro vs ex up rm)
qed

lemma screened: "screen_op s s' \<Longrightarrow> I s \<Longrightarrow> I s'"
proof -
  assume I: "I s"
  have un: "I (snd (unregister_preview now d ht s))" for now d ht
    using I by (simp add: unregister_preview_def removed)
  show "screen_op s s' \<Longrightarrow> I s'"
    by (cases rule: screen_op.cases, assumption)
      (auto intro: un keep [OF I] touches_fetch touches_demand touches_stop touches_close touches_disconnect)
qed

lemma refused: "resolve_preview now d headers vt cid q s = (Resolved resp, s') \<Longrightarrow> I s \<Longrightarrow> I s'"
  by (auto dest!: resolve_Resolved intro: removed keep)

end

text \<open>And one that taking a command from a queue and reading an answer keep as well.\<close>

locale command_facts = command_part +
  assumes taken: "I s \<Longrightarrow> I (snd (poll_turn now d s))"
    and answered: "I s \<Longrightarrow> I (snd (forward_finish cid to s))"
begin

lemma polled: "poll_turn now d s = (c, s') \<Longrightarrow> I s \<Longrightarrow> I s'"
  using taken [of s now d] by simp

lemma finished: "forward_finish cid to s = (outcome, s') \<Longrightarrow> I s \<Longrightarrow> I s'"
  using answered [of s cid to] by simp

lemma host_answered: "resolve_preview_finish now d headers vt cid ht reg to s = (Some resp, s') \<Longrightarrow> I s \<Longrightarrow> I s'"
  by (auto dest!: resolve_finish_Some intro: keep finished)

lemma transferred: "file_upload_finish fid cid sz to s = (Some resp, s') \<Longrightarrow> I s \<Longrightarrow> I s'"
  by (auto dest!: file_finish_Some intro: keep [OF _ touches_file_end] finished)

end

text \<open>A socket's turn queues its command and waits for it, or leaves the queues alone and does not wait.\<close>

definition socket_outcome ::
  "relay_part set \<Rightarrow> ms \<Rightarrow> string \<Rightarrow> string \<Rightarrow> string \<Rightarrow> viewer_loop \<Rightarrow> app_state \<Rightarrow> app_state \<Rightarrow> bool" where
  "socket_outcome A now d tok cid loop s s' \<longleftrightarrow>
     touches A s s' \<and> (\<forall>c. loop \<noteq> Forwarding c) \<or>
     loop = Forwarding cid \<and> viewer_ok now d tok s \<and>
       (\<exists>s1 kind payload. touches {} s s1 \<and> s' = queue_command now d cid kind payload s1)"

lemma socket_outcomeI: "touches A s s' \<Longrightarrow> (\<And>c. loop \<noteq> Forwarding c) \<Longrightarrow> socket_outcome A now d tok cid loop s s'"
  by (simp add: socket_outcome_def)

lemma socket_outcome_mono: "socket_outcome {} now d tok cid loop s s' \<Longrightarrow> socket_outcome A now d tok cid loop s s'"
  unfolding socket_outcome_def by (blast intro: touches_mono)

lemma viewer_text_outcome:
  assumes "ws_viewer_text pj now d tok cid m s = (loop', s')"
  shows "socket_outcome {} now d tok cid loop' s s'"
proof -
  let ?s1 = "s\<lparr>viewer_sessions := viewers_touched now d tok s\<rparr>"
  have 1: "touches {} s ?s1" by simp
  have 2: "touches {} s (?s1\<lparr>ws_host_cmd_tx := w\<rparr>)" for w by (rule touches_trans [OF 1]) simp
  have in_: "socket_outcome {} now d tok cid (Forwarding c) s s2"
    if fs: "forward_start now d tok k cid p ?s1 = (Inr c, s2)" for k p c s2
  proof -
    obtain s3 where "touches {} ?s1 s3" "s2 = queue_command now d cid k p s3"
      using forward_start_Inr(3) [OF fs] by blast
    moreover have "viewer_ok now d tok s"
      using forward_start_Inr(2) [OF fs] by simp
    ultimately show ?thesis
      using forward_start_Inr(1) [OF fs] touches_trans [OF 1] unfolding socket_outcome_def by blast
  qed
  have out: "touches {} s s2" if "forward_start now d tok k cid p ?s1 = (Inl e, s2)" for k p e s2
    using touches_trans [OF 1 quiet_touches [OF qo_forward_refused [OF that]]] .
  show ?thesis
    using assms 1 2
    by (auto simp: ws_viewer_text_def validate_viewer_eq Let_def split: if_splits option.splits prod.splits sum.splits
        dest: out intro: in_ socket_outcomeI)
qed

lemma viewer_turn_Running:
  assumes "ws_viewer_turn pj now d tok key cid e Running s = (out, loop', s')"
  shows "socket_outcome {P_screen} now d tok cid loop' s s'"
proof -
  have tx: "socket_outcome {P_screen} now d tok cid loop' s s'"
    if "ws_viewer_text pj now d tok cid m s = (loop', s')" for m
    by (rule socket_outcome_mono [OF viewer_text_outcome [OF that]])
  have re: "touches {P_screen} s s2" if "renew_screen_lease now d tok key s = (b, s2)" for b s2
    using touches_renew [of s now d tok key] that by simp
  show ?thesis
    using assms
    by (cases e) (auto simp: ws_viewer_turn_def Let_def split: if_splits option.splits ws_message.splits prod.splits
        intro: tx socket_outcomeI re)
qed

lemma viewer_turn_answered:
  assumes "ws_viewer_turn pj now d tok key cid e (Forwarding c) s = (out, Running, s')"
  shows "\<exists>to outcome. forward_finish c to s = (Some outcome, s')"
  using assms by (auto simp: ws_viewer_turn_def split: viewer_event.splits option.splits prod.splits)


text \<open>The moves of the command system that a handler of another component can make.\<close>

lemma cmd_moves:
  assumes "cmd_reachable \<lparr>cs_app = s, cs_issued = I, cs_waiting = W, cs_delivered = D\<rparr>"
  shows cmd_touches: "touches A s s' \<Longrightarrow> P_commands \<notin> A \<Longrightarrow>
      cmd_reachable \<lparr>cs_app = s', cs_issued = I, cs_waiting = W, cs_delivered = D\<rparr>"
    and cmd_expire: "cmd_reachable \<lparr>cs_app = expire_stale_device_commands now d s, cs_issued = I,
      cs_waiting = W, cs_delivered = D\<rparr>"
    and cmd_result: "cmd_reachable \<lparr>cs_app = send_result cid res s, cs_issued = I, cs_waiting = W,
      cs_delivered = D\<rparr>"
    and cmd_cancel: "cmd_reachable \<lparr>cs_app = s, cs_issued = I, cs_waiting = W - {cid}, cs_delivered = D\<rparr>"
    and cmd_queue: "cid \<notin> I \<Longrightarrow> cmd_reachable \<lparr>cs_app = queue_command now d cid kind payload s,
      cs_issued = insert cid I, cs_waiting = insert cid W, cs_delivered = D\<rparr>"
    and cmd_answer: "cid \<in> W \<Longrightarrow> forward_finish cid to s = (Some outcome, s') \<Longrightarrow>
      cmd_reachable \<lparr>cs_app = s', cs_issued = I, cs_waiting = W - {cid}, cs_delivered = D\<rparr>"
    and cmd_poll: "poll_turn now d s = (Some cmd, s') \<Longrightarrow> cmd_reachable \<lparr>cs_app = s', cs_issued = I,
      cs_waiting = W, cs_delivered = D @ [pc_command_id cmd]\<rparr>"
    and cmd_poll_none: "poll_turn now d s = (None, s') \<Longrightarrow>
      cmd_reachable \<lparr>cs_app = s', cs_issued = I, cs_waiting = W, cs_delivered = D\<rparr>"
    and cmd_drop: "cmd_reachable \<lparr>cs_app = s\<lparr>command_queues := hrem d (command_queues s)\<rparr>, cs_issued = I,
      cs_waiting = W, cs_delivered = D\<rparr>"
proof -
  note go = cmd_next [OF assms]
  show "touches A s s' \<Longrightarrow> P_commands \<notin> A \<Longrightarrow>
      cmd_reachable \<lparr>cs_app = s', cs_issued = I, cs_waiting = W, cs_delivered = D\<rparr>"
    using go [OF cs_Other] touchesD(4) [of A s s'] by simp
  show "cmd_reachable \<lparr>cs_app = expire_stale_device_commands now d s, cs_issued = I, cs_waiting = W,
      cs_delivered = D\<rparr>"
    using go [OF cs_Expire] by simp
  show "cmd_reachable \<lparr>cs_app = send_result cid res s, cs_issued = I, cs_waiting = W, cs_delivered = D\<rparr>"
    using go [OF cs_Result] by simp
  show "cmd_reachable \<lparr>cs_app = s, cs_issued = I, cs_waiting = W - {cid}, cs_delivered = D\<rparr>"
    using go [OF cs_Cancel] by simp
  show "cid \<notin> I \<Longrightarrow> cmd_reachable \<lparr>cs_app = queue_command now d cid kind payload s,
      cs_issued = insert cid I, cs_waiting = insert cid W, cs_delivered = D\<rparr>"
    using go [OF cs_Queue, of cid now d kind payload] by simp
  show "cid \<in> W \<Longrightarrow> forward_finish cid to s = (Some outcome, s') \<Longrightarrow>
      cmd_reachable \<lparr>cs_app = s', cs_issued = I, cs_waiting = W - {cid}, cs_delivered = D\<rparr>"
    using go [OF cs_Answer, of cid to outcome s'] by simp
  show "poll_turn now d s = (Some cmd, s') \<Longrightarrow> cmd_reachable \<lparr>cs_app = s', cs_issued = I,
      cs_waiting = W, cs_delivered = D @ [pc_command_id cmd]\<rparr>"
    using go [OF cs_Poll, of now d cmd s'] by simp
  show "poll_turn now d s = (None, s') \<Longrightarrow>
      cmd_reachable \<lparr>cs_app = s', cs_issued = I, cs_waiting = W, cs_delivered = D\<rparr>"
    using go [OF cs_Poll_none, of now d s'] by simp
  show "cmd_reachable \<lparr>cs_app = s\<lparr>command_queues := hrem d (command_queues s)\<rparr>, cs_issued = I,
      cs_waiting = W, cs_delivered = D\<rparr>"
    using go [OF cs_Drop_queue] by simp
qed

interpretation cr: command_part
  "\<lambda>s. cmd_reachable \<lparr>cs_app = s, cs_issued = I, cs_waiting = W, cs_delivered = D\<rparr>" for I W D
  by unfold_locales (auto intro: cmd_moves(2,9) dest: cmd_next [OF _ cs_Other])

lemma queued_ids_upd:
  "rl_origin r cid = None \<Longrightarrow> (\<And>d t. og \<noteq> Sent_by d t) \<Longrightarrow> rl_origin r' = (rl_origin r)(cid \<mapsto> og) \<Longrightarrow>
     queued_ids r' = insert cid (queued_ids r)"
  "rl_origin r cid = None \<Longrightarrow> rl_origin r' = (rl_origin r)(cid \<mapsto> Sent_by d t) \<Longrightarrow> queued_ids r' = queued_ids r"
  "rl_origin r' = rl_origin r \<Longrightarrow> queued_ids r' = queued_ids r"
  by (auto simp: queued_ids_def split: if_splits)

lemma fresh_not_queued: "rl_origin r cid = None \<Longrightarrow> cid \<notin> queued_ids r"
  by (simp add: queued_ids_def)


lemma command_viewI:
  "cmd_reachable \<lparr>cs_app = rl_app r', cs_issued = queued_ids r', cs_waiting = dom (rl_pending r'),
     cs_delivered = map snd (rl_delivered r')\<rparr> \<Longrightarrow> cmd_reachable (command_view r')"
  by (simp add: command_view_def)

lemma cmd_keep:
  assumes "cmd_reachable (command_view r)" "touches A (rl_app r) (rl_app r')" "P_commands \<notin> A"
    and "queued_ids r' = queued_ids r" "rl_pending r' = rl_pending r" "rl_delivered r' = rl_delivered r"
  shows "cmd_reachable (command_view r')"
  by (rule command_viewI, unfold assms(4-6))
    (rule cmd_touches [OF assms(1) [unfolded command_view_def] assms(2,3)])

lemma cmd_keep_origin:
  assumes "cmd_reachable (command_view r)" "touches A (rl_app r) (rl_app r')" "P_commands \<notin> A"
    and "rl_origin r' = rl_origin r" "rl_pending r' = rl_pending r" "rl_delivered r' = rl_delivered r"
  shows "cmd_reachable (command_view r')"
  by (rule cmd_keep [OF assms(1-3) queued_ids_upd(3) assms(5,6)]) (rule assms(4))

text \<open>A handler that queues its command and waits, and one that is answered or gives up.\<close>

lemma cmd_queued:
  assumes "cmd_reachable (command_view r)" "rl_origin r cid = None"
    and "touches A (rl_app r) s1" "P_commands \<notin> A" "rl_app r' = queue_command now d cid kind payload s1"
    and "rl_origin r' = (rl_origin r)(cid \<mapsto> og)" "\<And>d t. og \<noteq> Sent_by d t"
    and "rl_pending r' = (rl_pending r)(cid \<mapsto> h)" "rl_delivered r' = rl_delivered r"
  shows "cmd_reachable (command_view r')"
proof (rule command_viewI)
  have "cmd_reachable \<lparr>cs_app = s1, cs_issued = queued_ids r, cs_waiting = dom (rl_pending r),
      cs_delivered = map snd (rl_delivered r)\<rparr>"
    by (rule cmd_touches [OF assms(1) [unfolded command_view_def] assms(3,4)])
  from cmd_queue [OF this fresh_not_queued [OF assms(2)], of now d kind payload]
  show "cmd_reachable \<lparr>cs_app = rl_app r', cs_issued = queued_ids r', cs_waiting = dom (rl_pending r'),
      cs_delivered = map snd (rl_delivered r')\<rparr>"
    by (simp add: assms(5,8,9) queued_ids_upd(1) [OF assms(2,7,6)])
qed

lemma cmd_answered:
  assumes "cmd_reachable (command_view r)" "rl_pending r cid = Some h"
    and "forward_finish cid to (rl_app r) = (Some outcome, s1)" "touches A s1 (rl_app r')" "P_commands \<notin> A"
    and "rl_origin r' = rl_origin r" "rl_pending r' = (rl_pending r)(cid := None)" "rl_delivered r' = rl_delivered r"
  shows "cmd_reachable (command_view r')"
proof (rule command_viewI)
  have "cmd_reachable \<lparr>cs_app = s1, cs_issued = queued_ids r, cs_waiting = dom (rl_pending r) - {cid},
      cs_delivered = map snd (rl_delivered r)\<rparr>"
    by (rule cmd_answer [OF assms(1) [unfolded command_view_def] _ assms(3)]) (simp add: assms(2) domI)
  from cmd_touches [OF this assms(4,5)]
  show "cmd_reachable \<lparr>cs_app = rl_app r', cs_issued = queued_ids r', cs_waiting = dom (rl_pending r'),
      cs_delivered = map snd (rl_delivered r')\<rparr>"
    by (simp add: assms(7,8) queued_ids_upd(3) [OF assms(6)])
qed

lemma cmd_given_up:
  assumes "cmd_reachable (command_view r)" "touches A (rl_app r) (rl_app r')" "P_commands \<notin> A"
    and "rl_origin r' = rl_origin r" "rl_pending r' = (rl_pending r)(cid := None)" "rl_delivered r' = rl_delivered r"
  shows "cmd_reachable (command_view r')"
proof (rule command_viewI)
  from cmd_cancel [OF cmd_touches [OF assms(1) [unfolded command_view_def] assms(2,3)], of cid]
  show "cmd_reachable \<lparr>cs_app = rl_app r', cs_issued = queued_ids r', cs_waiting = dom (rl_pending r'),
      cs_delivered = map snd (rl_delivered r')\<rparr>"
    by (simp add: assms(5,6) queued_ids_upd(3) [OF assms(4)])
qed

lemma resolve_step_cmd:
  assumes step: "resolve_step x r r'" and r: "cmd_reachable (command_view r)"
  shows "cmd_reachable (command_view r')"
  using step
proof (cases rule: resolve_step.cases)
  case (rs_Resolve now d headers vt cid q resp s')
  have q: "queued_ids r' = queued_ids r" by (rule queued_ids_upd(3)) (simp add: rs_Resolve(1))
  show ?thesis
    using resolve_Resolved [OF rs_Resolve(2)]
  proof
    assume s': "s' = remove_preview_state d (rl_app r)"
    show ?thesis
      by (rule command_viewI, unfold q)
        (use cr.removed [OF r [unfolded command_view_def], of d] in \<open>simp add: rs_Resolve(1) s'\<close>)
  next
    assume "touches {P_viewers} (rl_app r) s'"
    then show ?thesis by (intro cmd_keep [OF r, where A = "{P_viewers}"] q) (simp_all add: rs_Resolve(1))
  qed
next
  case (rs_Resolve_wait cid now d headers vt q ht reg s')
  then show ?thesis
    using resolve_Waiting [OF rs_Resolve_wait(3)] by (auto intro: cmd_queued [OF r])
next
  case (rs_Resolve_finish cid d vt ht reg now headers to resp s')
  then show ?thesis
    using resolve_finish_Some [OF rs_Resolve_finish(3)]
    by (auto intro: cmd_answered [OF r rs_Resolve_finish(2), where A = "{P_viewers}"])
qed

lemma command_step_cmd:
  assumes step: "command_step x r r'" and r: "cmd_reachable (command_view r)"
  shows "cmd_reachable (command_view r')"
proof -
  note r0 = r [unfolded command_view_def]
  from step show ?thesis
  proof (cases rule: command_step.cases)
    case (rs_Command cid now d tok c s')
    from forward_start_Inr(3) [OF rs_Command(3) [unfolded send_command_def]] rs_Command(1,2) show ?thesis
      by (auto intro: cmd_queued [OF r])
  next
    case (rs_List cid now d tok path s')
    let ?s1 = "(rl_app r)\<lparr>viewer_sessions := viewers_touched now d tok (rl_app r)\<rparr>"
    have "forward_start now d tok ''file_list'' cid (JObj [(''path'', JStr path)]) ?s1 = (Inr cid, s')"
      using rs_List(3) by (auto simp: file_list_start_def validate_viewer_eq split: if_splits)
    with forward_start_Inr(3) obtain s1 where s1: "touches {} ?s1 s1"
      "s' = queue_command now d cid ''file_list'' (JObj [(''path'', JStr path)]) s1" by blast
    have "touches {} (rl_app r) s1" by (rule touches_trans [OF _ s1(1)]) simp
    with rs_List(1,2) s1(2) show ?thesis by (auto intro: cmd_queued [OF r])
  next
    case (rs_Command_finish cid to outcome s')
    then show ?thesis by (auto intro: cmd_answered [OF r rs_Command_finish(2,3), where A = "{}"])
  next
    case (rs_Hang_up cid h d vt ht reg)
    then show ?thesis by (auto intro: cmd_given_up [OF r, where A = "{}"])
  next
    case (rs_Poll_begin now d ht)
    then show ?thesis by (intro cmd_keep_origin [OF r, where A = "{}"]) simp_all
  next
    case (rs_Poll d now cmd s')
    have "queued_ids r' = queued_ids r" by (rule queued_ids_upd(3)) (simp add: rs_Poll(1))
    with cmd_poll [OF r0 rs_Poll(3)] show ?thesis by (intro command_viewI) (simp add: rs_Poll(1))
  next
    case (rs_Poll_none d now s')
    have "queued_ids r' = queued_ids r" by (rule queued_ids_upd(3)) (simp add: rs_Poll_none(1))
    with cmd_poll_none [OF r0 rs_Poll_none(3)] show ?thesis by (intro command_viewI) (simp add: rs_Poll_none(1))
  next
    case (rs_Complete now d ht cid ok answer)
    have "queued_ids r' = queued_ids r" by (rule queued_ids_upd(3)) (simp add: rs_Complete(1))
    with cmd_result [OF r0] r0 show ?thesis
      by (intro command_viewI) (simp add: rs_Complete(1) complete_host_command_def)
  qed
qed


lemma host_message_cases:
  "(\<exists>cid res. snd (ws_host_message pr now d msg s) = send_result cid res s) \<or>
   touches {P_screen} s (snd (ws_host_message pr now d msg s))"
proof (cases msg)
  case (Binary b)
  have "touches {P_screen} s ((broadcast_frame d f s)\<lparr>frames := g\<rparr>)" for f g
    by (simp add: touches_def all_parts same_commands_def viewers_kept_same)
  then show ?thesis by (simp add: Binary ws_host_message_def Let_def split: option.split)
next
  case (Text m)
  then show ?thesis by (cases "pr m") (auto simp: ws_host_message_def)
qed (simp_all add: ws_host_message_def)

lemma socket_step_cmd:
  assumes step: "socket_step x r r'" and r: "cmd_reachable (command_view r)"
    and waits: "\<And>key d tok c. rl_viewers r key = Some (d, tok, Forwarding c) \<Longrightarrow> rl_pending r c = Some (H_socket key)"
  shows "cmd_reachable (command_view r')"
proof -
  note r0 = r [unfolded command_view_def]
  from step show ?thesis
  proof (cases rule: socket_step.cases)
    case (rs_Host_open now d ht)
    then show ?thesis by (intro cmd_keep_origin [OF r, where A = "{}"]) (simp_all add: touches_host_open)
  next
    case (rs_Host_message d msg now)
    have q: "queued_ids r' = queued_ids r" by (rule queued_ids_upd(3)) (simp add: rs_Host_message(1))
    show ?thesis
      using host_message_cases [of "ex_parse_result x" now d msg "rl_app r"]
    proof
      assume "\<exists>cid res. snd (ws_host_message (ex_parse_result x) now d msg (rl_app r)) = send_result cid res (rl_app r)"
      then obtain cid res where m: "rl_app r' = send_result cid res (rl_app r)" by (auto simp: rs_Host_message(1))
      show ?thesis
        by (rule command_viewI, unfold m q) (use cmd_result [OF r0] in \<open>simp add: rs_Host_message(1)\<close>)
    next
      assume "touches {P_screen} (rl_app r) (snd (ws_host_message (ex_parse_result x) now d msg (rl_app r)))"
      then show ?thesis by (intro cmd_keep [OF r _ _ q]) (auto simp: rs_Host_message(1))
    qed
  next
    case (rs_Viewer_open key now d tok loop s')
    have "touches {P_screen} (rl_app r) s'" by (rule touches_eq [OF rs_Viewer_open(3) touches_viewer_open])
    with rs_Viewer_open(1) show ?thesis by (intro cmd_keep_origin [OF r]) auto
  next
    case (rs_Viewer_queued key d tok cid now e out c s')
    from viewer_turn_Running [OF rs_Viewer_queued(4)] obtain s1 kind payload where
      "c = cid" "touches {} (rl_app r) s1" "s' = queue_command now d cid kind payload s1"
      by (auto simp: socket_outcome_def)
    with rs_Viewer_queued(1,3) show ?thesis by (auto intro: cmd_queued [OF r])
  next
    case (rs_Viewer_answered key d tok c now cid e out s')
    from viewer_turn_answered [OF rs_Viewer_answered(3)] obtain to outcome where
      f: "forward_finish c to (rl_app r) = (Some outcome, s')" by blast
    from rs_Viewer_answered(1) show ?thesis
      by (auto intro: cmd_answered [OF r waits [OF rs_Viewer_answered(2)] f, where A = "{}"])
  next
    case (rs_Viewer_turn key d tok cid e now out s')
    from viewer_turn_Running [OF rs_Viewer_turn(5)] have "touches {P_screen} (rl_app r) s'"
      by (auto simp: socket_outcome_def)
    moreover have "queued_ids r' = queued_ids r"
      using queued_ids_upd(2) [OF rs_Viewer_turn(3), of r'] queued_ids_upd(3) [of r' r] by (simp add: rs_Viewer_turn(1))
    ultimately show ?thesis by (intro cmd_keep [OF r]) (auto simp: rs_Viewer_turn(1))
  next
    case (rs_Viewer_end key d tok e now cid out s')
    from viewer_turn_Running [OF rs_Viewer_end(4)] have "touches {P_screen} (rl_app r) s'"
      by (auto simp: socket_outcome_def)
    from touches_trans [OF this touches_release] rs_Viewer_end(1) show ?thesis
      by (intro cmd_keep_origin [OF r, where A = "{P_screen}"]) simp_all
  qed
qed

lemma upload_step_cmd:
  assumes step: "upload_step x r r'" and r: "cmd_reachable (command_view r)"
  shows "cmd_reachable (command_view r')"
proof -
  have keep: ?thesis if "touches {P_files} (rl_app r) (rl_app r')" "rl_origin r' = rl_origin r"
    "rl_pending r' = rl_pending r" "rl_delivered r' = rl_delivered r"
    by (rule cmd_keep_origin [OF r that(1)]) (simp_all add: that)
  have st: "touches {P_files} s (s\<lparr>file_store := m\<rparr>)" for s m
    by (simp add: touches_def all_parts same_commands_def viewers_kept_same)
  from step show ?thesis
  proof (cases rule: upload_step.cases)
    case (rs_Admit now q h name sz s' fid)
    then show ?thesis by (intro keep) (auto intro: touches_eq [OF _ touches_admit])
  next
    case (rs_File_refused now q h e s')
    then show ?thesis by (intro keep) (auto intro: touches_eq [OF _ touches_admit])
  next
    case (rs_Incomplete fid sz received)
    then show ?thesis by (intro keep) (auto intro: touches_drop_reservation)
  next
    case (rs_Stored fid sz q name received data cid now s')
    from file_start_eq [OF rs_Stored(6)] obtain kind payload s0 where
      f: "touches {P_files} (rl_app r) s0"
        "forward_start now (uq_device_id q) (uq_token q) kind cid payload s0 = (Inr cid, s')"
      using st by blast
    from forward_start_Inr(3) [OF f(2)] obtain s1 where s1: "touches {} s0 s1"
      "s' = queue_command now (uq_device_id q) cid kind payload s1" by blast
    have "touches {P_files} (rl_app r) s1"
      by (rule touches_trans [OF f(1) touches_mono [OF s1(1)]]) simp
    with s1(2) rs_Stored(1,5) show ?thesis by (auto intro: cmd_queued [OF r])
  next
    case (rs_Store_refused fid sz q name received data now cid status s')
    from file_start_eq [OF rs_Store_refused(5)] obtain kind payload s0 where
      f: "touches {P_files} (rl_app r) s0"
        "forward_start now (uq_device_id q) (uq_token q) kind cid payload s0 = (Inl status, s')"
      using st by blast
    have "touches {P_files} s0 s'"
      by (rule touches_mono [OF quiet_touches [OF qo_forward_refused [OF f(2)]]]) simp
    with f(1) have "touches {P_files} (rl_app r) (relay_file_end fid sz s')"
      by (blast intro: touches_trans touches_file_end)
    with rs_Store_refused(1) show ?thesis by (intro keep) auto
  next
    case (rs_File_finish cid fid sz to resp s')
    from file_finish_Some [OF rs_File_finish(3)] obtain outcome s1 where
      f: "forward_finish cid to (rl_app r) = (Some outcome, s1)" "s' = relay_file_end fid sz s1" by blast
    show ?thesis
      by (rule cmd_answered [OF r rs_File_finish(2) f(1), where A = "{P_files}"])
        (simp_all add: rs_File_finish(1) f(2) touches_file_end)
  next
    case (rs_File_hang_up cid fid sz)
    show ?thesis
      by (rule cmd_given_up [OF r, where A = "{P_files}" and cid = cid])
        (simp_all add: rs_File_hang_up(1) touches_file_end)
  next
    case (rs_Collect now fid d ht resp s')
    then show ?thesis by (intro keep) (auto intro: touches_eq [OF _ touches_collect])
  qed
qed

lemma other_commands:
  "screen_step x r r' \<Longrightarrow> rl_origin r' = rl_origin r \<and> rl_pending r' = rl_pending r \<and> rl_delivered r' = rl_delivered r"
  "account_step x r r' \<Longrightarrow> rl_origin r' = rl_origin r \<and> rl_pending r' = rl_pending r \<and> rl_delivered r' = rl_delivered r"
  "pairing_step x r r' \<Longrightarrow> rl_origin r' = rl_origin r \<and> rl_pending r' = rl_pending r \<and> rl_delivered r' = rl_delivered r"
  by (auto elim!: screen_step.cases account_step.cases pairing_step.cases)

lemma screen_step_cmd:
  assumes "screen_step x r r'" "cmd_reachable (command_view r)"
  shows "cmd_reachable (command_view r')"
proof (rule command_viewI)
  have q: "queued_ids r' = queued_ids r" by (rule queued_ids_upd(3)) (simp add: other_commands(1) [OF assms(1)])
  note r0 = assms(2) [unfolded command_view_def]
  have "cmd_reachable \<lparr>cs_app = rl_app r', cs_issued = queued_ids r, cs_waiting = dom (rl_pending r),
      cs_delivered = map snd (rl_delivered r)\<rparr>"
    using assms(1)
    by (cases rule: screen_step.cases)
      (auto intro: cr.screened [OF _ r0] cmd_touches [OF r0] touches_register touches_eq [OF _ touches_upload_frame])
  then show "cmd_reachable \<lparr>cs_app = rl_app r', cs_issued = queued_ids r', cs_waiting = dom (rl_pending r'),
      cs_delivered = map snd (rl_delivered r')\<rparr>"
    by (simp add: q other_commands(1) [OF assms(1)])
qed

lemma commands_refined:
  assumes "relay_step x r r'" "cmd_reachable (command_view r)"
    and "\<And>key d tok c. rl_viewers r key = Some (d, tok, Forwarding c) \<Longrightarrow> rl_pending r c = Some (H_socket key)"
  shows "cmd_reachable (command_view r')"
  using assms(1)
proof (cases rule: relay_step.cases)
  case rs_screen then show ?thesis using assms(2) by (rule screen_step_cmd)
next
  case rs_resolve then show ?thesis using assms(2) by (rule resolve_step_cmd)
next
  case rs_command then show ?thesis using assms(2) by (rule command_step_cmd)
next
  case rs_socket then show ?thesis using assms(2,3) by (rule socket_step_cmd)
next
  case rs_upload then show ?thesis using assms(2) by (rule upload_step_cmd)
next
  case rs_account then show ?thesis
    using cmd_keep_origin [OF assms(2) account_step_touches [OF rs_account]] other_commands(2) [OF rs_account]
    by simp
next
  case rs_pairing then show ?thesis
    using cmd_keep_origin [OF assms(2) pairing_step_touches [OF rs_pairing]] other_commands(3) [OF rs_pairing]
    by simp
next
  case (rs_quiet s') then show ?thesis
    using cmd_keep_origin [OF assms(2), of "{}" r'] quiet_touches by simp
next
  case (rs_cleanup now)
  have "queued_ids r' = queued_ids r" by (rule queued_ids_upd(3)) (simp add: rs_cleanup)
  with cr.swept [OF assms(2) [unfolded command_view_def]] show ?thesis
    by (intro command_viewI) (simp add: rs_cleanup)
qed


section \<open>Files\<close>

lemma hrem_hput: "hrem k (hput k v m) = hrem k m"
  by transfer (simp add: delete_update_same)

lemma file_keep:
  assumes "file_reachable \<lparr>fy_app = s, fy_transfers = T\<rparr>" "touches A s s'" "P_files \<notin> A"
  shows "file_reachable \<lparr>fy_app = s', fy_transfers = T\<rparr>"
  using file_next [OF assms(1) ft_Other [of _ s']] touchesD(5,6) [OF assms(2)] assms(3)
  by (simp add: only_removes_files_def)

text \<open>An upload that ends gives its room back.\<close>

lemma file_end:
  assumes "file_reachable \<lparr>fy_app = s, fy_transfers = T\<rparr>" "hget T fid = Some (sz, True)"
  shows "file_reachable \<lparr>fy_app = relay_file_end fid sz s, fy_transfers = hrem fid T\<rparr>"
  using file_next [OF assms(1) ft_End [of _ fid sz]] assms(2) by simp

lemma upload_step_files:
  assumes step: "upload_step x r r'" and r: "file_reachable (file_view r)"
    and link: "\<And>c fid sz. rl_pending r c = Some (H_upload fid sz) \<Longrightarrow> hget (rl_transfers r) fid = Some (sz, True)"
  shows "file_reachable (file_view r')"
proof -
  note r0 = r [unfolded file_view_def]
  note go = file_next [OF r0]
  from step show ?thesis
  proof (cases rule: upload_step.cases)
    case (rs_Admit now q h name sz s' fid)
    with go [OF ft_Admit, of now q h name sz s' fid] show ?thesis by (simp add: file_view_def)
  next
    case (rs_File_refused now q h e s')
    with go [OF ft_Reject, of now q h e s'] show ?thesis by (simp add: file_view_def)
  next
    case (rs_Incomplete fid sz received)
    with go [OF ft_Abort, of fid sz] show ?thesis by (simp add: file_view_def)
  next
    case (rs_Stored fid sz q name received data cid now s')
    with go [OF ft_Store, of fid sz received data now q name cid _ s'] show ?thesis by (simp add: file_view_def)
  next
    case (rs_Store_refused fid sz q name received data now cid status s')
    with go [OF ft_Store, of fid sz received data now q name cid _ s']
    have "file_reachable \<lparr>fy_app = s', fy_transfers = hput fid (sz, True) (rl_transfers r)\<rparr>" by simp
    from file_end [OF this, of fid sz] show ?thesis by (simp add: file_view_def rs_Store_refused(1) hrem_hput)
  next
    case (rs_File_finish cid fid sz to resp s')
    from file_finish_Some [OF rs_File_finish(3)] obtain outcome s1 where
      f: "forward_finish cid to (rl_app r) = (Some outcome, s1)" "s' = relay_file_end fid sz s1" by blast
    have "file_reachable \<lparr>fy_app = s1, fy_transfers = rl_transfers r\<rparr>"
      by (rule file_keep [OF r0 touches_eq [OF f(1) touches_forward_finish]]) simp
    from file_end [OF this link [OF rs_File_finish(2)]] show ?thesis
      by (simp add: file_view_def rs_File_finish(1) f(2))
  next
    case (rs_File_hang_up cid fid sz)
    from file_end [OF r0 link [OF rs_File_hang_up(2)]] show ?thesis
      by (simp add: file_view_def rs_File_hang_up(1))
  next
    case (rs_Collect now fid d ht resp s')
    with go [OF ft_Collect, of now fid d ht resp s'] show ?thesis by (simp add: file_view_def)
  qed
qed

lemma other_transfers:
  "screen_step x r r' \<Longrightarrow> rl_transfers r' = rl_transfers r" "resolve_step x r r' \<Longrightarrow> rl_transfers r' = rl_transfers r"
  "command_step x r r' \<Longrightarrow> rl_transfers r' = rl_transfers r" "socket_step x r r' \<Longrightarrow> rl_transfers r' = rl_transfers r"
  "account_step x r r' \<Longrightarrow> rl_transfers r' = rl_transfers r" "pairing_step x r r' \<Longrightarrow> rl_transfers r' = rl_transfers r"
  by (auto elim!: screen_step.cases resolve_step.cases command_step.cases socket_step.cases account_step.cases
      pairing_step.cases)

lemma files_refined:
  assumes step: "relay_step x r r'" and r: "file_reachable (file_view r)"
    and link: "\<And>c fid sz. rl_pending r c = Some (H_upload fid sz) \<Longrightarrow> hget (rl_transfers r) fid = Some (sz, True)"
  shows "file_reachable (file_view r')"
proof -
  note r0 = r [unfolded file_view_def]
  have keep: "file_reachable (file_view r')"
    if "touches A (rl_app r) (rl_app r')" "P_files \<notin> A" "rl_transfers r' = rl_transfers r" for A
    using file_keep [OF r0 that(1,2)] that(3) by (simp add: file_view_def)
  from step show ?thesis
  proof (cases rule: relay_step.cases)
    case rs_upload then show ?thesis using r link by (rule upload_step_files)
  next
    case (rs_cleanup now)
    have "file_step \<lparr>fy_app = rl_app r, fy_transfers = rl_transfers r\<rparr> (file_view r')"
      using ft_Other [of "\<lparr>fy_app = rl_app r, fy_transfers = rl_transfers r\<rparr>" "cleanup_expired now (rl_app r)"]
        cleanup_files by (simp add: file_view_def rs_cleanup)
    with r0 show ?thesis by (rule file_next)
  next
    case (rs_quiet s') then show ?thesis using keep [of "{}"] quiet_touches by simp
  qed (auto intro: keep [OF screen_step_touches] keep [OF resolve_step_touches] keep [OF command_step_touches]
      keep [OF socket_step_touches] keep [OF account_step_touches] keep [OF pairing_step_touches]
      dest: other_transfers)
qed

section \<open>Pairing\<close>

lemma pairing_step_trace:
  assumes step: "pairing_step x r r'" and tr: "pairing_trace (ex_digest x) (rl_pairings r) (rl_app r)"
  shows "pairing_trace (ex_digest x) (rl_pairings r') (rl_app r')"
  using step
proof (cases rule: pairing_step.cases)
  case (rs_Pair_create owner raw m now rnd h name dev)
  obtain y s' where "create_locked (ex_digest x) now rnd h owner name dev (mac_normalized m) (rl_app r) = (y, s')"
    by fastforce
  from tr_create [OF tr this] this show ?thesis by (simp add: rs_Pair_create(1))
next
  case (rs_Pair_resolve owner now i b)
  obtain y s' where "phone_session (ex_digest x) now owner i b (rl_app r) = (y, s')" by fastforce
  from tr_resolve [OF tr this] this show ?thesis by (simp add: rs_Pair_resolve(1))
next
  case (rs_Pair_confirm owner now i b res s')
  then show ?thesis by (cases res) (auto intro: tr_confirm [OF tr] tr_not_confirmed [OF tr])
next
  case (rs_Pair_claim owner c s0 now i pf p h tid tok res s')
  have "pairing_trace (ex_digest x) (rl_pairings r) s0"
    by (rule tr_other [OF tr]) (simp add: rs_Pair_claim(4))
  then show ?thesis using rs_Pair_claim(1,8) by (cases res) (auto intro: tr_claim tr_not_claimed)
next
  case (rs_Pair_cancel owner now i pf)
  obtain y s' where "cancel_locked (ex_digest x) now owner i pf (rl_app r) = (y, s')" by fastforce
  from tr_cancel [OF tr this] this show ?thesis by (simp add: rs_Pair_cancel(1))
next
  case (rs_Pair_cancel_all owner creator)
  from tr_cancel_all [OF tr] show ?thesis by (simp add: rs_Pair_cancel_all(1))
next
  case (rs_Pair_sweep now)
  from tr_sweep [OF tr] show ?thesis by (simp add: rs_Pair_sweep)
qed

lemma other_pairings:
  "screen_step x r r' \<Longrightarrow> rl_pairings r' = rl_pairings r" "resolve_step x r r' \<Longrightarrow> rl_pairings r' = rl_pairings r"
  "command_step x r r' \<Longrightarrow> rl_pairings r' = rl_pairings r" "socket_step x r r' \<Longrightarrow> rl_pairings r' = rl_pairings r"
  "account_step x r r' \<Longrightarrow> rl_pairings r' = rl_pairings r" "upload_step x r r' \<Longrightarrow> rl_pairings r' = rl_pairings r"
  by (auto elim!: screen_step.cases resolve_step.cases command_step.cases socket_step.cases account_step.cases
      upload_step.cases)

lemma pairings_refined:
  assumes step: "relay_step x r r'" and tr: "pairing_trace (ex_digest x) (rl_pairings r) (rl_app r)"
  shows "pairing_trace (ex_digest x) (rl_pairings r') (rl_app r')"
proof -
  have keep: "pairing_trace (ex_digest x) (rl_pairings r') (rl_app r')"
    if "touches A (rl_app r) (rl_app r')" "P_pairings \<notin> A" "rl_pairings r' = rl_pairings r" for A
    using tr_other [OF tr touchesD(12) [OF that(1,2)]] that(3) by simp
  from step show ?thesis
  proof (cases rule: relay_step.cases)
    case rs_pairing then show ?thesis using tr by (rule pairing_step_trace)
  next
    case (rs_cleanup now) then show ?thesis
      using keep [of "{P_screen, P_commands, P_files}"] touches_cleanup by simp
  next
    case (rs_quiet s') then show ?thesis using keep [of "{}"] quiet_touches by simp
  qed (auto intro: keep [OF screen_step_touches] keep [OF resolve_step_touches] keep [OF command_step_touches]
      keep [OF socket_step_touches] keep [OF account_step_touches] keep [OF upload_step_touches]
      dest: other_pairings)
qed

end
