(* ===== verification/Relay_Flight.thy ===== *)
theory Relay_Flight
  imports Relay_Refines
begin

text \<open>
  Each handler in flight and the tables agree: a socket that forwards a command is the one waiting for
  it, an upload that waits holds its room, no two wait for one file, and what waits has been issued.
\<close>

definition in_flight_ok :: "relay_sys \<Rightarrow> bool" where
  "in_flight_ok r \<longleftrightarrow>
     (\<forall>key d tok c. rl_viewers r key = Some (d, tok, Forwarding c) \<longrightarrow> rl_pending r c = Some (H_socket key)) \<and>
     (\<forall>c fid sz. rl_pending r c = Some (H_upload fid sz) \<longrightarrow> hget (rl_transfers r) fid = Some (sz, True)) \<and>
     (\<forall>c c' fid sz sz'. rl_pending r c = Some (H_upload fid sz) \<longrightarrow> rl_pending r c' = Some (H_upload fid sz') \<longrightarrow> c = c') \<and>
     dom (rl_pending r) \<subseteq> dom (rl_origin r)"

lemma in_flight_okD:
  assumes "in_flight_ok r"
  shows "rl_viewers r key = Some (d, tok, Forwarding c) \<Longrightarrow> rl_pending r c = Some (H_socket key)"
    and "rl_pending r c = Some (H_upload fid sz) \<Longrightarrow> hget (rl_transfers r) fid = Some (sz, True)"
    and "rl_pending r c = Some (H_upload fid sz) \<Longrightarrow> rl_pending r c' = Some (H_upload fid sz') \<Longrightarrow> c = c'"
    and "rl_pending r c = Some h \<Longrightarrow> rl_origin r c \<noteq> None"
  using assms unfolding in_flight_ok_def by blast+

lemma in_flight_okI:
  assumes "\<And>key d tok c. rl_viewers r key = Some (d, tok, Forwarding c) \<Longrightarrow> rl_pending r c = Some (H_socket key)"
    and "\<And>c fid sz. rl_pending r c = Some (H_upload fid sz) \<Longrightarrow> hget (rl_transfers r) fid = Some (sz, True)"
    and "\<And>c c' fid sz sz'. rl_pending r c = Some (H_upload fid sz) \<Longrightarrow> rl_pending r c' = Some (H_upload fid sz') \<Longrightarrow> c = c'"
    and "\<And>c h. rl_pending r c = Some h \<Longrightarrow> rl_origin r c \<noteq> None"
  shows "in_flight_ok r"
  using assms unfolding in_flight_ok_def by blast

text \<open>A command of a new handler, and the end of one.\<close>

lemma in_flight_free: "in_flight_ok r \<Longrightarrow> rl_origin r cid = None \<Longrightarrow> rl_pending r cid = None"
  using in_flight_okD(4) [of r cid] by (cases "rl_pending r cid") blast+

lemma in_flight_new:
  assumes ok: "in_flight_ok r" and new: "rl_origin r cid = None"
    and r': "rl_pending r' = (rl_pending r)(cid \<mapsto> h)" "rl_origin r' = (rl_origin r)(cid \<mapsto> og)"
      "rl_transfers r' = rl_transfers r"
    and v: "\<And>key d tok c. rl_viewers r' key = Some (d, tok, Forwarding c) \<Longrightarrow>
      rl_viewers r key = Some (d, tok, Forwarding c) \<or> c = cid \<and> h = H_socket key"
    and h: "\<And>fid sz. h \<noteq> H_upload fid sz"
  shows "in_flight_ok r'"
proof (rule in_flight_okI)
  note free = in_flight_free [OF ok new]
  show "rl_pending r' c = Some (H_socket key)" if "rl_viewers r' key = Some (d, tok, Forwarding c)" for key d tok c
    using v [OF that] in_flight_okD(1) [OF ok, of key d tok c] free by (auto simp: r')
  show "hget (rl_transfers r') fid = Some (sz, True)" if "rl_pending r' c = Some (H_upload fid sz)" for c fid sz
    using that in_flight_okD(2) [OF ok, of c fid sz] h by (simp add: r' split: if_splits)
  show "c = c'" if "rl_pending r' c = Some (H_upload fid sz)" "rl_pending r' c' = Some (H_upload fid sz')" for c c' fid sz sz'
    using that in_flight_okD(3) [OF ok, of c fid sz c' sz'] h by (simp add: r' split: if_splits)
  show "rl_origin r' c \<noteq> None" if "rl_pending r' c = Some h'" for c h'
    using that in_flight_okD(4) [OF ok, of c h'] by (auto simp: r' split: if_splits)
qed

lemma in_flight_end:
  assumes ok: "in_flight_ok r"
    and r': "rl_pending r' = (rl_pending r)(cid := None)" "rl_origin r' = rl_origin r"
    and v: "\<And>key d tok c. rl_viewers r' key = Some (d, tok, Forwarding c) \<Longrightarrow>
      rl_viewers r key = Some (d, tok, Forwarding c) \<and> c \<noteq> cid"
    and t: "\<And>c fid sz. c \<noteq> cid \<Longrightarrow> rl_pending r c = Some (H_upload fid sz) \<Longrightarrow>
      hget (rl_transfers r') fid = hget (rl_transfers r) fid"
  shows "in_flight_ok r'"
proof (rule in_flight_okI)
  show "rl_pending r' c = Some (H_socket key)" if "rl_viewers r' key = Some (d, tok, Forwarding c)" for key d tok c
    using v [OF that] in_flight_okD(1) [OF ok, of key d tok c] by (simp add: r')
  show "hget (rl_transfers r') fid = Some (sz, True)" if "rl_pending r' c = Some (H_upload fid sz)" for c fid sz
    using that in_flight_okD(2) [OF ok, of c fid sz] t by (simp add: r' split: if_splits)
  show "c = c'" if "rl_pending r' c = Some (H_upload fid sz)" "rl_pending r' c' = Some (H_upload fid sz')" for c c' fid sz sz'
    using that in_flight_okD(3) [OF ok, of c fid sz c' sz'] by (simp add: r' split: if_splits)
  show "rl_origin r' c \<noteq> None" if "rl_pending r' c = Some h'" for c h'
    using that in_flight_okD(4) [OF ok, of c h'] by (simp add: r' split: if_splits)
qed

text \<open>The handler that ends was not a socket's forward.\<close>

lemma in_flight_end_other:
  assumes ok: "in_flight_ok r" and p: "rl_pending r cid = Some h" "\<And>key. h \<noteq> H_socket key"
    and r': "rl_pending r' = (rl_pending r)(cid := None)" "rl_origin r' = rl_origin r" "rl_viewers r' = rl_viewers r"
    and t: "\<And>c fid sz. c \<noteq> cid \<Longrightarrow> rl_pending r c = Some (H_upload fid sz) \<Longrightarrow>
      hget (rl_transfers r') fid = hget (rl_transfers r) fid"
  shows "in_flight_ok r'"
proof (rule in_flight_end [OF ok r'(1,2) _ t])
  show "rl_viewers r key = Some (d, tok, Forwarding c) \<and> c \<noteq> cid"
    if "rl_viewers r' key = Some (d, tok, Forwarding c)" for key d tok c
    using that in_flight_okD(1) [OF ok, of key d tok c] p r'(3) by auto
qed

lemma in_flight_same:
  assumes ok: "in_flight_ok r" and r': "rl_pending r' = rl_pending r" "rl_transfers r' = rl_transfers r"
    and og: "\<And>c. rl_origin r c \<noteq> None \<Longrightarrow> rl_origin r' c \<noteq> None"
    and v: "\<And>key d tok c. rl_viewers r' key = Some (d, tok, Forwarding c) \<Longrightarrow>
      rl_viewers r key = Some (d, tok, Forwarding c)"
  shows "in_flight_ok r'"
proof (rule in_flight_okI, unfold r')
  show "rl_origin r' c \<noteq> None" if "rl_pending r c = Some h" for c h
    using in_flight_okD(4) [OF ok that] by (rule og)
qed (use v in_flight_okD(1-3) [OF ok] in blast)+

lemma in_flight_stay:
  "in_flight_ok r \<Longrightarrow> rl_pending r' = rl_pending r \<Longrightarrow> rl_transfers r' = rl_transfers r \<Longrightarrow>
   rl_origin r' = rl_origin r \<Longrightarrow> rl_viewers r' = rl_viewers r \<Longrightarrow> in_flight_ok r'"
  by (rule in_flight_same) simp_all

lemma in_flight_room:
  assumes ok: "in_flight_ok r" and free: "\<And>sz. hget (rl_transfers r) fid \<noteq> Some (sz, True)"
    and t: "\<And>k. k \<noteq> fid \<Longrightarrow> hget (rl_transfers r') k = hget (rl_transfers r) k"
    and r': "rl_pending r' = rl_pending r" "rl_origin r' = rl_origin r" "rl_viewers r' = rl_viewers r"
  shows "in_flight_ok r'"
proof (rule in_flight_okI, unfold r')
  show "hget (rl_transfers r') k = Some (sz, True)" if p: "rl_pending r c = Some (H_upload k sz)" for c k sz
    using in_flight_okD(2) [OF ok p] free [of sz] t [of k] by (cases "k = fid") simp_all
qed (use in_flight_okD [OF ok] in blast)+

section \<open>Every step keeps them\<close>

lemma resolve_step_flight:
  assumes step: "resolve_step x r r'" and ok: "in_flight_ok r"
  shows "in_flight_ok r'"
  using step
proof (cases rule: resolve_step.cases)
  case (rs_Resolve now d headers vt cid q resp s')
  show ?thesis by (rule in_flight_stay [OF ok]) (simp_all add: rs_Resolve(1))
next
  case (rs_Resolve_wait cid now d headers vt q ht reg s')
  show ?thesis by (rule in_flight_new [OF ok rs_Resolve_wait(2), where h = "H_resolve d vt ht reg"]) (simp_all add: rs_Resolve_wait(1))
next
  case (rs_Resolve_finish cid d vt ht reg now headers timed_out resp s')
  show ?thesis by (rule in_flight_end_other [OF ok rs_Resolve_finish(2)]) (simp_all add: rs_Resolve_finish(1))
qed

lemma command_step_flight:
  assumes step: "command_step x r r'" and ok: "in_flight_ok r"
  shows "in_flight_ok r'"
  using step
proof (cases rule: command_step.cases)
  case (rs_Command cid now d tok c s')
  show ?thesis by (rule in_flight_new [OF ok rs_Command(2), where h = H_command]) (simp_all add: rs_Command(1))
next
  case (rs_List cid now d tok path s')
  show ?thesis by (rule in_flight_new [OF ok rs_List(2), where h = H_command]) (simp_all add: rs_List(1))
next
  case (rs_Command_finish cid timed_out outcome s')
  show ?thesis by (rule in_flight_end_other [OF ok rs_Command_finish(2)]) (simp_all add: rs_Command_finish(1))
next
  case (rs_Hang_up cid h d vt ht reg)
  show ?thesis by (rule in_flight_end_other [OF ok rs_Hang_up(2)]) (use rs_Hang_up(3) in \<open>auto simp: rs_Hang_up(1)\<close>)
qed (auto intro: in_flight_stay [OF ok])

lemma socket_step_flight:
  assumes step: "socket_step x r r'" and ok: "in_flight_ok r"
  shows "in_flight_ok r'"
  using step
proof (cases rule: socket_step.cases)
  case (rs_Viewer_queued key d tok cid now e out c s')
  have "c = cid" using viewer_turn_Running [OF rs_Viewer_queued(4)] by (auto simp: socket_outcome_def)
  then show ?thesis
    by (intro in_flight_new [OF ok rs_Viewer_queued(3)]) (auto simp: rs_Viewer_queued(1) split: if_splits)
next
  case (rs_Viewer_answered key d tok c now cid e out s')
  have p: "rl_pending r c = Some (H_socket key)" by (rule in_flight_okD(1) [OF ok rs_Viewer_answered(2)])
  show ?thesis
  proof (rule in_flight_end [OF ok, of _ c])
    show "rl_viewers r k = Some (d', tok', Forwarding c') \<and> c' \<noteq> c"
      if "rl_viewers r' k = Some (d', tok', Forwarding c')" for k d' tok' c'
      using that in_flight_okD(1) [OF ok, of k d' tok' c'] p by (auto simp: rs_Viewer_answered(1) split: if_splits)
  qed (simp_all add: rs_Viewer_answered(1))
qed (auto intro!: in_flight_same [OF ok] split: if_splits)

lemma upload_step_flight:
  assumes step: "upload_step x r r'" and ok: "in_flight_ok r"
  shows "in_flight_ok r'"
proof -
  have other: "fid \<noteq> fid'" if "rl_pending r cid = Some (H_upload fid sz)" "c \<noteq> cid"
    "rl_pending r c = Some (H_upload fid' sz')" for cid fid sz c fid' sz'
    using in_flight_okD(3) [OF ok, of c fid' sz' cid sz] that by blast
  from step show ?thesis
  proof (cases rule: upload_step.cases)
    case (rs_Admit now q h name sz s' fid)
    show ?thesis by (rule in_flight_room [OF ok, of fid]) (simp_all add: rs_Admit)
  next
    case (rs_File_refused now q h e s')
    show ?thesis by (rule in_flight_stay [OF ok]) (simp_all add: rs_File_refused(1))
  next
    case (rs_Incomplete fid sz received)
    show ?thesis by (rule in_flight_room [OF ok, of fid]) (simp_all add: rs_Incomplete)
  next
    case (rs_Stored fid sz q name received data cid now s')
    note free = in_flight_free [OF ok rs_Stored(5)]
    have room: "rl_pending r c \<noteq> Some (H_upload fid sz')" for c sz'
      using in_flight_okD(2) [OF ok, of c fid sz'] rs_Stored(2) by auto
    show ?thesis
    proof (rule in_flight_okI)
      show "rl_pending r' c = Some (H_socket key)" if "rl_viewers r' key = Some (d, tok, Forwarding c)" for key d tok c
        using that in_flight_okD(1) [OF ok, of key d tok c] free by (auto simp: rs_Stored(1))
      show "hget (rl_transfers r') k = Some (n, True)" if "rl_pending r' c = Some (H_upload k n)" for c k n
        using that in_flight_okD(2) [OF ok, of c k n] room [of c n]
        by (cases "k = fid") (auto simp: rs_Stored(1) split: if_splits)
      show "c = c'" if "rl_pending r' c = Some (H_upload k n)" "rl_pending r' c' = Some (H_upload k n')" for c c' k n n'
        using that in_flight_okD(3) [OF ok, of c k n c' n'] room by (auto simp: rs_Stored(1) split: if_splits)
      show "rl_origin r' c \<noteq> None" if "rl_pending r' c = Some h'" for c h'
        using that in_flight_okD(4) [OF ok, of c h'] by (auto simp: rs_Stored(1) split: if_splits)
    qed
  next
    case (rs_Store_refused fid sz q name received data now cid status s')
    show ?thesis by (rule in_flight_room [OF ok, of fid]) (simp_all add: rs_Store_refused)
  next
    case (rs_File_finish cid fid sz to resp s')
    show ?thesis
      by (rule in_flight_end_other [OF ok rs_File_finish(2)])
        (auto simp: rs_File_finish(1) dest: other [OF rs_File_finish(2)])
  next
    case (rs_File_hang_up cid fid sz)
    show ?thesis
      by (rule in_flight_end_other [OF ok rs_File_hang_up(2)])
        (auto simp: rs_File_hang_up(1) dest: other [OF rs_File_hang_up(2)])
  next
    case (rs_Collect now fid d ht resp s')
    show ?thesis by (rule in_flight_stay [OF ok]) (simp_all add: rs_Collect(1))
  qed
qed

lemma in_flight_step:
  assumes step: "relay_step x r r'" and ok: "in_flight_ok r"
  shows "in_flight_ok r'"
  using step
proof (cases rule: relay_step.cases)
  case rs_screen then show ?thesis by (auto elim!: screen_step.cases intro: in_flight_stay [OF ok])
next
  case rs_account then show ?thesis by (auto elim!: account_step.cases intro: in_flight_stay [OF ok])
next
  case rs_pairing then show ?thesis by (auto elim!: pairing_step.cases intro: in_flight_stay [OF ok])
qed (auto intro: in_flight_stay [OF ok] resolve_step_flight [OF _ ok] command_step_flight [OF _ ok]
    socket_step_flight [OF _ ok] upload_step_flight [OF _ ok])

section \<open>Start-up\<close>

lemma touches_load_users:
  assumes "load_users now s = Some s'"
  shows "touches {P_accounts} s s'"
  using assms
  by (auto simp: load_users_def split: option.splits file_content.splits intro!: touches_fold)
    (simp add: touches_def all_parts same_commands_def viewers_kept_same del: all_simps)

lemma touches_load_auth: "touches {} s (snd (load_auth_sessions now s))"
  by (auto simp: load_auth_sessions_def split: option.split file_content.split intro!: touches_fold)

lemma start_touches:
  assumes "start_server now fault tmp path disk = Some s"
  shows "touches {P_accounts} (app_state_new path disk) s"
proof -
  obtain s1 where l: "load_users now (app_state_new path disk) = Some s1"
    and s: "s = snd (load_auth_sessions now (snd (write_user_snapshot fault tmp (hvalues (users s1)) s1)))"
    using assms by (auto simp: start_server_eq split: option.splits if_splits)
  note touches_trans [OF touches_load_users [OF l]]
  moreover have "touches {P_accounts} s1 (snd (write_user_snapshot fault tmp us s1))" for us
    by (rule touches_snapshot)
  moreover have "touches {P_accounts} t (snd (load_auth_sessions now t))" for t
    by (rule touches_mono [OF touches_load_auth]) simp
  ultimately show ?thesis unfolding s by (blast intro: touches_trans)
qed

end
