(* ===== verification/Relay_Access.thy ===== *)
theory Relay_Access
  imports Relay_Flight
begin

text \<open>
  Who gets in, and whose commands reach a host.  The record of the run says why each viewer session was
  issued and where each command came from; the invariant says that the sessions, the queues and the
  answers of the relay agree with that record.
\<close>

section \<open>The invariant\<close>

definition granted :: "relay_sys \<Rightarrow> string \<Rightarrow> string \<Rightarrow> bool" where
  "granted r d tok \<longleftrightarrow> (\<exists>why. (d, tok, why) \<in> rl_grants r)"

definition consented :: "relay_sys \<Rightarrow> string \<Rightarrow> bool" where
  "consented r cid \<longleftrightarrow> (\<exists>d. (cid, d, True) \<in> rl_answers r)"

definition addressed :: "relay_sys \<Rightarrow> string \<Rightarrow> string \<Rightarrow> bool" where
  "addressed r d cid \<longleftrightarrow> rl_origin r cid = Some (Asked_for d) \<or> (\<exists>tok. rl_origin r cid = Some (Queued_by d tok))"

text \<open>A grant is justified by what its request showed, or by the host's answer to the request that asked.\<close>

fun justified :: "relay_sys \<Rightarrow> string \<Rightarrow> grant_reason \<Rightarrow> bool" where
  "justified r d (By_request now q reg uid) \<longleftrightarrow>
     now - pr_updated_at_ms reg \<le> PREVIEW_TTL_MS \<and>
     (password_ok q reg \<or> trusted_ok q reg \<or> (\<exists>u. u \<noteq> [] \<and> uid = Some u \<and> pr_user_id reg = Some u))"
| "justified r d (By_host cid) \<longleftrightarrow> rl_origin r cid = Some (Asked_for d) \<and> consented r cid"

definition queues_hold :: "(string \<Rightarrow> string \<Rightarrow> bool) \<Rightarrow> app_state \<Rightarrow> bool" where
  "queues_hold P s \<longleftrightarrow> (\<forall>d c. c \<in> set (device_queue d s) \<longrightarrow> P d (pc_command_id c))"

definition answers_hold :: "(string \<Rightarrow> bool) \<Rightarrow> app_state \<Rightarrow> bool" where
  "answers_hold Q s \<longleftrightarrow> (\<forall>cid res. hget (oneshots s) cid = Some res \<longrightarrow> cr_ok res \<longrightarrow> Q cid)"

definition sessions_hold :: "(string \<Rightarrow> string \<Rightarrow> bool) \<Rightarrow> app_state \<Rightarrow> bool" where
  "sessions_hold R s \<longleftrightarrow> (\<forall>t v. hget (viewer_sessions s) t = Some v \<longrightarrow> R (vs_device_id v) t)"

definition access_ok :: "relay_sys \<Rightarrow> bool" where
  "access_ok r \<longleftrightarrow>
     sessions_hold (granted r) (rl_app r) \<and> queues_hold (addressed r) (rl_app r) \<and>
     answers_hold (consented r) (rl_app r) \<and>
     (\<forall>(d, tok, why) \<in> rl_grants r. justified r d why) \<and>
     (\<forall>(d, cid) \<in> set (rl_delivered r). addressed r d cid) \<and>
     (\<forall>cid d tok. rl_origin r cid = Some (Queued_by d tok) \<or> rl_origin r cid = Some (Sent_by d tok) \<longrightarrow>
        granted r d tok) \<and>
     (\<forall>cid d vt ht reg. rl_pending r cid = Some (H_resolve d vt ht reg) \<longrightarrow> rl_origin r cid = Some (Asked_for d))"

section \<open>What keeps it\<close>

lemma viewers_hold: "viewers_kept s s' \<Longrightarrow> sessions_hold R s \<Longrightarrow> sessions_hold R s'"
  unfolding viewers_kept_def sessions_hold_def by metis

lemma viewer_ok_holds: "sessions_hold R s \<Longrightarrow> viewer_ok now d tok s \<Longrightarrow> R d tok"
  by (auto simp: sessions_hold_def viewer_ok_def split: option.splits)

lemma dropWhile_subset: "c \<in> set (dropWhile P xs) \<Longrightarrow> c \<in> set xs"
  by (induction xs) (simp_all split: if_splits)

lemma tl_subset: "c \<in> set (tl xs) \<Longrightarrow> c \<in> set xs"
  by (cases xs) simp_all

lemma map_leD: "m \<subseteq>\<^sub>m m' \<Longrightarrow> m k = Some v \<Longrightarrow> m' k = Some v"
  by (metis domI map_le_def)

interpretation ca: command_facts "\<lambda>s. queues_hold P s \<and> answers_hold Q s" for P Q
proof
  fix s d and now :: ms and cid to
  assume I: "queues_hold P s \<and> answers_hold Q s"
  show "queues_hold P s' \<and> answers_hold Q s'" if "same_commands s s'" for s'
    using I that by (simp add: queues_hold_def answers_hold_def same_commands_def device_queue_def)
  show "queues_hold P (s\<lparr>command_queues := hrem d (command_queues s)\<rparr>) \<and>
      answers_hold Q (s\<lparr>command_queues := hrem d (command_queues s)\<rparr>)"
    using I by (auto simp: queues_hold_def answers_hold_def device_queue_def hor_default_def split: if_splits option.splits)
  show "queues_hold P (expire_stale_device_commands now d s) \<and> answers_hold Q (expire_stale_device_commands now d s)"
    using I by (auto simp: queues_hold_def answers_hold_def expire_fields split: if_splits dest!: dropWhile_subset)
  show "queues_hold P (snd (poll_turn now d s)) \<and> answers_hold Q (snd (poll_turn now d s))"
    using I by (auto simp: queues_hold_def answers_hold_def poll_turn_fields split: if_splits
        dest!: dropWhile_subset tl_subset)
  show "queues_hold P (snd (forward_finish cid to s)) \<and> answers_hold Q (snd (forward_finish cid to s))"
    using I by (auto simp: queues_hold_def answers_hold_def forward_finish_def device_queue_def hget_hrem
        split: option.splits if_splits)
qed

section \<open>The record only grows\<close>

definition recorded :: "relay_sys \<Rightarrow> relay_sys \<Rightarrow> bool" where
  "recorded r r' \<longleftrightarrow> rl_origin r \<subseteq>\<^sub>m rl_origin r' \<and> rl_grants r \<subseteq> rl_grants r' \<and> rl_answers r \<subseteq> rl_answers r'"

lemma recordedI:
  "rl_origin r \<subseteq>\<^sub>m rl_origin r' \<Longrightarrow> rl_grants r \<subseteq> rl_grants r' \<Longrightarrow> rl_answers r \<subseteq> rl_answers r' \<Longrightarrow> recorded r r'"
  by (simp add: recorded_def)

lemma recorded_mono:
  assumes "recorded r r'"
  shows "rl_origin r cid = Some og \<Longrightarrow> rl_origin r' cid = Some og"
    and "granted r d tok \<Longrightarrow> granted r' d tok" and "consented r cid \<Longrightarrow> consented r' cid"
    and "addressed r d cid \<Longrightarrow> addressed r' d cid" and "justified r d why \<Longrightarrow> justified r' d why"
proof -
  have og: "rl_origin r c = Some o' \<Longrightarrow> rl_origin r' c = Some o'" for c o'
    using assms map_leD unfolding recorded_def by metis
  then show "rl_origin r cid = Some og \<Longrightarrow> rl_origin r' cid = Some og" .
  have co: "consented r c \<Longrightarrow> consented r' c" for c
    using assms by (auto simp: recorded_def consented_def)
  then show "consented r cid \<Longrightarrow> consented r' cid" .
  show "granted r d tok \<Longrightarrow> granted r' d tok"
    using assms by (auto simp: recorded_def granted_def)
  show "addressed r d cid \<Longrightarrow> addressed r' d cid"
    using og by (auto simp: addressed_def)
  show "justified r d why \<Longrightarrow> justified r' d why"
    using og co by (cases why) auto
qed

lemma map_le_fresh: "m k = None \<Longrightarrow> m \<subseteq>\<^sub>m m(k \<mapsto> v)"
  by (auto simp: map_le_def)

text \<open>What a step has to show: the shared state agrees with the record, and what it adds is in order.\<close>

lemma access_step:
  assumes ok: "access_ok r" and rec: "recorded r r'"
    and state: "sessions_hold (granted r') (rl_app r) \<Longrightarrow>
        queues_hold (addressed r') (rl_app r) \<and> answers_hold (consented r') (rl_app r) \<Longrightarrow>
      sessions_hold (granted r') (rl_app r') \<and>
      queues_hold (addressed r') (rl_app r') \<and> answers_hold (consented r') (rl_app r')"
    and grants: "\<And>d tok why. (d, tok, why) \<in> rl_grants r' \<Longrightarrow> (d, tok, why) \<notin> rl_grants r \<Longrightarrow> justified r' d why"
    and delivered: "\<And>d cid. (d, cid) \<in> set (rl_delivered r') \<Longrightarrow> (d, cid) \<notin> set (rl_delivered r) \<Longrightarrow>
      queues_hold (addressed r') (rl_app r) \<Longrightarrow> addressed r' d cid"
    and origin: "\<And>cid og d tok. rl_origin r' cid = Some og \<Longrightarrow> rl_origin r cid = None \<Longrightarrow>
      og = Queued_by d tok \<or> og = Sent_by d tok \<Longrightarrow> sessions_hold (granted r') (rl_app r) \<Longrightarrow> granted r' d tok"
    and pending: "\<And>cid d vt ht reg. rl_pending r' cid = Some (H_resolve d vt ht reg) \<Longrightarrow>
      rl_pending r cid \<noteq> Some (H_resolve d vt ht reg) \<Longrightarrow> rl_origin r' cid = Some (Asked_for d)"
  shows "access_ok r'"
proof -
  note mono = recorded_mono [OF rec]
  have s: "sessions_hold (granted r') (rl_app r)"
    using ok mono(2) by (auto simp: access_ok_def sessions_hold_def)
  moreover have q: "queues_hold (addressed r') (rl_app r)" and a: "answers_hold (consented r') (rl_app r)"
    using ok mono(3,4) by (auto simp: access_ok_def queues_hold_def answers_hold_def)
  ultimately have "sessions_hold (granted r') (rl_app r') \<and>
      queues_hold (addressed r') (rl_app r') \<and> answers_hold (consented r') (rl_app r')"
    using state by blast
  moreover have "justified r' d why" if "(d, tok, why) \<in> rl_grants r'" for d tok why
    using grants [OF that] ok mono(5) by (cases "(d, tok, why) \<in> rl_grants r") (auto simp: access_ok_def)
  moreover have "addressed r' d cid" if "(d, cid) \<in> set (rl_delivered r')" for d cid
    using delivered [OF that _ q] ok mono(4) by (cases "(d, cid) \<in> set (rl_delivered r)") (auto simp: access_ok_def)
  moreover have "granted r' d tok"
    if o': "rl_origin r' cid = Some (Queued_by d tok) \<or> rl_origin r' cid = Some (Sent_by d tok)" for cid d tok
  proof (cases "rl_origin r cid")
    case None then show ?thesis using origin [of cid _ d tok] o' s by blast
  next
    case (Some og)
    with o' mono(1) [OF Some] have "rl_origin r cid = Some (Queued_by d tok) \<or> rl_origin r cid = Some (Sent_by d tok)"
      by simp
    with ok have "granted r d tok" by (auto simp: access_ok_def)
    then show ?thesis by (rule mono(2))
  qed
  moreover have "rl_origin r' cid = Some (Asked_for d)" if "rl_pending r' cid = Some (H_resolve d vt ht reg)" for cid d vt ht reg
  proof (cases "rl_pending r cid = Some (H_resolve d vt ht reg)")
    case True with ok mono(1) show ?thesis by (auto simp: access_ok_def)
  qed (rule pending [OF that])
  ultimately show ?thesis unfolding access_ok_def by blast
qed

text \<open>A step that adds nothing to the record.\<close>

lemma access_quiet:
  assumes ok: "access_ok r" and same: "rl_origin r' = rl_origin r" "rl_grants r' = rl_grants r"
      "rl_delivered r' = rl_delivered r" "rl_pending r' \<subseteq>\<^sub>m rl_pending r" "rl_answers r \<subseteq> rl_answers r'"
    and v: "viewers_kept (rl_app r) (rl_app r')"
    and c: "\<And>P. queues_hold P (rl_app r) \<and> answers_hold (consented r') (rl_app r) \<Longrightarrow>
      queues_hold P (rl_app r') \<and> answers_hold (consented r') (rl_app r')"
  shows "access_ok r'"
proof (rule access_step [OF ok])
  show "recorded r r'" by (simp add: recorded_def same)
  show "rl_origin r' cid = Some (Asked_for d)"
    if "rl_pending r' cid = Some (H_resolve d vt ht reg)" "rl_pending r cid \<noteq> Some (H_resolve d vt ht reg)" for cid d vt ht reg
    using map_leD [OF same(4) that(1)] that(2) by simp
qed (use viewers_hold [OF v] c in \<open>auto simp: same\<close>)

section \<open>Every step keeps it\<close>

lemma queues_hold_queue:
  "queues_hold P (queue_command now d cid kind payload s) \<longleftrightarrow> queues_hold P s \<and> P d cid"
  by (auto simp: queues_hold_def queue_command_def device_queue_def hor_default_def split: if_splits option.splits)

lemma answers_hold_queue: "answers_hold Q (queue_command now d cid kind payload s) = answers_hold Q s"
  by (simp add: answers_hold_def queue_command_def)

lemma answers_hold_send:
  "queues_hold P s \<Longrightarrow> answers_hold Q s \<Longrightarrow> (cr_ok res \<Longrightarrow> Q cid) \<Longrightarrow>
   queues_hold P (send_result cid res s) \<and> answers_hold Q (send_result cid res s)"
  by (auto simp: queues_hold_def answers_hold_def send_result_def device_queue_def split: if_splits)

lemma touches_viewers: "touches A s s' \<Longrightarrow> P_viewers \<notin> A \<Longrightarrow> viewers_kept s s'"
  by (rule touchesD(7))

lemma access_touches:
  assumes "access_ok r" "touches A (rl_app r) (rl_app r')" "P_viewers \<notin> A" "P_commands \<notin> A"
    and "rl_origin r' = rl_origin r" "rl_grants r' = rl_grants r" "rl_delivered r' = rl_delivered r"
      "rl_pending r' \<subseteq>\<^sub>m rl_pending r" "rl_answers r \<subseteq> rl_answers r'"
  shows "access_ok r'"
  by (rule access_quiet [OF assms(1,5-9) touches_viewers [OF assms(2,3)] ca.keep [OF _ assms(2,4)]])

lemma pending_gone: "m(k := None) \<subseteq>\<^sub>m m"
  by (simp add: map_le_def)

text \<open>A handler that queues the command of a viewer whose session it has checked.\<close>

lemma access_queued:
  assumes ok: "access_ok r" and new: "rl_origin r cid = None"
    and s1: "touches A (rl_app r) s1" "P_commands \<notin> A" "P_viewers \<notin> A"
    and app: "rl_app r' = queue_command now d cid kind payload s1"
    and og: "rl_origin r' = (rl_origin r)(cid \<mapsto> og)" "og = Asked_for d \<or> og = Queued_by d tok \<and> viewer_ok now' d tok (rl_app r)"
    and rest: "rl_grants r' = rl_grants r" "rl_answers r' = rl_answers r" "rl_delivered r' = rl_delivered r"
      "rl_pending r' = (rl_pending r)(cid \<mapsto> h)" "\<And>d' vt ht reg. h = H_resolve d' vt ht reg \<Longrightarrow> og = Asked_for d'"
  shows "access_ok r'"
proof (rule access_step [OF ok])
  show "recorded r r'" using new by (simp add: recorded_def og(1) rest map_le_fresh)
  have "touches {P_commands} s1 (rl_app r')" unfolding app by (rule touches_queue)
  then have v: "viewers_kept (rl_app r) (rl_app r')"
    using viewers_kept_trans [OF touches_viewers [OF s1(1,3)]] touches_viewers by blast
  have a: "addressed r' d cid" using og by (auto simp: addressed_def)
  show "sessions_hold (granted r') (rl_app r') \<and>
      queues_hold (addressed r') (rl_app r') \<and> answers_hold (consented r') (rl_app r')"
    if "sessions_hold (granted r') (rl_app r)"
      "queues_hold (addressed r') (rl_app r) \<and> answers_hold (consented r') (rl_app r)"
    using viewers_hold [OF v that(1)] ca.keep [OF that(2) s1(1,2)] a
    by (simp add: app queues_hold_queue answers_hold_queue)
  show "granted r' d' tok'"
    if "rl_origin r' c = Some o'" "rl_origin r c = None" "o' = Queued_by d' tok' \<or> o' = Sent_by d' tok'"
      "sessions_hold (granted r') (rl_app r)" for c o' d' tok'
    using that og viewer_ok_holds [OF that(4)] by (auto split: if_splits)
  show "rl_origin r' c = Some (Asked_for d')"
    if "rl_pending r' c = Some (H_resolve d' vt ht reg)" "rl_pending r c \<noteq> Some (H_resolve d' vt ht reg)" for c d' vt ht reg
    using that rest(4,5) og(1) by (auto split: if_splits)
qed (simp_all add: rest)

lemma resolve_authorized:
  assumes r: "resolve_preview now d headers vt cid q s = (Resolved resp, s')"
  shows "rs_authorized resp \<and> viewer_sessions s' = hput vt \<lparr>vs_device_id = d, vs_last_seen_ms = now\<rparr> (viewer_sessions s) \<and>
      (\<exists>reg. hget (previews s) d = Some reg \<and> now - pr_updated_at_ms reg \<le> PREVIEW_TTL_MS \<and> shows_right now q reg s) \<or>
    \<not> rs_authorized resp \<and> viewers_kept s s'"
proof (cases "hget (previews s) d")
  case None
  with r show ?thesis by (auto simp: resolve_preview_def unresolved_response_def)
next
  case (Some reg)
  consider (stale) "PREVIEW_TTL_MS < now - pr_updated_at_ms reg"
    | (yes) "now - pr_updated_at_ms reg \<le> PREVIEW_TTL_MS" "shows_right now q reg s"
    | (no) "now - pr_updated_at_ms reg \<le> PREVIEW_TTL_MS" "\<not> shows_right now q reg s"
    by fastforce
  then show ?thesis
  proof cases
    case stale
    have "resp = unresolved_response" "s' = remove_preview_state d s"
      using r resolve_stale [OF Some stale, of headers vt cid q] by simp_all
    then show ?thesis
      using touches_viewers [OF touches_remove_preview] by (simp add: unresolved_response_def)
  next
    case yes
    with Some resolve_granted [OF Some yes r] show ?thesis by auto
  next
    case no
    with resolve_not_granted [OF Some no r] show ?thesis by (auto intro: viewers_kept_same)
  qed
qed

lemma sessions_hold_put:
  "sessions_hold R s \<Longrightarrow> viewer_sessions s' = hput t v (viewer_sessions s) \<Longrightarrow> R (vs_device_id v) t \<Longrightarrow> sessions_hold R s'"
  by (simp add: sessions_hold_def)

text \<open>A handler that lets a viewer in, with the reason written down.\<close>

lemma access_granted:
  assumes ok: "access_ok r" and j: "justified r' d why"
    and app: "viewer_sessions (rl_app r') = hput vt \<lparr>vs_device_id = d, vs_last_seen_ms = now\<rparr> (viewer_sessions (rl_app r))"
    and same: "rl_grants r' = insert (d, vt, why) (rl_grants r)" "rl_origin r' = rl_origin r"
      "rl_answers r' = rl_answers r" "rl_delivered r' = rl_delivered r" "rl_pending r' \<subseteq>\<^sub>m rl_pending r"
    and kept: "\<And>P Q. queues_hold P (rl_app r) \<and> answers_hold Q (rl_app r) \<Longrightarrow>
      queues_hold P (rl_app r') \<and> answers_hold Q (rl_app r')"
  shows "access_ok r'"
proof (rule access_step [OF ok])
  show "recorded r r'" by (auto simp: recorded_def same)
  have "granted r' d vt" by (auto simp: granted_def same(1))
  then show "sessions_hold (granted r') (rl_app r') \<and>
      queues_hold (addressed r') (rl_app r') \<and> answers_hold (consented r') (rl_app r')"
    if "sessions_hold (granted r') (rl_app r)"
      "queues_hold (addressed r') (rl_app r) \<and> answers_hold (consented r') (rl_app r)"
    using sessions_hold_put [OF that(1) app] kept [OF that(2)] by simp
  show "justified r' d' why'" if "(d', tok, why') \<in> rl_grants r'" "(d', tok, why') \<notin> rl_grants r" for d' tok why'
    using that j by (auto simp: same(1))
  show "rl_origin r' cid = Some (Asked_for d')"
    if "rl_pending r' cid = Some (H_resolve d' t h g)" "rl_pending r cid \<noteq> Some (H_resolve d' t h g)" for cid d' t h g
    using map_leD [OF same(5) that(1)] that(2) by simp
qed (simp_all add: same)

lemma resolve_step_access:
  assumes step: "resolve_step x r r'" and ok: "access_ok r"
  shows "access_ok r'"
  using step
proof (cases rule: resolve_step.cases)
  case (rs_Resolve now d headers vt cid q resp s')
  let ?why = "By_request now q (the (hget (previews (rl_app r)) d)) (auth_token_ok now (rr_auth_token q) (rl_app r))"
  note kept = ca.refused [OF rs_Resolve(2)]
  from resolve_authorized [OF rs_Resolve(2)] show ?thesis
  proof (elim disjE conjE exE)
    fix reg assume a: "rs_authorized resp"
      "viewer_sessions s' = hput vt \<lparr>vs_device_id = d, vs_last_seen_ms = now\<rparr> (viewer_sessions (rl_app r))"
      "hget (previews (rl_app r)) d = Some reg" "now - pr_updated_at_ms reg \<le> PREVIEW_TTL_MS"
      "shows_right now q reg (rl_app r)"
    show ?thesis
      by (rule access_granted [OF ok, where why = ?why and d = d and vt = vt and now = now])
        (use a kept in \<open>auto simp: rs_Resolve(1) shows_right_def\<close>)
  next
    assume a: "\<not> rs_authorized resp" "viewers_kept (rl_app r) s'"
    show ?thesis
      by (rule access_quiet [OF ok]) (use a kept in \<open>simp_all add: rs_Resolve(1)\<close>)
  qed
next
  case (rs_Resolve_wait cid now d headers vt q ht reg s')
  from resolve_Waiting [OF rs_Resolve_wait(3)] obtain s1 p where
    "touches {} (rl_app r) s1" "s' = queue_command now d cid ''incoming_request'' p s1" by blast
  then show ?thesis
    by (intro access_queued [OF ok rs_Resolve_wait(2), where A = "{}" and og = "Asked_for d" and
          h = "H_resolve d vt ht reg" and d = d])
      (simp_all add: rs_Resolve_wait(1))
next
  case (rs_Resolve_finish cid d vt ht reg now headers to resp s')
  note fin = resolve_finish_spec [OF rs_Resolve_finish(3)]
  note kept = ca.host_answered [OF rs_Resolve_finish(3)]
  show ?thesis
  proof (cases "rs_authorized resp")
    case True
    with fin have a: "\<exists>res. hget (oneshots (rl_app r)) cid = Some res \<and> cr_ok res"
      "viewer_sessions s' = hput vt \<lparr>vs_device_id = d, vs_last_seen_ms = now\<rparr> (viewer_sessions (rl_app r))"
      by auto
    have "rl_origin r cid = Some (Asked_for d)" "consented r cid"
      using ok rs_Resolve_finish(2) a(1) by (auto simp: access_ok_def answers_hold_def)
    with True a(2) kept show ?thesis
      by (intro access_granted [OF ok, where why = "By_host cid" and d = d and vt = vt and now = now])
        (simp_all add: rs_Resolve_finish(1) consented_def pending_gone)
  next
    case False
    with fin have "viewer_sessions s' = viewer_sessions (rl_app r)" by (auto split: if_splits)
    then have "viewers_kept (rl_app r) s'" by (rule viewers_kept_same)
    with False kept show ?thesis
      by (intro access_quiet [OF ok]) (simp_all add: rs_Resolve_finish(1) pending_gone)
  qed
qed

lemma file_list_Inr:
  assumes "file_list_start now d tok path cid s = (Inr c, s')"
  shows "viewer_ok now d tok s"
    and "\<exists>s1 p. touches {} s s1 \<and> s' = queue_command now d cid ''file_list'' p s1"
proof -
  let ?s1 = "s\<lparr>viewer_sessions := viewers_touched now d tok s\<rparr>"
  have ok: "viewer_ok now d tok s" and
    f: "forward_start now d tok ''file_list'' cid (JObj [(''path'', JStr path)]) ?s1 = (Inr c, s')"
    using assms by (auto simp: file_list_start_def validate_viewer_eq split: if_splits)
  show "viewer_ok now d tok s" by (rule ok)
  have "touches {} s ?s1" by simp
  with forward_start_Inr(3) [OF f] show "\<exists>s1 p. touches {} s s1 \<and> s' = queue_command now d cid ''file_list'' p s1"
    by (blast intro: touches_trans)
qed

lemma polled_from_queue:
  assumes "poll_turn now d s = (Some cmd, s')"
  shows "cmd \<in> set (device_queue d s)"
proof -
  obtain q where "dropWhile (stale_command now) (device_queue d s) = cmd # q"
    using poll_turn_fields(1) [of now d s] assms by (simp split: list.splits)
  then have "cmd \<in> set (dropWhile (stale_command now) (device_queue d s))" by simp
  then show ?thesis by (rule dropWhile_subset)
qed

lemma poll_access:
  assumes ok: "access_ok r" and p: "poll_turn now d (rl_app r) = (Some cmd, s')"
    and r': "r' = r\<lparr>rl_app := s', rl_delivered := rl_delivered r @ [(d, pc_command_id cmd)]\<rparr>"
  shows "access_ok r'"
proof (rule access_step [OF ok])
  have v: "viewers_kept (rl_app r) s'"
    by (rule touches_viewers [OF touches_eq [OF p touches_poll]]) simp
  show "recorded r r'" by (simp add: recorded_def r')
  show "sessions_hold (granted r') (rl_app r') \<and>
      queues_hold (addressed r') (rl_app r') \<and> answers_hold (consented r') (rl_app r')"
    if "sessions_hold (granted r') (rl_app r)"
      "queues_hold (addressed r') (rl_app r) \<and> answers_hold (consented r') (rl_app r)"
    using viewers_hold [OF v that(1)] ca.polled [OF p that(2)] by (simp add: r')
  show "addressed r' d' cid"
    if "(d', cid) \<in> set (rl_delivered r')" "(d', cid) \<notin> set (rl_delivered r)" "queues_hold (addressed r') (rl_app r)" for d' cid
    using that polled_from_queue [OF p] by (auto simp: r' queues_hold_def)
qed (simp_all add: r')

lemma completed_holds:
  assumes "queues_hold P s \<and> answers_hold Q s" and "validate_host now d ht s \<Longrightarrow> ok' \<Longrightarrow> Q cid"
  shows "queues_hold P (snd (complete_host_command now d ht cid ok' answer s)) \<and>
    answers_hold Q (snd (complete_host_command now d ht cid ok' answer s))"
proof (cases "validate_host now d ht s")
  case True
  have "queues_hold P (send_result cid \<lparr>cr_ok = ok', cr_text = answer\<rparr> s) \<and>
      answers_hold Q (send_result cid \<lparr>cr_ok = ok', cr_text = answer\<rparr> s)"
    using assms(1) by (intro answers_hold_send) (auto intro: assms(2) [OF True])
  with True show ?thesis by (simp add: complete_host_command_def)
next
  case False
  with assms(1) show ?thesis by (simp add: complete_host_command_def)
qed

lemma command_step_access:
  assumes step: "command_step x r r'" and ok: "access_ok r"
  shows "access_ok r'"
  using step
proof (cases rule: command_step.cases)
  case (rs_Command cid now d tok c s')
  note f = forward_start_Inr [OF rs_Command(3) [unfolded send_command_def]]
  from f(3) obtain s1 where
    "touches {} (rl_app r) s1" "s' = queue_command now d cid (command_kind c) (command_payload c) s1" by blast
  then show ?thesis
    by (intro access_queued [OF ok rs_Command(2), where A = "{}" and og = "Queued_by d tok" and h = H_command and
          d = d and tok = tok and now' = now])
      (simp_all add: rs_Command(1) f(2))
next
  case (rs_List cid now d tok path s')
  note f = file_list_Inr [OF rs_List(3)]
  from f(2) obtain s1 p where
    "touches {} (rl_app r) s1" "s' = queue_command now d cid ''file_list'' p s1" by blast
  then show ?thesis
    by (intro access_queued [OF ok rs_List(2), where A = "{}" and og = "Queued_by d tok" and h = H_command and
          d = d and tok = tok and now' = now])
      (simp_all add: rs_List(1) f(1))
next
  case (rs_Command_finish cid to outcome s')
  have "viewers_kept (rl_app r) s'"
    by (rule touches_viewers [OF touches_eq [OF rs_Command_finish(3) touches_forward_finish]]) simp
  with ca.finished [OF rs_Command_finish(3)] show ?thesis
    by (intro access_quiet [OF ok]) (simp_all add: rs_Command_finish(1) pending_gone)
next
  case (rs_Hang_up cid h d vt ht reg)
  show ?thesis by (rule access_touches [OF ok, where A = "{}"]) (simp_all add: rs_Hang_up(1) pending_gone)
next
  case (rs_Poll_begin now d ht)
  show ?thesis by (rule access_touches [OF ok, where A = "{}"]) (simp_all add: rs_Poll_begin(1))
next
  case (rs_Poll d now cmd s')
  show ?thesis by (rule poll_access [OF ok rs_Poll(3,1)])
next
  case (rs_Poll_none d now s')
  have "viewers_kept (rl_app r) s'"
    by (rule touches_viewers [OF touches_eq [OF rs_Poll_none(3) touches_poll]]) simp
  with ca.polled [OF rs_Poll_none(3)] show ?thesis
    by (intro access_quiet [OF ok]) (simp_all add: rs_Poll_none(1))
next
  case (rs_Complete now d ht cid ok' answer)
  have c: "consented r' cid" if "validate_host now d ht (rl_app r)" "ok'"
    using that by (auto simp: rs_Complete(1) consented_def)
  have v: "viewers_kept (rl_app r) (rl_app r')"
    by (rule touches_viewers [where A = "{P_commands}"]) (simp_all add: rs_Complete(1) touches_complete)
  have h: "queues_hold P (rl_app r') \<and> answers_hold (consented r') (rl_app r')"
    if "queues_hold P (rl_app r) \<and> answers_hold (consented r') (rl_app r)" for P
    using completed_holds [OF that c] by (simp add: rs_Complete(1))
  show ?thesis by (rule access_quiet [OF ok _ _ _ _ _ v h]) (auto simp: rs_Complete(1))
qed

lemma host_message_answers:
  assumes "queues_hold P s \<and> answers_hold Q s"
    and "\<And>cid. (cid, d, True) \<in> answers_of x d msg \<Longrightarrow> Q cid"
  shows "queues_hold P (snd (ws_host_message (ex_parse_result x) now d msg s)) \<and>
    answers_hold Q (snd (ws_host_message (ex_parse_result x) now d msg s))"
proof (cases msg)
  case (Text m)
  show ?thesis
  proof (cases "ex_parse_result x m")
    case (Some result)
    have "queues_hold P (send_result (cq_command_id result) res s) \<and>
        answers_hold Q (send_result (cq_command_id result) res s)" if "cr_ok res \<longrightarrow> cq_ok result" for res
      using assms that by (intro answers_hold_send) (simp_all add: Text Some answers_of_def)
    then show ?thesis by (simp add: Text Some ws_host_message_def)
  qed (use assms in \<open>simp add: Text ws_host_message_def\<close>)
next
  case (Binary b)
  have "touches {P_screen} s (snd (ws_host_message (ex_parse_result x) now d msg s))"
    by (auto simp: Binary touches_def all_parts ws_host_message_def Let_def viewers_kept_same same_commands_def
        split: option.split)
  then show ?thesis by (rule ca.keep [OF assms(1)]) simp
qed (use assms in \<open>simp_all add: ws_host_message_def\<close>)

text \<open>What goes out on a host's socket comes from a viewer whose session is checked.\<close>

lemma viewer_turn_sends:
  assumes "ws_viewer_turn pj now d tok key cid e Running s = (out, loop', s')" "ws_host_cmd_tx s' \<noteq> ws_host_cmd_tx s"
  shows "viewer_ok now d tok s"
proof (rule ccontr)
  assume no: "\<not> viewer_ok now d tok s"
  have tx: "ws_host_cmd_tx (snd (ws_viewer_text pj now d tok cid m s)) = ws_host_cmd_tx s" for m
    by (simp add: ws_viewer_text_def validate_viewer_eq no)
  have re: "ws_host_cmd_tx (snd (renew_screen_lease now d tok key s)) = ws_host_cmd_tx s"
    by (simp add: renew_eq split: option.split)
  have "ws_host_cmd_tx (snd (snd (ws_viewer_turn pj now d tok key cid e Running s))) = ws_host_cmd_tx s"
    by (simp add: ws_viewer_turn_def tx re case_prod_beta Let_def split: viewer_event.split option.split ws_message.split)
  with assms show False by simp
qed

lemma socket_step_access:
  assumes step: "socket_step x r r'" and ok: "access_ok r"
  shows "access_ok r'"
  using step
proof (cases rule: socket_step.cases)
  case (rs_Host_open now d ht)
  show ?thesis by (rule access_touches [OF ok, where A = "{}"]) (simp_all add: rs_Host_open(1) touches_host_open)
next
  case (rs_Host_message d msg now)
  have v: "viewers_kept (rl_app r) (rl_app r')"
    by (rule touches_viewers [where A = "{P_screen, P_commands}"]) (simp_all add: rs_Host_message(1) touches_host_message)
  have c: "consented r' cid" if "(cid, d, True) \<in> answers_of x d msg" for cid
    using that by (auto simp: rs_Host_message(1) consented_def)
  show ?thesis
  proof (rule access_quiet [OF ok _ _ _ _ _ v])
    show "queues_hold P (rl_app r') \<and> answers_hold (consented r') (rl_app r')"
      if "queues_hold P (rl_app r) \<and> answers_hold (consented r') (rl_app r)" for P
    proof -
      have "rl_app r' = snd (ws_host_message (ex_parse_result x) now d msg (rl_app r))"
        by (simp add: rs_Host_message(1))
      with host_message_answers [OF that c] show ?thesis by metis
    qed
  qed (simp_all add: rs_Host_message(1))
next
  case (rs_Viewer_open key now d tok loop s')
  have "touches {P_screen} (rl_app r) s'" by (rule touches_eq [OF rs_Viewer_open(3) touches_viewer_open])
  then show ?thesis by (intro access_touches [OF ok]) (auto simp: rs_Viewer_open(1))
next
  case (rs_Viewer_queued key d tok cid now e out c s')
  from viewer_turn_Running [OF rs_Viewer_queued(4)] obtain s1 kind payload where
    "c = cid" "viewer_ok now d tok (rl_app r)" "touches {} (rl_app r) s1" "s' = queue_command now d cid kind payload s1"
    by (auto simp: socket_outcome_def)
  then show ?thesis
    by (intro access_queued [OF ok rs_Viewer_queued(3), where A = "{}" and og = "Queued_by d tok" and
          h = "H_socket key" and d = d and tok = tok and now' = now])
      (simp_all add: rs_Viewer_queued(1))
next
  case (rs_Viewer_answered key d tok c now cid e out s')
  from viewer_turn_answered [OF rs_Viewer_answered(3)] obtain to outcome where
    f: "forward_finish c to (rl_app r) = (Some outcome, s')" by blast
  have "viewers_kept (rl_app r) s'"
    by (rule touches_viewers [OF touches_eq [OF f touches_forward_finish]]) simp
  with ca.finished [OF f] show ?thesis
    by (intro access_quiet [OF ok]) (simp_all add: rs_Viewer_answered(1) pending_gone)
next
  case (rs_Viewer_turn key d tok cid e now out s')
  from viewer_turn_Running [OF rs_Viewer_turn(5)] have t: "touches {P_screen} (rl_app r) s'"
    by (auto simp: socket_outcome_def)
  note v = touches_viewers [OF t]
  show ?thesis
  proof (rule access_step [OF ok])
    show "recorded r r'" using rs_Viewer_turn(3) by (simp add: recorded_def rs_Viewer_turn(1) map_le_fresh)
    show "sessions_hold (granted r') (rl_app r') \<and>
        queues_hold (addressed r') (rl_app r') \<and> answers_hold (consented r') (rl_app r')"
      if "sessions_hold (granted r') (rl_app r)"
        "queues_hold (addressed r') (rl_app r) \<and> answers_hold (consented r') (rl_app r)"
      using viewers_hold [OF v that(1)] ca.keep [OF that(2) t] by (simp add: rs_Viewer_turn(1))
    show "granted r' d' tok'"
      if "rl_origin r' c = Some og" "rl_origin r c = None" "og = Queued_by d' tok' \<or> og = Sent_by d' tok'"
        "sessions_hold (granted r') (rl_app r)" for c og d' tok'
      using that viewer_turn_sends [OF rs_Viewer_turn(5)] viewer_ok_holds [OF that(4)]
      by (auto simp: rs_Viewer_turn(1) split: if_splits)
  qed (simp_all add: rs_Viewer_turn(1))
next
  case (rs_Viewer_end key d tok e now cid out s')
  from viewer_turn_Running [OF rs_Viewer_end(4)] have "touches {P_screen} (rl_app r) s'"
    by (auto simp: socket_outcome_def)
  from touches_trans [OF this touches_release] show ?thesis
    by (intro access_touches [OF ok, where A = "{P_screen}"]) (simp_all add: rs_Viewer_end(1))
qed

lemma upload_step_access:
  assumes step: "upload_step x r r'" and ok: "access_ok r"
  shows "access_ok r'"
proof -
  have keep: ?thesis if "touches {P_files} (rl_app r) (rl_app r')" "rl_origin r' = rl_origin r" "rl_grants r' = rl_grants r"
    "rl_pending r' \<subseteq>\<^sub>m rl_pending r" "rl_delivered r' = rl_delivered r" "rl_answers r' = rl_answers r"
    by (rule access_touches [OF ok that(1)]) (simp_all add: that)
  have st: "touches {P_files} s (s\<lparr>file_store := m\<rparr>)" for s m
    by (simp add: touches_def all_parts same_commands_def viewers_kept_same)
  from step show ?thesis
  proof (cases rule: upload_step.cases)
    case (rs_Admit now q h name sz s' fid)
    then show ?thesis by (intro keep) (auto intro: touches_eq [OF _ touches_admit])
  next
    case (rs_File_refused now q h e s')
    then show ?thesis by (intro keep) (auto intro: touches_eq [OF _ touches_admit])
  next
    case (rs_Incomplete fid sz received)
    then show ?thesis by (intro keep) (auto intro: touches_drop_reservation)
  next
    case (rs_Stored fid sz q name received data cid now s')
    let ?d = "uq_device_id q" and ?tok = "uq_token q"
    let ?s0 = "(rl_app r)\<lparr>file_store := hput fid \<lparr>fb_data = data, fb_filename = name, fb_created_at_ms = now,
          fb_device_id = ?d\<rparr> (file_store (rl_app r))\<rparr>"
    obtain kind payload where f: "forward_start now ?d ?tok kind cid payload ?s0 = (Inr cid, s')"
      using file_start_eq [OF rs_Stored(6)] by blast
    have v: "viewer_ok now ?d ?tok (rl_app r)" using forward_start_Inr(2) [OF f] by (simp add: viewer_ok_def)
    from forward_start_Inr(3) [OF f] obtain s1 where s1: "touches {} ?s0 s1"
      "s' = queue_command now ?d cid kind payload s1" by blast
    have "touches {P_files} (rl_app r) s1"
      by (rule touches_trans [OF st touches_mono [OF s1(1)]]) simp
    then show ?thesis
      by (intro access_queued [OF ok rs_Stored(5), where A = "{P_files}" and og = "Queued_by ?d ?tok" and
            h = "H_upload fid sz" and d = ?d and tok = ?tok and now' = now])
        (simp_all add: rs_Stored(1) s1(2) v)
  next
    case (rs_Store_refused fid sz q name received data now cid status s')
    from file_start_eq [OF rs_Store_refused(5)] obtain kind payload s0 where
      f: "touches {P_files} (rl_app r) s0"
        "forward_start now (uq_device_id q) (uq_token q) kind cid payload s0 = (Inl status, s')"
      using st by blast
    have "touches {P_files} s0 s'"
      by (rule touches_mono [OF quiet_touches [OF qo_forward_refused [OF f(2)]]]) simp
    with f(1) have "touches {P_files} (rl_app r) (relay_file_end fid sz s')"
      by (blast intro: touches_trans touches_file_end)
    with rs_Store_refused(1) show ?thesis by (intro keep) auto
  next
    case (rs_File_finish cid fid sz to resp s')
    have "viewers_kept (rl_app r) s'"
      by (rule touches_viewers [OF touches_eq [OF rs_File_finish(3) upload_finish_touches]]) simp
    with ca.transferred [OF rs_File_finish(3)] show ?thesis
      by (intro access_quiet [OF ok]) (simp_all add: rs_File_finish(1) pending_gone)
  next
    case (rs_File_hang_up cid fid sz)
    then show ?thesis by (intro keep) (simp_all add: touches_file_end pending_gone)
  next
    case (rs_Collect now fid d ht resp s')
    then show ?thesis by (intro keep) (auto intro: touches_eq [OF _ touches_collect])
  qed
qed

lemma screen_step_access:
  assumes step: "screen_step x r r'" and ok: "access_ok r"
  shows "access_ok r'"
proof -
  have "queues_hold P (rl_app r') \<and> answers_hold Q (rl_app r')"
    if "queues_hold P (rl_app r) \<and> answers_hold Q (rl_app r)" for P Q
    using step
  proof (cases rule: screen_step.cases)
    case (rs_Screen s') with ca.screened [OF rs_Screen(2) that] show ?thesis by simp
  next
    case (rs_Upload_frame now q body t s')
    with ca.keep [OF that touches_eq [OF rs_Upload_frame(2) touches_upload_frame]] show ?thesis by simp
  next
    case (rs_Frame_refused now q body n s')
    with ca.keep [OF that touches_eq [OF rs_Frame_refused(2) touches_upload_frame]] show ?thesis by simp
  next
    case (rs_Register q now tok)
    with ca.keep [OF that touches_register, of now tok q] show ?thesis by simp
  qed
  moreover have "viewers_kept (rl_app r) (rl_app r')"
    by (rule touches_viewers [OF screen_step_touches [OF step]]) simp
  moreover have "rl_origin r' = rl_origin r \<and> rl_grants r' = rl_grants r \<and> rl_answers r' = rl_answers r \<and>
      rl_pending r' = rl_pending r \<and> rl_delivered r' = rl_delivered r"
    using step by (auto elim!: screen_step.cases)
  ultimately show ?thesis by (intro access_quiet [OF ok]) simp_all
qed

lemma access_step_ok:
  assumes step: "relay_step x r r'" and ok: "access_ok r"
  shows "access_ok r'"
  using step
proof (cases rule: relay_step.cases)
  case rs_account
  then have "rl_origin r' = rl_origin r \<and> rl_grants r' = rl_grants r \<and> rl_answers r' = rl_answers r \<and>
      rl_pending r' = rl_pending r \<and> rl_delivered r' = rl_delivered r"
    by (auto elim!: account_step.cases)
  then show ?thesis by (intro access_touches [OF ok account_step_touches [OF rs_account]]) simp_all
next
  case rs_pairing
  then have "rl_origin r' = rl_origin r \<and> rl_grants r' = rl_grants r \<and> rl_answers r' = rl_answers r \<and>
      rl_pending r' = rl_pending r \<and> rl_delivered r' = rl_delivered r"
    by (auto elim!: pairing_step.cases)
  then show ?thesis by (intro access_touches [OF ok pairing_step_touches [OF rs_pairing]]) simp_all
next
  case (rs_quiet s')
  show ?thesis by (rule access_touches [OF ok, where A = "{}"]) (simp_all add: rs_quiet quiet_touches)
next
  case (rs_cleanup now)
  have "viewers_kept (rl_app r) (rl_app r')"
    by (rule touches_viewers [where A = "{P_screen, P_commands, P_files}"]) (simp_all add: rs_cleanup touches_cleanup)
  moreover have "queues_hold P (rl_app r') \<and> answers_hold Q (rl_app r')"
    if "queues_hold P (rl_app r) \<and> answers_hold Q (rl_app r)" for P Q
    using ca.swept [OF that] by (simp add: rs_cleanup)
  ultimately show ?thesis by (intro access_quiet [OF ok]) (simp_all add: rs_cleanup)
qed (use ok in \<open>blast intro: screen_step_access resolve_step_access command_step_access socket_step_access upload_step_access\<close>)+

lemma access_reachable: "relay_reachable x r \<Longrightarrow> access_ok r"
proof (induction rule: relay_reachable.induct)
  case (relay_init path disk tmp now fault s)
  have "viewers_kept (app_state_new path disk) s"
    by (rule touches_viewers [OF start_touches [OF relay_init(3)]]) simp
  moreover have "same_commands (app_state_new path disk) s"
    by (rule touchesD(4) [OF start_touches [OF relay_init(3)]]) simp
  ultimately show ?case
    by (simp add: access_ok_def relay_start_def sessions_hold_def queues_hold_def answers_hold_def viewers_kept_def
        same_commands_def device_queue_def app_state_new_def)
qed (rule access_step_ok)

end
