(* ===== verification/Relay_Accounts.thy ===== *)
theory Relay_Accounts
  imports Relay_Flight
begin

text \<open>
  The accounts in every run of the relay: registering, logging in, deleting, the wake endpoints, the
  enrollment of computers and everything that leaves the accounts alone keep the account invariant and
  the wake data of every account well formed.
\<close>

section \<open>The invariant\<close>

definition names_stable :: "(string \<times> string) set \<Rightarrow> app_state \<Rightarrow> bool" where
  "names_stable N s \<longleftrightarrow> (\<forall>i n u. (i, n) \<in> N \<longrightarrow> hget (users s) i = Some u \<longrightarrow> ur_username u = n)"

definition macs_ok :: "app_state \<Rightarrow> bool" where
  "macs_ok s \<longleftrightarrow> (\<forall>i p. hget (sessions s) i = Some p \<longrightarrow> (\<exists>m. mac_valid m \<and> pg_mac p = mac_normalized m))"

text \<open>The store at path \<open>p\<close>, with the users that have signed in still under their names.\<close>

definition store_sound :: "(string \<times> string) set \<Rightarrow> string \<Rightarrow> app_state \<Rightarrow> bool" where
  "store_sound N p s \<longleftrightarrow> account_inv s \<and> accounts_ok s \<and> user_store_path s = p \<and> names_stable N s"

definition relay_sound :: "relay_sys \<Rightarrow> bool" where
  "relay_sound r \<longleftrightarrow>
     user_store_path (rl_app r) \<noteq> auth_sessions_path (user_store_path (rl_app r)) \<and>
     store_sound (rl_signed_in r) (user_store_path (rl_app r)) (rl_app r) \<and> macs_ok (rl_app r)"

section \<open>What keeps the store\<close>

lemma store_sound_cong:
  assumes "users s' = users s" "username_index s' = username_index s" "user_store_path s' = user_store_path s"
    and "hget (files s') (user_store_path s) = hget (files s) (user_store_path s)"
  shows "store_sound N p s' = store_sound N p s"
  using account_inv_cong [of s' s] assms
  by (simp add: store_sound_def accounts_ok_def names_stable_def)

lemma store_sound_touches:
  "touches A s s' \<Longrightarrow> P_accounts \<notin> A \<Longrightarrow> store_sound N p s' = store_sound N p s"
  by (rule store_sound_cong) (simp_all add: touchesD(8-11))

lemma update_wake_names:
  assumes "names_stable N s" "users_keyed s" "tmp \<noteq> user_store_path s"
  shows "names_stable N (snd (update_wake now fault tmp i m s))"
  using assms
  by (auto simp: names_stable_def update_wake_cases [OF assms(2,3)] Let_def split: option.split sum.split prod.split)

interpretation so: endpoint_invariant "store_sound N p" p for N p
proof
  fix s owner and c :: store_call and m :: "unit mutation"
  assume s: "store_sound N p s" and c: "sc_tmp c \<noteq> p" and m: "safe_mutation m"
  have k: "users_keyed s" "sc_tmp c \<noteq> user_store_path s" "account_inv s" "names_stable N s"
    using s c by (simp_all add: store_sound_def account_inv_def)
  have "wake_safe p (snd (store_update c owner m s))"
    using s k(1) by (intro store_update_safe c m) (simp add: wake_safe_def store_sound_def)
  moreover have "account_inv (snd (store_update c owner m s))" "names_stable N (snd (store_update c owner m s))"
    using k by (simp_all add: store_update_def update_wake_account_inv update_wake_names)
  ultimately show "store_sound N p (snd (store_update c owner m s))"
    by (simp add: store_sound_def wake_safe_def)
next
  fix s a f
  assume s: "store_sound N p s"
  show "store_sound N p (s\<lparr>auth_sessions := a\<rparr>)" using store_sound_touches [OF touches_upd(1) [of "{}"]] s by simp
  show "store_sound N p (map_agents f s)" using store_sound_touches [OF touches_upd(6) [of "{}"]] s by simp
next
  fix s f
  assume s: "store_sound N p s"
  show "store_sound N p (map_targets f s)" using store_sound_touches [OF touches_upd(7) [of "{}"]] s by simp
qed

lemma store_sound_persist_auth:
  "p \<noteq> auth_sessions_path p \<Longrightarrow> store_sound N p s \<Longrightarrow> store_sound N p (snd (persist_auth_sessions fault s))"
  by (subst store_sound_cong [of _ s]) (simp_all add: store_sound_def)

lemma account_created_sound:
  assumes s: "store_sound N (user_store_path s) s" and path: "user_store_path s \<noteq> auth_sessions_path (user_store_path s)"
    and tmp: "tmp \<noteq> user_store_path s" and reg: "registered_user x now uid q = Some user"
    and new: "hget (users s) uid = None" "uid \<notin> fst ` N"
  shows "store_sound N (user_store_path s) (account_created now fault fault' tmp tok user s)"
proof -
  have user: "ur_user_id user = uid" "ur_wake user = wake_default"
    using reg by (auto simp: registered_user_def Let_def split: if_splits)
  obtain res s1 where c: "register_commit fault tmp user s = (res, s1)" by fastforce
  have "account_inv s1"
    using register_commit_inv [of s tmp user fault] s tmp new(1) user(1) c by (simp add: store_sound_def)
  moreover have "user_store_path s1 = user_store_path s"
    using path_register_commit(1) [of fault tmp user s] by (simp add: c)
  moreover have "users s1 = users s \<or> users s1 = hput uid user (users s)"
    using c by (auto simp: register_commit_eq user Let_def split: if_splits)
  then have "accounts_ok s1" "names_stable N s1"
    using s new(2) user(2)
    by (auto simp: store_sound_def accounts_ok_def names_stable_def image_iff wake_ok_default split: if_splits)
  ultimately have s1: "store_sound N (user_store_path s) s1" by (simp add: store_sound_def)
  then have "store_sound N (user_store_path s) (s1\<lparr>auth_sessions := a\<rparr>)" for a by (rule so.auth)
  with s1 show ?thesis
    by (auto simp: account_created_def c create_session_eq split: response.split intro: store_sound_persist_auth [OF path])
qed

lemma account_deleted_sound:
  assumes s: "store_sound N (user_store_path s) s" and path: "user_store_path s \<noteq> auth_sessions_path (user_store_path s)"
    and tmp: "tmp \<noteq> user_store_path s" and user: "(ur_user_id user, ur_username user) \<in> N"
  shows "store_sound N (user_store_path s) (account_deleted fault fault' tmp user s)"
proof -
  obtain res s1 where c: "delete_commit fault tmp user s = (res, s1)" by fastforce
  have "account_inv s1"
    using delete_commit_inv [of s tmp user fault] s tmp user c by (auto simp: store_sound_def names_stable_def)
  moreover have "user_store_path s1 = user_store_path s"
    using path_register_commit(2) [of fault tmp user s] by (simp add: c)
  moreover have "users s1 = users s \<or> users s1 = hrem (ur_user_id user) (users s)"
    using c by (auto simp: delete_commit_eq Let_def split: if_splits)
  then have "accounts_ok s1 \<and> names_stable N s1"
    using s by (auto simp: store_sound_def accounts_ok_def names_stable_def split: if_splits)
  ultimately have "store_sound N (user_store_path s) s1" by (simp add: store_sound_def)
  then show ?thesis
    by (auto simp: account_deleted_def c split: response.split intro: store_sound_persist_auth [OF path])
qed

lemma login_sound:
  assumes s: "store_sound N (user_store_path s) s" and path: "user_store_path s \<noteq> auth_sessions_path (user_store_path s)"
  shows "store_sound N (user_store_path s) (snd (login_account lower verify now fault tok q s))"
proof -
  have "store_sound N (user_store_path s) (s\<lparr>auth_sessions := a\<rparr>)" for a using s by (rule so.auth)
  then show ?thesis
    using s by (auto simp: login_account_def Let_def create_session_eq split: option.split
        intro: store_sound_persist_auth [OF path])
qed

section \<open>The sessions of pairing keep valid addresses\<close>

lemma macs_okD: "macs_ok s \<Longrightarrow> hget (sessions s) i = Some p \<Longrightarrow> \<exists>m. mac_valid m \<and> pg_mac p = mac_normalized m"
  by (simp add: macs_ok_def)

lemma macs_ok_kept:
  assumes "macs_ok s"
    and "\<And>i p'. hget (sessions s') i = Some p' \<Longrightarrow> \<exists>p. hget (sessions s) i = Some p \<and> pg_mac p' = pg_mac p"
  shows "macs_ok s'"
  unfolding macs_ok_def
proof (intro allI impI)
  fix i p'
  assume "hget (sessions s') i = Some p'"
  with assms(2) obtain p where "hget (sessions s) i = Some p" "pg_mac p' = pg_mac p" by blast
  with macs_okD [OF assms(1)] show "\<exists>m. mac_valid m \<and> pg_mac p' = mac_normalized m" by simp
qed

lemma macs_ok_same: "pairings s' = pairings s \<Longrightarrow> macs_ok s' = macs_ok s"
  by (simp add: macs_ok_def sessions_def)

lemma macs_ok_update: "macs_ok s \<Longrightarrow> (\<And>p. pg_mac (f p) = pg_mac p) \<Longrightarrow> macs_ok (update_session i f s)"
  by (rule macs_ok_kept) (auto split: if_splits)

lemma macs_ok_sessions: "sessions s' = sessions s \<Longrightarrow> macs_ok s' = macs_ok s"
  by (simp add: macs_ok_def)

lemma pairing_step_macs:
  assumes step: "pairing_step x r r'" and ok: "macs_ok (rl_app r)"
  shows "macs_ok (rl_app r')"
  using step
proof (cases rule: pairing_step.cases)
  case (rs_Pair_create owner raw m now rnd h name dev)
  have "hget (sessions (rl_app r')) i = Some p \<Longrightarrow> hget (sessions (rl_app r)) i = Some p \<or> pg_mac p = mac_normalized m" for i p
    using create_locked_effect(2) [of "ex_digest x" now rnd h owner name dev "mac_normalized m" "rl_app r"]
    by (simp add: rs_Pair_create(1)) (metis prod.collapse)
  with macs_okD [OF ok] mac_parse_valid [OF rs_Pair_create(3)] show ?thesis
    unfolding macs_ok_def by metis
next
  case (rs_Pair_resolve owner now i b)
  have "sessions (snd (phone_session (ex_digest x) now owner i b (rl_app r))) = sessions (rl_app r)"
    using phone_session_effect(1) [of "ex_digest x" now owner i b "rl_app r"] by (metis prod.collapse)
  with ok show ?thesis by (simp add: rs_Pair_resolve(1) macs_ok_def)
next
  case (rs_Pair_confirm owner now i b res s')
  consider "sessions s' = sessions (rl_app r)"
    | s1 where "sessions s1 = sessions (rl_app r)" "s' = update_session i (\<lambda>p. p\<lparr>pg_confirmed := True\<rparr>) s1"
    using confirm_locked_effect(2) [OF rs_Pair_confirm(3)] by blast
  then have "macs_ok s'"
  proof cases
    case 1
    from macs_ok_sessions [OF this] ok show ?thesis by blast
  next
    case (2 s1)
    from macs_ok_sessions [OF 2(1)] ok have "macs_ok s1" by blast
    then show ?thesis unfolding 2(2) by (rule macs_ok_update) simp
  qed
  then show ?thesis by (simp add: rs_Pair_confirm(1))
next
  case (rs_Pair_claim owner c s0 now i pf p h tid tok res s')
  obtain y s1 where e: "enroll (ex_digest x) c h owner tid (ex_digest x tok) p (rl_app r) = (y, s1)" by fastforce
  have "macs_ok s1" using ok macs_ok_same [OF enroll_sessions(1) [OF e]] by simp
  then have "macs_ok s'"
    using rs_Pair_claim(8)
    by (auto simp: claim_waited [OF rs_Pair_claim(4-7)] e split: sum.splits intro: macs_ok_update)
  then show ?thesis by (simp add: rs_Pair_claim(1))
next
  case (rs_Pair_cancel owner now i pf)
  obtain y s' where c: "cancel_locked (ex_digest x) now owner i pf (rl_app r) = (y, s')" by fastforce
  have "macs_ok s'" using cancel_locked_effect [OF c] ok by (auto intro: macs_ok_update)
  then show ?thesis by (simp add: rs_Pair_cancel(1) c)
next
  case (rs_Pair_cancel_all owner creator)
  show ?thesis
    by (rule macs_ok_kept [OF ok]) (auto simp: rs_Pair_cancel_all(1) cancel_all_locked_def sessions_def split: if_splits)
next
  case (rs_Pair_sweep now)
  show ?thesis
    by (rule macs_ok_kept [OF ok]) (auto simp: rs_Pair_sweep(1) pairing_prune_def sessions_def split: option.splits if_splits)
qed

section \<open>Every step keeps the invariant\<close>

lemma enrolled_sound:
  assumes s: "store_sound N p s" and c: "sc_tmp c \<noteq> p" and q: "mac_valid m" "pg_mac q = mac_normalized m"
    and e: "enroll digest c h owner tid hash q s = (y, s1)"
  shows "store_sound N p s1"
proof -
  have a: "store_sound N p (s\<lparr>auth_sessions := au\<rparr>)" for au using s by (rule so.auth)
  have "store_sound N p (snd (store_update c owner (m_enroll (sc_now c) tid hash q) t))" if "store_sound N p t" for t
    by (rule so.update [OF that c]) (rule safe_mutations(15) [OF q])
  from this [OF a] have "store_sound N p (snd (enroll digest c h owner tid hash q s))"
    using a s by (auto simp: enroll_def account_def authenticated_user_eq split: sum.split option.split)
  then show ?thesis by (simp add: e)
qed

lemma pairing_step_sound:
  assumes step: "pairing_step x r r'" and macs: "macs_ok (rl_app r)"
    and s: "store_sound N (user_store_path (rl_app r)) (rl_app r)"
  shows "store_sound N (user_store_path (rl_app r)) (rl_app r')"
proof -
  have keep: "store_sound N (user_store_path (rl_app r)) s'" if "touches {P_pairings} (rl_app r) s'" for s'
    using store_sound_touches [OF that] s by simp
  from step show ?thesis
  proof (cases rule: pairing_step.cases)
    case (rs_Pair_claim owner c s0 now i pf p h tid tok res s')
    obtain y s1 where e: "enroll (ex_digest x) c h owner tid (ex_digest x tok) p (rl_app r) = (y, s1)" by fastforce
    have "hget (sessions (rl_app r)) i = Some p"
      using rs_Pair_claim(4,5) by (simp add: desktop_session_Inr sessions_def)
    from macs_okD [OF macs this] obtain m where "mac_valid m" "pg_mac p = mac_normalized m" by blast
    from enrolled_sound [OF s rs_Pair_claim(3) this e] have s1: "store_sound N (user_store_path (rl_app r)) s1" .
    have "store_sound N (user_store_path (rl_app r)) (update_session i f s1)" for f
      using store_sound_touches [OF touches_update_session] s1 by simp
    with s1 have "store_sound N (user_store_path (rl_app r)) s'"
      using rs_Pair_claim(8) by (auto simp: claim_waited [OF rs_Pair_claim(4-7)] e split: sum.splits)
    then show ?thesis by (simp add: rs_Pair_claim(1))
  qed (auto intro: keep touches_create_locked touches_phone touches_eq [OF _ touches_confirm] touches_cancel
      touches_cancel_all)
qed

lemma account_step_sound:
  assumes step: "account_step x r r'" and path: "user_store_path (rl_app r) \<noteq> auth_sessions_path (user_store_path (rl_app r))"
    and s: "store_sound (rl_signed_in r) (user_store_path (rl_app r)) (rl_app r)"
  shows "store_sound (rl_signed_in r') (user_store_path (rl_app r)) (rl_app r')"
  using step
proof (cases rule: account_step.cases)
  case (rs_Sign_in now h user s')
  have u: "account_ok now h (rl_app r) = Some user" and s': "s' = (rl_app r)\<lparr>auth_sessions := auth_token_touched now (bearer_of h) (rl_app r)\<rparr>"
    using rs_Sign_in(2) by (simp_all add: authenticated_user_eq)
  obtain i where i: "hget (users (rl_app r)) i = Some user"
    using u by (auto simp: account_ok_def bind_eq_Some_conv)
  have "ur_user_id user = i" using i s by (simp add: store_sound_def account_inv_def users_keyed_def)
  with i s have "names_stable (rl_signed_in r') (rl_app r)"
    by (auto simp: rs_Sign_in(1) store_sound_def names_stable_def)
  with s have "store_sound (rl_signed_in r') (user_store_path (rl_app r)) (rl_app r)" by (simp add: store_sound_def)
  from so.auth [OF this] show ?thesis by (simp add: rs_Sign_in(1) s')
next
  case (rs_Create_account now uid q user tmp fault fault' tok)
  then show ?thesis using account_created_sound [OF s path] by simp
next
  case (rs_Login now fault tok q)
  then show ?thesis using login_sound [OF s path] by simp
next
  case (rs_Persist fault)
  then show ?thesis using store_sound_persist_auth [OF path s] by simp
next
  case (rs_Delete_account user tmp fault fault')
  then show ?thesis using account_deleted_sound [OF s path] by simp
next
  case (rs_Wake s')
  then show ?thesis using so.every_endpoint [OF _ s] by simp
qed

lemma signed_in_kept:
  "screen_step x r r' \<Longrightarrow> rl_signed_in r' = rl_signed_in r" "resolve_step x r r' \<Longrightarrow> rl_signed_in r' = rl_signed_in r"
  "command_step x r r' \<Longrightarrow> rl_signed_in r' = rl_signed_in r" "socket_step x r r' \<Longrightarrow> rl_signed_in r' = rl_signed_in r"
  "upload_step x r r' \<Longrightarrow> rl_signed_in r' = rl_signed_in r" "pairing_step x r r' \<Longrightarrow> rl_signed_in r' = rl_signed_in r"
  by (auto elim!: screen_step.cases resolve_step.cases command_step.cases socket_step.cases upload_step.cases
      pairing_step.cases)

lemma store_path_kept:
  "store_sound N p s \<Longrightarrow> user_store_path s = p"
  by (simp add: store_sound_def)

lemma sound_touches:
  assumes ok: "relay_sound r" and t: "touches A (rl_app r) (rl_app r')" "P_accounts \<notin> A" "P_pairings \<notin> A"
    and n: "rl_signed_in r' = rl_signed_in r"
  shows "relay_sound r'"
  using ok store_sound_touches [OF t(1,2)] macs_ok_same [OF touchesD(12) [OF t(1,3)]] touchesD(11) [OF t(1,2)]
  by (simp add: relay_sound_def n)

lemma sound_step:
  assumes step: "relay_step x r r'" and ok: "relay_sound r"
  shows "relay_sound r'"
proof -
  note D = ok [unfolded relay_sound_def]
  have done': "relay_sound r'"
    if "store_sound (rl_signed_in r') (user_store_path (rl_app r)) (rl_app r')" "macs_ok (rl_app r')"
    using D that store_path_kept [OF that(1)] by (simp add: relay_sound_def)
  from step show ?thesis
  proof (cases rule: relay_step.cases)
    case rs_account
    have "pairings (rl_app r') = pairings (rl_app r)"
      by (rule touchesD(12) [OF account_step_touches [OF rs_account]]) simp
    then have "macs_ok (rl_app r')" using macs_ok_same D by blast
    with account_step_sound [OF rs_account] D show ?thesis by (intro done') blast+
  next
    case rs_pairing
    with pairing_step_sound [OF rs_pairing] pairing_step_macs [OF rs_pairing] D signed_in_kept(6) [OF rs_pairing]
    show ?thesis by (intro done') simp_all
  next
    case rs_screen
    show ?thesis
      by (rule sound_touches [OF ok screen_step_touches [OF rs_screen] _ _ signed_in_kept(1) [OF rs_screen]]) simp_all
  next
    case rs_resolve
    show ?thesis
      by (rule sound_touches [OF ok resolve_step_touches [OF rs_resolve] _ _ signed_in_kept(2) [OF rs_resolve]]) simp_all
  next
    case rs_command
    show ?thesis
      by (rule sound_touches [OF ok command_step_touches [OF rs_command] _ _ signed_in_kept(3) [OF rs_command]]) simp_all
  next
    case rs_socket
    show ?thesis
      by (rule sound_touches [OF ok socket_step_touches [OF rs_socket] _ _ signed_in_kept(4) [OF rs_socket]]) simp_all
  next
    case rs_upload
    show ?thesis
      by (rule sound_touches [OF ok upload_step_touches [OF rs_upload] _ _ signed_in_kept(5) [OF rs_upload]]) simp_all
  next
    case (rs_quiet s')
    then show ?thesis by (intro sound_touches [OF ok quiet_touches]) simp_all
  next
    case (rs_cleanup now)
    then show ?thesis by (intro sound_touches [OF ok, where A = "{P_screen, P_commands, P_files}"])
      (simp_all add: touches_cleanup)
  qed
qed

text \<open>The database file of a server that starts, and the one a sound server leaves.\<close>

lemma good_disk_users:
  assumes "good_disk path disk"
  shows "\<exists>us. disk_users path disk us \<and> distinct (map ur_user_id us) \<and> distinct (map ur_username us) \<and>
    (\<forall>u \<in> set us. wake_ok (ur_wake u))"
proof (cases "hget disk path")
  case None
  then show ?thesis by (intro exI [of _ "[]"]) (simp add: disk_users_def)
next
  case (Some f)
  with assms obtain us where "f = Users_file us" by (auto simp: good_disk_def split: file_content.splits)
  with Some assms show ?thesis by (intro exI [of _ us]) (simp add: good_disk_def disk_users_def)
qed

lemma start_sound:
  assumes g: "good_disk path disk" and tmp: "tmp \<noteq> path" and st: "start_server now fault tmp path disk = Some s"
  shows "relay_sound (relay_start s)"
proof -
  obtain us where us: "disk_users path disk us" "distinct (map ur_user_id us)" "distinct (map ur_username us)"
    "\<forall>u \<in> set us. wake_ok (ur_wake u)"
    using good_disk_users [OF g] by blast
  have path: "path \<noteq> auth_sessions_path path" using g by (simp add: good_disk_def)
  note sp = start_server_spec [OF st tmp us(1-3)]
  have "wake_ok (recover_after_restart now (ur_wake u))" if "u \<in> set us" for u
    using us(4) that by (intro wake_ok_recover) blast
  then have "accounts_ok s"
    by (auto simp: accounts_ok_def sp(2) find_user_distinct [OF us(2)])
  moreover have "macs_ok s"
  proof -
    have "pairings s = pairing_default"
      using touchesD(12) [OF start_touches [OF st]] by (simp add: app_state_new_def)
    then show ?thesis by (simp add: macs_ok_def sessions_def pairing_default_def)
  qed
  ultimately show ?thesis
    using path sp(1,4) by (simp add: relay_sound_def relay_start_def store_sound_def names_stable_def)
qed

lemma sound_reachable: "relay_reachable x r \<Longrightarrow> relay_sound r"
  by (induction rule: relay_reachable.induct) (auto intro: start_sound sound_step)

lemma sound_good_disk:
  assumes "relay_sound r"
  shows "good_disk (user_store_path (rl_app r)) (files (rl_app r))"
proof -
  have inv: "account_inv (rl_app r)" and ok: "accounts_ok (rl_app r)"
    and path: "user_store_path (rl_app r) \<noteq> auth_sessions_path (user_store_path (rl_app r))"
    using assms by (simp_all add: relay_sound_def store_sound_def)
  obtain us where us: "hget (files (rl_app r)) (user_store_path (rl_app r)) = Some (Users_file us)"
    and rep: "represents us (users (rl_app r))"
    using inv by (auto simp: account_inv_def store_synced_def)
  have "wake_ok (ur_wake u)" if "u \<in> set us" for u
    using that rep ok by (auto simp: represents_def accounts_ok_def)
  moreover have "distinct (map ur_user_id us)" using rep by (simp add: represents_def)
  ultimately show ?thesis
    using us path distinct_names [OF inv rep] by (simp add: good_disk_def)
qed

end
