(* ===== verification/Relay_Run.thy ===== *)
theory Relay_Run
  imports Relay_Access Relay_Accounts
begin

text \<open>
  A concrete run of the relay: a server starts on an empty disk, a host registers, a viewer shows its
  password and is let in, sends a tap, and the host polls it.  The properties of \<open>Relay_Props\<close> are
  instantiated on it.
\<close>

definition demo_outside :: outside where
  "demo_outside = \<lparr>ex_digest = id, ex_lower = id, ex_hash = Some, ex_verify = (=),
     ex_parse_result = (\<lambda>_. None), ex_parse_json = (\<lambda>_. None)\<rparr>"

definition run_register :: register_preview_request where
  "run_register = \<lparr>rp_device_id = ''123'', rp_auth_token = None, rp_host_token = None, rp_platform = ''macos'',
     rp_hostname = ''mac'', rp_password_hash = ''h'', rp_auto_accept = False, rp_trusted_viewers = [],
     rp_on_demand_capture = False\<rparr>"

definition run_resolve :: resolve_preview_request where
  "run_resolve = \<lparr>rr_password_hash = Some ''h'', rr_requester_id = None, rr_auth_token = None,
     rr_requester_hostname = None, rr_requester_peer_os = None\<rparr>"

definition run_entry :: preview_registration where
  "run_entry = \<lparr>pr_device_id = ''123'', pr_user_id = None, pr_platform = ''macos'', pr_hostname = ''mac'',
     pr_password_hash = ''h'', pr_auto_accept = False, pr_trusted_viewers = [], pr_host_token = ''ht'',
     pr_on_demand_capture = False, pr_updated_at_ms = 1000\<rparr>"

definition run_tap :: pending_command where
  "run_tap = \<lparr>pc_command_id = ''id1'', pc_kind = ''tap'', pc_payload = command_payload (Tap 1 2), pc_queued_at_ms = 2100\<rparr>"

definition run0 :: app_state where
  "run0 = the (start_server 1000 No_fault ''.t'' ''users.json'' hempty)"

definition run1 :: app_state where "run1 = snd (register_preview 1000 ''ht'' run_register run0)"
definition run2 :: app_state where "run2 = snd (resolve_preview 2000 ''123'' hempty ''vt'' ''c0'' run_resolve run1)"
definition run3 :: app_state where "run3 = snd (send_command 2100 ''123'' ''vt'' ''id1'' (Tap 1 2) run2)"
definition run4 :: app_state where "run4 = snd (poll_turn 2200 ''123'' run3)"

lemma run0_start: "start_server 1000 No_fault ''.t'' ''users.json'' hempty = Some run0"
  by (simp add: run0_def start_server_eq load_users_def app_state_new_def)

lemma run0_empty:
  "previews run0 = hempty" "frames run0 = hempty" "command_queues run0 = hempty" "hget (viewer_sessions run0) t = None"
proof -
  note t = start_touches [OF run0_start]
  show "previews run0 = hempty" "frames run0 = hempty" using touchesD(1,3) [OF t] by (simp_all add: app_state_new_def)
  show "command_queues run0 = hempty"
    using touchesD(4) [OF t] by (simp add: same_commands_def app_state_new_def)
  have "viewers_kept (app_state_new ''users.json'' hempty) run0" by (rule touches_viewers [OF t]) simp
  then show "hget (viewer_sessions run0) t = None"
    unfolding viewers_kept_def by (cases "hget (viewer_sessions run0) t") (auto simp: app_state_new_def)
qed

lemma run1_eq: "register_preview 1000 ''ht'' run_register run0 = (Ok_with ''ht'', run1)"
  "previews run1 = hput ''123'' run_entry hempty" "command_queues run1 = hempty"
  "viewer_sessions run1 = viewer_sessions run0"
  by (simp_all add: run1_def register_preview_def run_register_def run0_empty check_eqs auth_token_ok_def
      auth_token_touched_def run_entry_def)

lemma run_polling: "\<not> rp_on_demand_capture run_register"
  by (simp add: run_register_def)

lemma run2_eq:
  "\<exists>resp. resolve_preview 2000 ''123'' hempty ''vt'' ''c0'' run_resolve run1 = (Resolved resp, run2) \<and> rs_authorized resp"
  "run2 = run1\<lparr>viewer_sessions := hput ''vt'' \<lparr>vs_device_id = ''123'', vs_last_seen_ms = 2000\<rparr> (viewer_sessions run1)\<rparr>"
  by (simp_all add: run2_def resolve_preview_def run1_eq run_entry_def run_resolve_def is_fresh_def PREVIEW_TTL_MS_def
      same_account_def password_ok_def grant_viewer_def)

lemma run3_eq:
  "send_command 2100 ''123'' ''vt'' ''id1'' (Tap 1 2) run2 = (Inr ''id1'', run3)"
  "device_queue ''123'' run3 = [run_tap]" "validate_host 2200 ''123'' ''ht'' run3"
proof -
  have ok: "viewer_ok 2100 ''123'' ''vt'' run2"
    by (simp add: viewer_ok_def run2_eq(2) VIEWER_SESSION_TTL_MS_def)
  show "send_command 2100 ''123'' ''vt'' ''id1'' (Tap 1 2) run2 = (Inr ''id1'', run3)"
    "device_queue ''123'' run3 = [run_tap]" "validate_host 2200 ''123'' ''ht'' run3"
    using ok
    by (simp_all add: run3_def send_command_def forward_start_def validate_viewer_eq run2_eq(2) run1_eq run_entry_def
        is_fresh_def PREVIEW_TTL_MS_def queue_command_def device_queue_def hor_default_def run_tap_def validate_host_iff)
qed

lemma run4_eq: "poll_turn 2200 ''123'' run3 = (Some run_tap, run4)"
proof -
  have "fst (poll_turn 2200 ''123'' run3) = Some run_tap"
    by (simp add: poll_turn_fields(1) run3_eq(2) run_tap_def is_fresh_def COMMAND_TTL_MS_def)
  then show ?thesis unfolding run4_def by (metis prod.collapse)
qed

definition run_grant :: "string \<times> string \<times> grant_reason" where
  "run_grant = (''123'', ''vt'', By_request 2000 run_resolve run_entry (auth_token_ok 2000 None run1))"

definition relay_run :: "nat \<Rightarrow> relay_sys" where
  "relay_run n =
     (if n = 0 then relay_start run0
      else if n = 1 then (relay_start run0)\<lparr>rl_app := run1\<rparr>
      else if n = 2 then (relay_start run0)\<lparr>rl_app := run2, rl_grants := {run_grant}\<rparr>
      else if n = 3 then (relay_start run0)\<lparr>rl_app := run3, rl_grants := {run_grant},
        rl_origin := [''id1'' \<mapsto> Queued_by ''123'' ''vt''], rl_pending := [''id1'' \<mapsto> H_command]\<rparr>
      else (relay_start run0)\<lparr>rl_app := run4, rl_grants := {run_grant},
        rl_origin := [''id1'' \<mapsto> Queued_by ''123'' ''vt''], rl_pending := [''id1'' \<mapsto> H_command],
        rl_polling := {''123''}, rl_delivered := [(''123'', ''id1'')]\<rparr>)"

lemma run_good_disk: "good_disk ''users.json'' hempty"
  by (simp add: good_disk_def)

lemma relay_run_reachable: "relay_reachable x (relay_run 0)" "relay_reachable x (relay_run 1)"
  "relay_reachable x (relay_run 2)" "relay_reachable x (relay_run 3)" "relay_reachable x (relay_run 4)"
proof -
  have "relay_reachable x (relay_start run0)"
    by (rule relay_init [OF run_good_disk _ run0_start]) simp
  then show 0: "relay_reachable x (relay_run 0)" by (simp add: relay_run_def)
  have "screen_step x (relay_run 0) (relay_run 1)"
    using rs_Register [where x = x and r = "relay_run 0" and q = run_register and now = 1000 and tok = "''ht''"]
    by (simp add: relay_run_def relay_start_def run1_eq run_polling)
  from relay_next [OF 0 rs_screen [OF this]] show 1: "relay_reachable x (relay_run 1)" .
  obtain resp where r: "resolve_preview 2000 ''123'' hempty ''vt'' ''c0'' run_resolve run1 = (Resolved resp, run2)"
    "rs_authorized resp" using run2_eq(1) by blast
  have "resolve_step x (relay_run 1) (relay_run 2)"
    using rs_Resolve [of 2000 "''123''" hempty "''vt''" "''c0''" run_resolve "relay_run 1" resp run2 x] r
    by (simp add: relay_run_def relay_start_def run_grant_def run1_eq run_resolve_def)
  from relay_next [OF 1 rs_resolve [OF this]] show 2: "relay_reachable x (relay_run 2)" .
  have "command_step x (relay_run 2) (relay_run 3)"
    using rs_Command [of "relay_run 2" "''id1''" 2100 "''123''" "''vt''" "Tap 1 2" run3 x] run3_eq(1)
    by (simp add: relay_run_def relay_start_def)
  from relay_next [OF 2 rs_command [OF this]] show 3: "relay_reachable x (relay_run 3)" .
  let ?r = "(relay_run 3)\<lparr>rl_polling := {''123''}\<rparr>"
  have "command_step x (relay_run 3) ?r"
    using rs_Poll_begin [of 2200 "''123''" "''ht''" "relay_run 3" x] run3_eq(3)
    by (simp add: relay_run_def relay_start_def)
  from relay_next [OF 3 rs_command [OF this]] have p: "relay_reachable x ?r" .
  have "command_step x ?r (relay_run 4)"
    using rs_Poll [of "''123''" ?r 2200 run_tap run4 x] run4_eq
    by (simp add: relay_run_def relay_start_def run_tap_def)
  from relay_next [OF p rs_command [OF this]] show "relay_reachable x (relay_run 4)" .
qed

end
