(* ===== verification/Routes.thy ===== *)
theory Routes
  imports Rust_Str
begin

text \<open>
  The routing table of the relay server: the router of \<open>main\<close> in \<open>main.rs\<close>, of \<open>wake/routes.rs\<close> and of
  \<open>wake/pairing.rs\<close>, with the limits on request bodies.  A handler is the name of its function, with the
  module it is in.  How a path is matched against a pattern is the \<open>axum\<close> crate's business and a parameter.
\<close>

section \<open>Routers\<close>

datatype http_method = GET | POST | PUT | DELETE

datatype body_limit = Default_limit | Max_bytes nat | No_limit

record route =
  rt_path :: string
  rt_methods :: "(http_method \<times> string) list"
  rt_limit :: body_limit

type_synonym router = "route list"

definition route_to :: "string \<Rightarrow> (http_method \<times> string) list \<Rightarrow> route" where
  "route_to path methods = \<lparr>rt_path = path, rt_methods = methods, rt_limit = Default_limit\<rparr>"

text \<open>
  \<open>layer(DefaultBodyLimit)\<close> on a router applies to the routes it has so far; a route that set its own limit
  keeps it, as the inner layer is the last to speak.
\<close>

definition layer :: "body_limit \<Rightarrow> router \<Rightarrow> router" where
  "layer l = map (\<lambda>r. if rt_limit r = Default_limit then r\<lparr>rt_limit := l\<rparr> else r)"

section \<open>The table\<close>

definition pairing_routes :: router where
  "pairing_routes = layer (Max_bytes (16 * 1024))
     [route_to ''/api/wake/pairings'' [(POST, ''pairing::create'')],
      route_to ''/api/wake/pairings/resolve'' [(POST, ''pairing::resolve'')],
      route_to ''/api/wake/pairings/cancel-all'' [(POST, ''pairing::cancel_all'')],
      route_to ''/api/wake/pairings/:id/confirm'' [(POST, ''pairing::confirm'')],
      route_to ''/api/wake/pairings/:id/status'' [(POST, ''pairing::status'')],
      route_to ''/api/wake/pairings/:id/claim'' [(POST, ''pairing::claim'')],
      route_to ''/api/wake/pairings/:id/cancel'' [(POST, ''pairing::cancel'')],
      route_to ''/api/wake/targets/:id/complete'' [(POST, ''pairing::complete'')]]"

definition wake_routes :: router where
  "wake_routes = layer (Max_bytes (16 * 1024)) (pairing_routes @
     [route_to ''/api/wake/targets'' [(GET, ''wake::targets''), (POST, ''wake::create_target'')],
      route_to ''/api/wake/targets/:id'' [(PUT, ''wake::update_target''), (DELETE, ''wake::delete_target'')],
      route_to ''/api/wake/targets/:id/rotate-token'' [(POST, ''wake::rotate_target'')],
      route_to ''/api/wake/targets/:id/heartbeat'' [(POST, ''wake::heartbeat'')],
      route_to ''/api/wake/agents'' [(GET, ''wake::agents''), (POST, ''wake::create_agent'')],
      route_to ''/api/wake/agents/:id'' [(DELETE, ''wake::delete_agent'')],
      route_to ''/api/wake/agents/:id/disable'' [(POST, ''wake::disable_agent'')],
      route_to ''/api/wake/agents/:id/stop'' [(POST, ''wake::stop_agent'')],
      route_to ''/api/wake/agents/:id/enable'' [(POST, ''wake::enable_agent'')],
      route_to ''/api/wake/agents/:id/poll'' [(POST, ''wake::poll'')],
      route_to ''/api/wake/requests'' [(POST, ''wake::create_request''), (GET, ''wake::history'')],
      route_to ''/api/wake/requests/:id'' [(GET, ''wake::request_status'')],
      route_to ''/api/wake/requests/:id/authorize-send'' [(POST, ''wake::authorize'')],
      route_to ''/api/wake/requests/:id/result'' [(POST, ''wake::result'')]])"

definition server_routes :: router where
  "server_routes = wake_routes @
     [route_to ''/health'' [(GET, ''health'')],
      route_to ''/debug'' [(GET, ''debug_state'')],
      route_to ''/frame.jpg'' [(GET, ''fetch_frame'')],
      route_to ''/session/trust'' [(POST, ''session_trust'')],
      route_to ''/session/close'' [(POST, ''close_viewer_session'')],
      route_to ''/session/screen/stop'' [(POST, ''stop_viewer_screen'')],
      route_to ''/input/tap'' [(POST, ''input_tap'')],
      route_to ''/input/action'' [(POST, ''input_action'')],
      route_to ''/input/long_press'' [(POST, ''input_long_press'')],
      route_to ''/input/drag'' [(POST, ''input_drag'')],
      route_to ''/input/drag_path'' [(POST, ''input_drag_path'')],
      route_to ''/input/text'' [(POST, ''input_text'')],
      route_to ''/clipboard/set'' [(POST, ''clipboard_set'')],
      route_to ''/clipboard/get'' [(GET, ''clipboard_get'')],
      route_to ''/displays'' [(GET, ''list_displays'')],
      route_to ''/settings/quality'' [(POST, ''settings_quality'')],
      route_to ''/api/preview/register'' [(POST, ''register_preview'')],
      route_to ''/api/preview/unregister'' [(POST, ''unregister_preview'')],
      route_to ''/api/preview/disconnect_viewers'' [(POST, ''disconnect_viewers'')],
      route_to ''/api/preview/resolve/:device_id'' [(POST, ''resolve_preview'')],
      route_to ''/api/preview/host/frame'' [(POST, ''upload_frame'')],
      route_to ''/api/preview/host/viewers'' [(GET, ''host_screen_demand'')],
      route_to ''/api/preview/host/control/poll'' [(GET, ''poll_host_command'')],
      route_to ''/api/account/register'' [(POST, ''register_account'')],
      route_to ''/api/account/login'' [(POST, ''login_account'')],
      route_to ''/api/account/presence'' [(POST, ''upsert_account_presence'')],
      route_to ''/api/account/devices'' [(GET, ''list_account_devices'')],
      route_to ''/api/account/delete'' [(POST, ''delete_account'')],
      route_to ''/api/preview/host/control/result'' [(POST, ''complete_host_command'')],
      route_to ''/ws/host/:device_id'' [(GET, ''ws_host_handler'')],
      route_to ''/ws/viewer/:device_id'' [(GET, ''ws_viewer_handler'')],
      route_to ''/api/file/list'' [(POST, ''file_list_request'')]] @
     layer No_limit [route_to ''/api/file/upload'' [(POST, ''file_upload'')]] @
     [route_to ''/api/file/host/download/:file_id'' [(GET, ''file_host_download'')],
      route_to ''/api/file/download/:file_id'' [(GET, ''file_download'')]]"

section \<open>What the table promises\<close>

text \<open>The segments of a path, and when two patterns can be told apart by a literal segment.\<close>

definition segments :: "string \<Rightarrow> string list" where
  "segments path = split_on CHR ''/'' path"

definition is_param :: "string \<Rightarrow> bool" where
  "is_param s = (case s of [] \<Rightarrow> False | c # _ \<Rightarrow> c = CHR '':'')"

definition apart :: "string list \<Rightarrow> string list \<Rightarrow> bool" where
  "apart p q \<longleftrightarrow> length p \<noteq> length q \<or>
     list_ex (\<lambda>(a, b). \<not> is_param a \<and> \<not> is_param b \<and> a \<noteq> b) (zip p q)"

text \<open>What is relied on of the matching: as many segments as the pattern, literal ones as they are.\<close>

definition respects_literals :: "(string \<Rightarrow> string \<Rightarrow> bool) \<Rightarrow> bool" where
  "respects_literals matches \<longleftrightarrow> (\<forall>pat path. matches pat path \<longrightarrow>
     list_all2 (\<lambda>a b. is_param a \<or> a = b) (segments pat) (segments path))"

lemma apart_nth:
  "apart p q \<longleftrightarrow> length p \<noteq> length q \<or>
     (\<exists>i < length p. \<not> is_param (p ! i) \<and> \<not> is_param (q ! i) \<and> p ! i \<noteq> q ! i)"
  by (cases "length p = length q") (force simp: apart_def list_ex_iff in_set_zip)+

lemma apart_sym: "apart p q = apart q p"
  by (cases "length p = length q") (auto simp: apart_nth)

lemma apart_not_both:
  assumes "apart p q" and "list_all2 (\<lambda>a b. is_param a \<or> a = b) p xs"
  shows "\<not> list_all2 (\<lambda>a b. is_param a \<or> a = b) q xs"
proof
  assume q: "list_all2 (\<lambda>a b. is_param a \<or> a = b) q xs"
  with assms(2) have len: "length p = length q" by (simp add: list_all2_lengthD)
  with assms(1) obtain i where i: "i < length p" "\<not> is_param (p ! i)" "\<not> is_param (q ! i)" "p ! i \<noteq> q ! i"
    by (auto simp: apart_nth)
  then have "p ! i = xs ! i" "q ! i = xs ! i"
    using assms(2) q len by (auto dest: list_all2_nthD)
  with i show False by simp
qed

fun pairwise_apart :: "string list list \<Rightarrow> bool" where
  "pairwise_apart [] = True"
| "pairwise_apart (p # ps) = (list_all (apart p) ps \<and> pairwise_apart ps)"

lemma pairwise_apartD:
  "pairwise_apart ps \<Longrightarrow> i < length ps \<Longrightarrow> j < length ps \<Longrightarrow> i \<noteq> j \<Longrightarrow> apart (ps ! i) (ps ! j)"
proof (induction ps arbitrary: i j)
  case (Cons p ps)
  then show ?case
    by (cases i; cases j) (auto simp: list_all_iff apart_sym)
qed simp

lemmas routing_table = server_routes_def wake_routes_def pairing_routes_def layer_def route_to_def

lemma routes_apart: "pairwise_apart (map (segments \<circ> rt_path) server_routes)"
  by (simp add: routing_table segments_def apart_def is_param_def)

lemma routes_unambiguous:
  assumes "respects_literals matches"
    and i: "i < length server_routes" "matches (rt_path (server_routes ! i)) path"
    and j: "j < length server_routes" "matches (rt_path (server_routes ! j)) path"
  shows "i = j"
proof (rule ccontr)
  assume "i \<noteq> j"
  with pairwise_apartD [OF routes_apart, of i j] i(1) j(1)
  have "apart (segments (rt_path (server_routes ! i))) (segments (rt_path (server_routes ! j)))" by simp
  from apart_not_both [OF this] assms(1) i(2) j(2) show False by (auto simp: respects_literals_def)
qed

text \<open>No method of a path is registered twice, every path is absolute, and every handler has one place.\<close>

lemma routes_registered_once:
  "distinct (map rt_path server_routes) \<and>
   list_all (\<lambda>r. distinct (map fst (rt_methods r)) \<and> take 1 (rt_path r) = ''/'') server_routes \<and>
   distinct (map snd (concat (map rt_methods server_routes)))"
  by (simp add: routing_table)

text \<open>Every endpoint of remote wake reads at most 16 KiB; only the upload of a file has no limit of the router.\<close>

definition under_wake :: "route \<Rightarrow> bool" where
  "under_wake r = (take 10 (rt_path r) = ''/api/wake/'')"

lemma body_limits:
  "r \<in> set server_routes \<Longrightarrow> rt_limit r =
     (if under_wake r then Max_bytes 16384
      else if map snd (rt_methods r) = [''file_upload''] then No_limit else Default_limit)"
proof -
  have "list_all (\<lambda>r. rt_limit r =
     (if under_wake r then Max_bytes 16384
      else if map snd (rt_methods r) = [''file_upload''] then No_limit else Default_limit)) server_routes"
    by (simp add: routing_table under_wake_def)
  then show "r \<in> set server_routes \<Longrightarrow> ?thesis" by (simp add: list_all_iff)
qed

end
