(* ===== verification/Server_Main.thy ===== *)
theory Server_Main
  imports Relay_Run Routes
begin

text \<open>
  The program \<open>rdesk-server\<close>: the arguments, start-up, and the background task of \<open>main\<close>
  (\<open>crates/rdesk_server/src/main.rs\<close>), which sweeps every 15 seconds and writes the sessions to disk at every
  twentieth tick.  Reading an address and binding it are parameters.
\<close>

section \<open>Start-up\<close>

record args =
  ag_host :: string
  ag_signaling_port :: "16 word"
  ag_relay_port :: "16 word"
  ag_user_store_path :: string

definition args_default :: args where
  "args_default = \<lparr>ag_host = ''0.0.0.0'', ag_signaling_port = 21116, ag_relay_port = 21117,
     ag_user_store_path = ''data/rdesk-users.json''\<rparr>"

definition signaling_addr :: "args \<Rightarrow> string" where
  "signaling_addr a = ag_host a @ '':'' @ to_decimal (unat (ag_signaling_port a))"

definition server_main ::
  "(string \<Rightarrow> 'addr option) \<Rightarrow> ('addr \<Rightarrow> bool) \<Rightarrow> ms \<Rightarrow> write_fault \<Rightarrow> string \<Rightarrow> args \<Rightarrow>
     (string, file_content) hmap \<Rightarrow> ('addr \<times> router \<times> app_state) option" where
  "server_main parse_addr bind now fault tmp a disk =
     (case start_server now fault tmp (ag_user_store_path a) disk of
        None \<Rightarrow> None
      | Some state \<Rightarrow>
          (case parse_addr (signaling_addr a) of
             None \<Rightarrow> None
           | Some addr \<Rightarrow> if bind addr then Some (addr, server_routes, state) else None))"

section \<open>The background task\<close>

text \<open>
  One tick.  The parts of the sweep are separated by suspension points; in the runs of the relay each is a
  step of its own.  The counter is a \<open>u32\<close>.
\<close>

definition cleanup_tick ::
  "(nat \<Rightarrow> store_call) \<Rightarrow> ms \<Rightarrow> ms \<Rightarrow> write_fault \<Rightarrow> u32 \<times> app_state \<Rightarrow> u32 \<times> app_state" where
  "cleanup_tick calls now now' fault = (\<lambda>(persist_counter, s).
     let s1 = cleanup_expired now s;
         s2 = wake_cleanup calls now' s1;
         persist_counter = persist_counter + 1
     in if 20 \<le> persist_counter then (0, snd (persist_auth_sessions fault s2)) else (persist_counter, s2))"

record tick =
  tk_calls :: "nat \<Rightarrow> store_call"
  tk_now :: ms
  tk_wake_now :: ms
  tk_fault :: write_fault

definition cleanup_ticks :: "tick list \<Rightarrow> u32 \<times> app_state \<Rightarrow> u32 \<times> app_state" where
  "cleanup_ticks = fold (\<lambda>t. cleanup_tick (tk_calls t) (tk_now t) (tk_wake_now t) (tk_fault t))"

section \<open>Start-up gives a relay\<close>

lemma server_main_serves:
  "good_disk (ag_user_store_path a) disk \<Longrightarrow> tmp \<noteq> ag_user_store_path a \<Longrightarrow>
   server_main parse_addr bind now fault tmp a disk = Some (addr, rs, s) \<Longrightarrow>
   relay_reachable x (relay_start s) \<and> rs = server_routes \<and> bind addr \<and> parse_addr (signaling_addr a) = Some addr"
  by (auto simp: server_main_def split: option.splits if_splits intro: relay_init)

text \<open>The relay port is read and logged, and nothing else.\<close>

lemma relay_port_unused:
  "server_main parse_addr bind now fault tmp (a\<lparr>ag_relay_port := p\<rparr>) disk =
   server_main parse_addr bind now fault tmp a disk"
proof -
  have "signaling_addr (a\<lparr>ag_relay_port := p\<rparr>) = signaling_addr a" by (simp add: signaling_addr_def)
  then show ?thesis by (simp add: server_main_def split: option.split)
qed

section \<open>The counter\<close>

lemma u32_less_20: "unat (n :: u32) < 20 \<Longrightarrow> unat (n + 1) = unat n + 1"
  by (simp add: unat_word_ariths)

lemma tick_counter:
  assumes "unat n < 20"
  shows "unat (fst (cleanup_tick calls now now' fault (n, s))) = (unat n + 1) mod 20"
proof -
  have "unat (n + 1) = unat n + 1" by (rule u32_less_20 [OF assms])
  moreover have "20 \<le> n + 1 \<longleftrightarrow> 20 \<le> unat (n + 1)" by (simp add: word_le_nat_alt)
  ultimately show ?thesis using assms
    by (cases "unat n = 19") (auto simp: cleanup_tick_def Let_def)
qed

lemma ticks_counter: "unat n < 20 \<Longrightarrow> unat (fst (cleanup_ticks ts (n, s))) = (unat n + length ts) mod 20"
proof (induction ts arbitrary: n s)
  case (Cons t ts)
  obtain n' s' where t: "cleanup_tick (tk_calls t) (tk_now t) (tk_wake_now t) (tk_fault t) (n, s) = (n', s')"
    by fastforce
  with tick_counter [OF Cons.prems] have n': "unat n' = (unat n + 1) mod 20" by (metis fst_conv)
  then have "unat n' < 20" by simp
  from Cons.IH [OF this] t n' show ?case by (simp add: cleanup_ticks_def mod_add_left_eq)
qed (simp add: cleanup_ticks_def)

text \<open>At every twentieth tick the file of the sessions is what the sessions are then.\<close>

lemma twentieth_tick_saves:
  assumes "length ts mod 20 = 19" and "cleanup_ticks (ts @ [t]) (0, s) = (n, s')" and "tk_fault t = No_fault"
  shows "n = 0 \<and> hget (files s') (auth_sessions_path (user_store_path s')) =
    Some (Sessions_file (hlist (auth_sessions s')))"
proof -
  obtain m s1 where m: "cleanup_ticks ts (0, s) = (m, s1)" by fastforce
  with ticks_counter [of 0 ts s] assms(1) have "unat m = 19" by simp
  then have "unat (m + 1) = 20" by (simp add: u32_less_20)
  then have "20 \<le> m + 1" by (simp add: word_le_nat_alt)
  with assms(2,3) m show ?thesis
    by (auto simp: cleanup_ticks_def cleanup_tick_def Let_def persist_auth_sessions_def set_file_def)
qed

section \<open>A tick is a piece of a run\<close>

lemma run_wake:
  assumes r: "relay_reachable x r" and w: "wake_op (ex_digest x) (user_store_path (rl_app r)) (rl_app r) s'"
  shows "relay_reachable x (r\<lparr>rl_app := s'\<rparr>)" "user_store_path s' = user_store_path (rl_app r)"
proof -
  have st: "account_step x r (r\<lparr>rl_app := s'\<rparr>)" by (rule rs_Wake [OF w])
  show "relay_reachable x (r\<lparr>rl_app := s'\<rparr>)" by (rule relay_next [OF r rs_account [OF st]])
  from sound_reachable [OF r] have "store_sound (rl_signed_in r) (user_store_path (rl_app r)) (rl_app r)"
    "user_store_path (rl_app r) \<noteq> auth_sessions_path (user_store_path (rl_app r))"
    by (simp_all add: relay_sound_def)
  from account_step_sound [OF st this(2,1)] show "user_store_path s' = user_store_path (rl_app r)"
    by (simp add: store_sound_def)
qed

lemma run_advances:
  assumes "relay_reachable x (r\<lparr>rl_app := s\<rparr>)" and "\<And>k. sc_tmp (calls k) \<noteq> user_store_path s"
  shows "relay_reachable x (r\<lparr>rl_app := fold (\<lambda>(k, owner) s. snd (advance (calls k) owner s)) ks s\<rparr>)"
  using assms
proof (induction ks arbitrary: s)
  case (Cons p ks)
  obtain k owner where p: "p = (k, owner)" by fastforce
  have "wake_op (ex_digest x) (user_store_path s) s (snd (advance (calls k) owner s))"
    by (rule wo_advance [OF Cons.prems(2)])
  note s' = run_wake [OF Cons.prems(1), simplified, OF this]
  show ?case using Cons.IH [OF s'(1)] Cons.prems(2) s'(2) by (simp add: p)
qed simp

lemma run_wake_cleanup:
  assumes "relay_reachable x (r\<lparr>rl_app := s\<rparr>)" and "\<And>k. sc_tmp (calls k) \<noteq> user_store_path s"
  shows "relay_reachable x (r\<lparr>rl_app := wake_cleanup calls now s\<rparr>)"
proof -
  have "relay_reachable x (r\<lparr>rl_app := set_pairings (pairing_prune now (pairings s)) s\<rparr>)"
    using relay_next [OF assms(1) rs_pairing [OF rs_Pair_sweep [of x "r\<lparr>rl_app := s\<rparr>" now]]] by simp
  note swept = run_wake [OF this, simplified, OF wo_sweep_seen]
  show ?thesis
    unfolding wake_cleanup_def Let_def
    by (rule run_advances) (use swept assms(2) in \<open>simp_all add: set_pairings_def map_agents_def map_targets_def\<close>)
qed

lemma run_persist:
  "relay_reachable x (r\<lparr>rl_app := s\<rparr>) \<Longrightarrow>
   relay_reachable x (r\<lparr>rl_app := snd (persist_auth_sessions fault s)\<rparr>)"
  using relay_next [of x "r\<lparr>rl_app := s\<rparr>", OF _ rs_account [OF rs_Persist]] by simp

lemma tick_is_a_run:
  assumes r: "relay_reachable x r" and c: "\<And>k. sc_tmp (calls k) \<noteq> user_store_path (rl_app r)"
  shows "relay_reachable x (r\<lparr>rl_app := snd (cleanup_tick calls now now' fault (n, rl_app r))\<rparr>)"
proof -
  have swept: "relay_reachable x (r\<lparr>rl_app := cleanup_expired now (rl_app r)\<rparr>)"
    by (rule relay_next [OF r rs_cleanup])
  have "user_store_path (cleanup_expired now (rl_app r)) = user_store_path (rl_app r)"
    by (rule touchesD(11) [OF touches_cleanup]) simp
  with c have "relay_reachable x (r\<lparr>rl_app := wake_cleanup calls now' (cleanup_expired now (rl_app r))\<rparr>)"
    by (intro run_wake_cleanup [OF swept]) simp
  then show ?thesis by (simp add: cleanup_tick_def Let_def run_persist)
qed

lemma advance_path: "user_store_path (snd (advance c owner s)) = user_store_path s"
  by (auto simp: advance_def store_update_def update_wake_def Let_def case_prod_beta split: option.split sum.split)

lemma wake_cleanup_path: "user_store_path (wake_cleanup calls now s) = user_store_path s"
proof -
  have "user_store_path (fold (\<lambda>(k, owner) s. snd (advance (calls k) owner s)) ks s) = user_store_path s" for ks s
    by (induction ks arbitrary: s) (auto simp: advance_path)
  then show ?thesis by (simp add: wake_cleanup_def Let_def map_agents_def map_targets_def)
qed

lemma tick_keeps_path:
  assumes r: "relay_reachable x r" and c: "\<And>k. sc_tmp (calls k) \<noteq> user_store_path (rl_app r)"
  shows "user_store_path (snd (cleanup_tick calls now now' fault (n, rl_app r))) = user_store_path (rl_app r)"
proof -
  have "touches {P_screen, P_commands, P_files} (rl_app r) (cleanup_expired now (rl_app r))" by (rule touches_cleanup)
  then have "user_store_path (cleanup_expired now (rl_app r)) = user_store_path (rl_app r)"
    by (rule touchesD(11)) simp
  moreover have "user_store_path (wake_cleanup calls now' s) = user_store_path s" for s
    by (rule wake_cleanup_path)
  ultimately show ?thesis
    by (simp add: cleanup_tick_def Let_def)
qed

lemma ticks_are_a_run:
  assumes "relay_reachable x r" and "\<And>t k. t \<in> set ts \<Longrightarrow> sc_tmp (tk_calls t k) \<noteq> user_store_path (rl_app r)"
  shows "relay_reachable x (r\<lparr>rl_app := snd (cleanup_ticks ts (n, rl_app r))\<rparr>) \<and>
    user_store_path (snd (cleanup_ticks ts (n, rl_app r))) = user_store_path (rl_app r)"
  using assms
proof (induction ts arbitrary: n r)
  case (Cons t ts)
  let ?p = "cleanup_tick (tk_calls t) (tk_now t) (tk_wake_now t) (tk_fault t) (n, rl_app r)"
  obtain m s where p: "?p = (m, s)" by fastforce
  note run = tick_is_a_run [where calls = "tk_calls t" and n = n and now = "tk_now t" and now' = "tk_wake_now t" and fault = "tk_fault t",
      OF Cons.prems(1) Cons.prems(2) [OF list.set_intros(1)]]
  have path: "user_store_path s = user_store_path (rl_app r)"
    using tick_keeps_path [where calls = "tk_calls t" and n = n and now = "tk_now t" and now' = "tk_wake_now t" and fault = "tk_fault t",
        OF Cons.prems(1) Cons.prems(2) [OF list.set_intros(1)]]
    by (simp add: p)
  from Cons.IH [of "r\<lparr>rl_app := s\<rparr>" m] run Cons.prems(2) path show ?case
    by (simp add: p cleanup_ticks_def)
qed (simp add: cleanup_ticks_def)

section \<open>Logins survive a restart\<close>

lemma fold_users_keeps:
  "user_store_path (fold (\<lambda>u s. s\<lparr>username_index := g u s, users := h u s\<rparr>) us s) = user_store_path s"
  "files (fold (\<lambda>u s. s\<lparr>username_index := g u s, users := h u s\<rparr>) us s) = files s"
  "auth_sessions (fold (\<lambda>u s. s\<lparr>username_index := g u s, users := h u s\<rparr>) us s) = auth_sessions s"
  by (induction us arbitrary: s) simp_all

lemma load_users_keeps:
  assumes "load_users now s = Some s'"
  shows "user_store_path s' = user_store_path s" "files s' = files s" "auth_sessions s' = auth_sessions s"
  using assms
  by (auto simp: load_users_def Let_def fold_users_keeps split: option.splits file_content.splits)

lemma load_sessions_fold:
  "distinct (map fst xs) \<Longrightarrow>
   hget (auth_sessions (fold (\<lambda>(token, session) s. if P session
       then s\<lparr>auth_sessions := hput token session (auth_sessions s)\<rparr> else s) xs s)) k =
   (case map_of xs k of Some a \<Rightarrow> if P a then Some a else hget (auth_sessions s) k | None \<Rightarrow> hget (auth_sessions s) k)"
proof (induction xs arbitrary: s)
  case (Cons x xs)
  obtain token a where x: "x = (token, a)" by fastforce
  have "map_of xs k = None" if "k = token" using Cons.prems that by (auto simp: x map_of_eq_None_iff)
  with Cons show ?case by (auto simp: x split: option.splits)
qed simp

lemma load_sessions:
  assumes "hget (files s) (auth_sessions_path (user_store_path s)) = Some (Sessions_file (hlist m))"
    and "auth_sessions s = hempty"
  shows "hget (auth_sessions (snd (load_auth_sessions now s))) k =
    (case hget m k of Some a \<Rightarrow> if now - au_last_seen_ms a \<le> AUTH_SESSION_TTL_MS then Some a else None | None \<Rightarrow> None)"
proof -
  have "map_of (hlist m) k = hget m k" by (simp add: lookup.rep_eq)
  then show ?thesis
    using assms load_sessions_fold [of "hlist m" "\<lambda>a. now - au_last_seen_ms a \<le> AUTH_SESSION_TTL_MS" s k]
    by (simp add: load_auth_sessions_def split: option.split)
qed

lemma restarted:
  assumes ok: "relay_sound r" and tmp: "tmp \<noteq> user_store_path (rl_app r)"
      "tmp \<noteq> auth_sessions_path (user_store_path (rl_app r))"
    and saved: "hget (files (rl_app r)) (auth_sessions_path (user_store_path (rl_app r))) = Some (Sessions_file (hlist m))"
  shows "\<exists>s'. start_server now No_fault tmp (user_store_path (rl_app r)) (files (rl_app r)) = Some s' \<and>
    (\<forall>k. hget (auth_sessions s') k =
       (case hget m k of Some a \<Rightarrow> if now - au_last_seen_ms a \<le> AUTH_SESSION_TTL_MS then Some a else None | None \<Rightarrow> None))"
proof -
  let ?p = "user_store_path (rl_app r)" and ?disk = "files (rl_app r)"
  have inv: "account_inv (rl_app r)" and path: "auth_sessions_path ?p \<noteq> ?p"
    using ok by (auto simp: relay_sound_def store_sound_def)
  obtain us where "hget ?disk ?p = Some (Users_file us)"
    using inv by (auto simp: account_inv_def store_synced_def)
  then obtain s1 where l: "load_users now (app_state_new ?p ?disk) = Some s1"
    by (simp add: load_users_def app_state_new_def)
  from load_users_keeps [OF l] have s1: "user_store_path s1 = ?p" "files s1 = ?disk" "auth_sessions s1 = hempty"
    by (simp_all add: app_state_new_def)
  obtain b s2 where w: "write_user_snapshot No_fault tmp (hvalues (users s1)) s1 = (b, s2)" by fastforce
  note e = write_user_snapshot_eq [OF _ w, unfolded s1(1), OF tmp(1)]
  have "auth_sessions s2 = auth_sessions s1" "user_store_path s2 = user_store_path s1"
    using arg_cong [OF e(2), of auth_sessions] arg_cong [OF e(2), of user_store_path] by simp_all
  moreover have "hget (files s2) (auth_sessions_path ?p) = Some (Sessions_file (hlist m))"
    using e(4) [of "auth_sessions_path ?p"] tmp(2) path s1(2) saved by simp
  ultimately show ?thesis
    using load_sessions [of s2 m now] l w s1 by (simp add: start_server_eq)
qed


definition demo_tick :: tick where
  "demo_tick = \<lparr>tk_calls = (\<lambda>_. \<lparr>sc_now = 2000, sc_fault = No_fault, sc_tmp = ''.t''\<rparr>), tk_now = 2000,
     tk_wake_now = 2000, tk_fault = No_fault\<rparr>"


end
