(* ===== verification/Relay_Typed.thy ===== *)
theory Relay_Typed
  imports Relay_Flight
begin

text \<open>
  The shape of the relay's data: what a table holds is stored under the key it names, and what is kept
  of an upload has a clean name and an admitted size.  The steps preserve it, whatever the requests say.
\<close>

section \<open>Well-formed data\<close>

definition keyed_previews :: "app_state \<Rightarrow> bool" where
  "keyed_previews s \<longleftrightarrow> (\<forall>d p. hget (previews s) d = Some p \<longrightarrow> pr_device_id p = d)"

definition clean_name :: "string \<Rightarrow> bool" where
  "clean_name name \<longleftrightarrow> (\<exists>raw. safe_file_name raw = Some name)"

definition clean_files :: "app_state \<Rightarrow> bool" where
  "clean_files s \<longleftrightarrow> (\<forall>fid b. hget (file_store s) fid = Some b \<longrightarrow>
     clean_name (fb_filename b) \<and> length (fb_data b) \<le> FILE_MAX_BYTES)"

definition relay_typed :: "relay_sys \<Rightarrow> bool" where
  "relay_typed r \<longleftrightarrow> keyed_previews (rl_app r) \<and> clean_files (rl_app r) \<and>
     (\<forall>fid sz held. hget (rl_transfers r) fid = Some (sz, held) \<longrightarrow> unat sz \<le> FILE_MAX_BYTES) \<and>
     (\<forall>fid q name. rl_uploads r fid = Some (q, name) \<longrightarrow> clean_name name)"

lemma relay_typedI:
  assumes "keyed_previews (rl_app r)" "clean_files (rl_app r)"
    and "\<And>fid sz held. hget (rl_transfers r) fid = Some (sz, held) \<Longrightarrow> unat sz \<le> FILE_MAX_BYTES"
    and "\<And>fid q name. rl_uploads r fid = Some (q, name) \<Longrightarrow> clean_name name"
  shows "relay_typed r"
  using assms unfolding relay_typed_def by blast

lemma relay_typedD:
  assumes "relay_typed r"
  shows "keyed_previews (rl_app r)" "clean_files (rl_app r)"
    and "hget (rl_transfers r) fid = Some (sz, held) \<Longrightarrow> unat sz \<le> FILE_MAX_BYTES"
    and "rl_uploads r fid = Some (q, name) \<Longrightarrow> clean_name name"
  using assms unfolding relay_typed_def by blast+

section \<open>Registrations\<close>

text \<open>No step but a registration adds to the table.\<close>

definition previews_sub :: "app_state \<Rightarrow> app_state \<Rightarrow> bool" where
  "previews_sub s s' \<longleftrightarrow> (\<forall>d p. hget (previews s') d = Some p \<longrightarrow> hget (previews s) d = Some p)"

lemma previews_sub_same: "previews s' = previews s \<Longrightarrow> previews_sub s s'"
  by (simp add: previews_sub_def)

lemma previews_sub_trans: "previews_sub s s' \<Longrightarrow> previews_sub s' s'' \<Longrightarrow> previews_sub s s''"
  by (simp add: previews_sub_def)

lemma keyed_sub: "keyed_previews s \<Longrightarrow> previews_sub s s' \<Longrightarrow> keyed_previews s'"
  by (simp add: keyed_previews_def previews_sub_def)

lemma keyed_touches: "keyed_previews s \<Longrightarrow> touches A s s' \<Longrightarrow> P_screen \<notin> A \<Longrightarrow> keyed_previews s'"
  by (rule keyed_sub) (auto intro: previews_sub_same touchesD(3))

lemma previews_disconnect: "previews (disconnect_viewers_for_device d s) = previews s"
  by (simp add: disconnect_viewers_for_device_def Let_def put_demand_def split: option.split)

lemma sub_remove: "previews_sub s (remove_preview_state d s)"
  by (simp add: previews_sub_def remove_preview_state_def Let_def previews_disconnect)

lemma previews_renew: "previews (snd (renew_screen_lease now d tok key s)) = previews s"
  by (simp add: renew_eq split: option.split)

lemma previews_release: "previews (release_screen_lease now d key s) = previews s"
  by (simp add: release_eq Let_def split: option.split)

lemma previews_fetch: "previews (snd (fetch_frame now d tok s)) = previews s"
  by (simp add: fetch_frame_eq Let_def previews_renew split: option.split)

lemma sub_screen_op: "screen_op s s' \<Longrightarrow> previews_sub s s'"
  by (cases rule: screen_op.cases, assumption)
    (simp_all add: previews_sub_same previews_fetch host_screen_demand_state stop_eq close_eq Let_def
      disconnect_viewers_def previews_disconnect unregister_preview_def sub_remove split: option.split)

lemma keyed_register: "keyed_previews s \<Longrightarrow> keyed_previews (snd (register_preview now tok q s))"
  by (auto simp: keyed_previews_def register_preview_def check_eqs Let_def split: option.split)

lemma sub_sweep: "previews_sub s (cleanup_expired now s)"
proof -
  have fold: "previews_sub t (fold f ys t)" if "\<And>y u. previews_sub u (f y u)" for f :: "'b \<Rightarrow> app_state \<Rightarrow> app_state" and ys t
    by (induction ys arbitrary: t) (auto simp: previews_sub_same intro: previews_sub_trans [OF that])
  have ex: "previews_sub t (fold (expire_stale_device_commands now) ks t)" for ks t
    by (rule fold) (simp add: previews_sub_same expire_fields)
  have pr: "previews_sub t (prune_all_demands now t)" for t
    by (simp add: previews_sub_same prune_all_fields)
  have up: "previews_sub s t \<Longrightarrow> previews_sub s (t\<lparr>account_presence := a\<rparr>)"
    "previews_sub s t \<Longrightarrow> previews_sub s (t\<lparr>auth_sessions := b\<rparr>)"
    "previews_sub s t \<Longrightarrow> previews_sub s (t\<lparr>viewer_sessions := v\<rparr>)"
    "previews_sub s t \<Longrightarrow> previews_sub s (t\<lparr>file_store := m\<rparr>)" for t a b v m
    by (simp_all add: previews_sub_def)
  have rm: "previews_sub s (fold remove_preview_state ds s)" for ds
    by (rule fold) (rule sub_remove)
  show ?thesis
    unfolding cleanup_expired_def Let_def
    by (intro up previews_sub_trans [OF _ ex] previews_sub_trans [OF _ pr] rm)
qed

lemma previews_viewer_open: "previews (snd (ws_viewer_open now d tok key s)) = previews s"
  using previews_renew [of now d tok key s] by (simp add: ws_viewer_open_def case_prod_beta Let_def)

lemma previews_viewer_turn: "previews (snd (snd (ws_viewer_turn pj now d tok key cid e loop s))) = previews s"
  using ws_viewer_text_fields [of pj now d tok cid _ s]
  by (auto simp: ws_viewer_turn_def case_prod_beta Let_def previews_renew
      split: viewer_loop.split viewer_event.split option.split ws_message.split)

section \<open>Files\<close>

lemma clean_sub:
  assumes "clean_files s" "\<And>fid b. hget (file_store s') fid = Some b \<Longrightarrow> hget (file_store s) fid = Some b"
  shows "clean_files s'"
  using assms unfolding clean_files_def by blast

lemma clean_touches: "clean_files s \<Longrightarrow> touches A s s' \<Longrightarrow> P_files \<notin> A \<Longrightarrow> clean_files s'"
  by (rule clean_sub) (simp_all add: touchesD(6))

lemma clean_end: "clean_files s \<Longrightarrow> clean_files (relay_file_end fid sz s)"
  by (rule clean_sub) (auto simp: relay_file_end_def drop_reservation_fields drop_held_def split: if_splits)

lemma unat_admitted: "n \<le> FILE_MAX_BYTES \<Longrightarrow> unat (of_nat n :: u64) = n"
  by (simp add: FILE_MAX_BYTES_def unat_of_nat)

lemma file_start_store:
  assumes "relay_file_start now q name fid cid data s = (res, s')"
  shows "hget (file_store s') k = (if k = fid
       then Some \<lparr>fb_data = data, fb_filename = name, fb_created_at_ms = now, fb_device_id = uq_device_id q\<rparr>
       else hget (file_store s) k)"
  using assms by (auto simp: relay_file_start_def Let_def dest!: arg_cong [where f = snd] simp: forward_start_fields)

lemma body_size: "body_complete sz received = Some data \<Longrightarrow> length data = unat sz"
  by (auto simp: body_complete_def split: option.splits if_splits)

section \<open>Every step preserves it\<close>

lemma screen_step_keyed:
  assumes step: "screen_step x r r'" and k: "keyed_previews (rl_app r)"
  shows "keyed_previews (rl_app r')"
proof -
  have up: "keyed_previews s'" if "upload_frame now q body (rl_app r) = (t, s')" for now q body t s'
    using upload_frame_previews [of now q body "rl_app r"] k that by (simp add: keyed_previews_def)
  from step show ?thesis
    by (cases rule: screen_step.cases) (auto intro: up keyed_register [OF k] keyed_sub [OF k sub_screen_op])
qed

lemma resolve_step_keyed:
  assumes step: "resolve_step x r r'" and k: "keyed_previews (rl_app r)"
  shows "keyed_previews (rl_app r')"
  using step
proof (cases rule: resolve_step.cases)
  case (rs_Resolve now d headers vt cid q resp s')
  from resolve_Resolved [OF rs_Resolve(2)] have "keyed_previews s'"
    by (auto intro: keyed_sub [OF k sub_remove] keyed_touches [OF k])
  then show ?thesis by (simp add: rs_Resolve(1))
next
  case (rs_Resolve_wait cid now d headers vt q ht reg s')
  from resolve_Waiting [OF rs_Resolve_wait(3)] have "keyed_previews s'"
    using keyed_touches [OF k] keyed_touches [OF _ touches_queue] by blast
  then show ?thesis by (simp add: rs_Resolve_wait(1))
next
  case (rs_Resolve_finish cid d vt ht reg now headers to resp s')
  have "touches {P_commands, P_viewers} (rl_app r) s'"
    by (rule touches_eq [OF rs_Resolve_finish(3) touches_resolve_finish])
  then have "keyed_previews s'" by (rule keyed_touches [OF k]) simp
  then show ?thesis by (simp add: rs_Resolve_finish(1))
qed

lemma socket_step_keyed:
  assumes step: "socket_step x r r'" and k: "keyed_previews (rl_app r)"
  shows "keyed_previews (rl_app r')"
proof -
  have same: "previews s' = previews (rl_app r) \<Longrightarrow> keyed_previews s'" for s'
    by (rule keyed_sub [OF k previews_sub_same])
  have turn: "previews s' = previews (rl_app r)"
    if "ws_viewer_turn pj now d tok key cid e loop (rl_app r) = (out, loop', s')" for pj now d tok key cid e loop out loop' s'
    using previews_viewer_turn [of pj now d tok key cid e loop "rl_app r"] by (simp add: that)
  have opened: "previews s' = previews (rl_app r)" if "ws_viewer_open now d tok key (rl_app r) = (loop, s')" for now d tok key loop s'
    using previews_viewer_open [of now d tok key "rl_app r"] by (simp add: that)
  from step show ?thesis
    by (cases rule: socket_step.cases)
      (auto intro!: same simp: previews_release ws_host_message_demands turn opened touchesD(3) [OF touches_host_open])
qed

lemma other_tables:
  "screen_step x r r' \<Longrightarrow> rl_transfers r' = rl_transfers r \<and> rl_uploads r' = rl_uploads r"
  "resolve_step x r r' \<Longrightarrow> rl_transfers r' = rl_transfers r \<and> rl_uploads r' = rl_uploads r"
  "command_step x r r' \<Longrightarrow> rl_transfers r' = rl_transfers r \<and> rl_uploads r' = rl_uploads r"
  "socket_step x r r' \<Longrightarrow> rl_transfers r' = rl_transfers r \<and> rl_uploads r' = rl_uploads r"
  "account_step x r r' \<Longrightarrow> rl_transfers r' = rl_transfers r \<and> rl_uploads r' = rl_uploads r"
  "pairing_step x r r' \<Longrightarrow> rl_transfers r' = rl_transfers r \<and> rl_uploads r' = rl_uploads r"
  by (auto elim!: screen_step.cases resolve_step.cases command_step.cases socket_step.cases account_step.cases
      pairing_step.cases)

lemma upload_step_typed:
  assumes step: "upload_step x r r'" and ok: "relay_typed r"
  shows "relay_typed r'"
proof -
  note D = relay_typedD [OF ok]
  have keyed: "keyed_previews (rl_app r')"
    by (rule keyed_touches [OF D(1) upload_step_touches [OF step]]) simp
  have done': "relay_typed r'"
    if "clean_files (rl_app r')" "rl_uploads r' = rl_uploads r"
      "\<And>k sz held. hget (rl_transfers r') k = Some (sz, held) \<Longrightarrow> \<exists>h k'. hget (rl_transfers r) k' = Some (sz, h)"
    using keyed that D(3,4) by (intro relay_typedI) (auto, blast)
  have sub: "clean_files s'" if "\<And>k. hget (file_store s') k = hget (file_store (rl_app r)) k" for s'
    using D(2) that by (simp add: clean_files_def)
  have started: "clean_files s'"
    if "relay_file_start now q name fid cid data (rl_app r) = (res, s')" "clean_name name" "length data \<le> FILE_MAX_BYTES"
    for now q name fid cid data res s'
    using D(2) that(2,3) by (auto simp: clean_files_def file_start_store [OF that(1)] split: if_splits)
  from step show ?thesis
  proof (cases rule: upload_step.cases)
    case (rs_Admit now q h name sz s' fid)
    note a = admit_file_ok [OF rs_Admit(2)]
    from a(3) obtain n where n: "n \<le> FILE_MAX_BYTES" "sz = of_nat n" by blast
    show ?thesis
    proof (rule relay_typedI [OF keyed])
      show "clean_files (rl_app r')" using sub [of s'] a(6) by (simp add: rs_Admit(1))
      show "unat z \<le> FILE_MAX_BYTES" if "hget (rl_transfers r') k = Some (z, held)" for k z held
        using that D(3) n unat_admitted [OF n(1)] by (auto simp: rs_Admit(1) split: if_splits)
      show "clean_name m" if "rl_uploads r' k = Some (q', m)" for k q' m
        using that D(4) a(2) by (auto simp: rs_Admit(1) clean_name_def split: if_splits)
    qed
  next
    case (rs_File_refused now q h e s')
    then show ?thesis using sub [of s'] admit_file_error(2) [OF rs_File_refused(2)] by (intro done') auto
  next
    case (rs_Incomplete fid sz received)
    then show ?thesis
      using sub [of "drop_reservation sz (rl_app r)"] by (intro done') (auto simp: drop_reservation_fields split: if_splits)
  next
    case (rs_Stored fid sz q name received data cid now s')
    have "clean_files s'"
      by (rule started [OF rs_Stored(6)]) (use D(3) [OF rs_Stored(2)] D(4) [OF rs_Stored(3)] body_size [OF rs_Stored(4)] in simp_all)
    then show ?thesis using rs_Stored(2) by (intro done') (auto simp: rs_Stored(1) split: if_splits)
  next
    case (rs_Store_refused fid sz q name received data now cid status s')
    have "clean_files s'"
      by (rule started [OF rs_Store_refused(5)])
        (use D(3) [OF rs_Store_refused(2)] D(4) [OF rs_Store_refused(3)] body_size [OF rs_Store_refused(4)] in simp_all)
    then show ?thesis by (intro done') (auto simp: rs_Store_refused(1) clean_end split: if_splits)
  next
    case (rs_File_finish cid fid sz to resp s')
    from file_finish_Some [OF rs_File_finish(3)] obtain outcome s1 where
      f: "forward_finish cid to (rl_app r) = (Some outcome, s1)" "s' = relay_file_end fid sz s1" by blast
    have "clean_files s1" by (rule clean_touches [OF D(2) touches_eq [OF f(1) touches_forward_finish]]) simp
    then show ?thesis by (intro done') (auto simp: rs_File_finish(1) f(2) clean_end split: if_splits)
  next
    case (rs_File_hang_up cid fid sz)
    then show ?thesis using D(2) by (intro done') (auto simp: clean_end split: if_splits)
  next
    case (rs_Collect now fid d ht resp s')
    have "clean_files s'"
      by (rule clean_sub [OF D(2)])
        (use rs_Collect(2) in \<open>auto simp: file_host_download_def Let_def split: if_splits option.splits\<close>)
    then show ?thesis by (intro done') (auto simp: rs_Collect(1))
  qed
qed

lemma typed_step:
  assumes step: "relay_step x r r'" and ok: "relay_typed r"
  shows "relay_typed r'"
proof -
  note D = relay_typedD [OF ok]
  have keep: "relay_typed r'"
    if "touches A (rl_app r) (rl_app r')" "P_files \<notin> A" "keyed_previews (rl_app r')"
      "rl_transfers r' = rl_transfers r \<and> rl_uploads r' = rl_uploads r" for A
    using clean_touches [OF D(2) that(1,2)] that(3,4) D(3,4) by (intro relay_typedI) auto
  have plain: "relay_typed r'"
    if "touches A (rl_app r) (rl_app r')" "P_files \<notin> A" "P_screen \<notin> A"
      "rl_transfers r' = rl_transfers r \<and> rl_uploads r' = rl_uploads r" for A
    by (rule keep [OF that(1,2) keyed_touches [OF D(1) that(1,3)] that(4)])
  from step show ?thesis
  proof (cases rule: relay_step.cases)
    case rs_screen
    show ?thesis
      by (rule keep [OF screen_step_touches [OF rs_screen] _ screen_step_keyed [OF rs_screen D(1)]
            other_tables(1) [OF rs_screen]]) simp
  next
    case rs_resolve
    show ?thesis
      by (rule keep [OF resolve_step_touches [OF rs_resolve] _ resolve_step_keyed [OF rs_resolve D(1)]
            other_tables(2) [OF rs_resolve]]) simp
  next
    case rs_command
    show ?thesis
      by (rule plain [OF command_step_touches [OF rs_command] _ _ other_tables(3) [OF rs_command]]) simp_all
  next
    case rs_socket
    show ?thesis
      by (rule keep [OF socket_step_touches [OF rs_socket] _ socket_step_keyed [OF rs_socket D(1)]
            other_tables(4) [OF rs_socket]]) simp
  next
    case rs_upload
    then show ?thesis using ok by (rule upload_step_typed)
  next
    case rs_account
    show ?thesis
      by (rule plain [OF account_step_touches [OF rs_account] _ _ other_tables(5) [OF rs_account]]) simp_all
  next
    case rs_pairing
    show ?thesis
      by (rule plain [OF pairing_step_touches [OF rs_pairing] _ _ other_tables(6) [OF rs_pairing]]) simp_all
  next
    case (rs_quiet s')
    show ?thesis by (rule plain [where A = "{}"]) (simp_all add: rs_quiet quiet_touches)
  next
    case (rs_cleanup now)
    show ?thesis
    proof (rule relay_typedI)
      show "keyed_previews (rl_app r')" by (simp add: rs_cleanup keyed_sub [OF D(1) sub_sweep])
      show "clean_files (rl_app r')"
        using cleanup_files [of "rl_app r" now] clean_sub [OF D(2)] by (simp add: rs_cleanup only_removes_files_def)
    qed (use D(3,4) in \<open>auto simp: rs_cleanup\<close>)
  qed
qed

lemma typed_reachable: "relay_reachable x r \<Longrightarrow> relay_typed r"
proof (induction rule: relay_reachable.induct)
  case (relay_init path disk tmp now fault s)
  note t = touchesD(3,6) [OF start_touches [OF relay_init(3)]]
  show ?case
    using t by (simp add: relay_typed_def relay_start_def keyed_previews_def clean_files_def app_state_new_def)
qed (rule typed_step)

end
