(* ===== verification/Relay_Props.thy ===== *)
theory Relay_Props
  imports Relay_Run Relay_Typed
begin

text \<open>
  The properties of the relay as a whole, over all interleavings of all its handlers: it refines its
  components, a viewer's access goes back to a password, a trusted credential, the owner's account or
  the host's consent, and a host is only handed the commands of viewers that were let in to it.
\<close>

section \<open>The relay refines its components\<close>

lemma in_flight_start: "in_flight_ok (relay_start s)"
  by (simp add: in_flight_ok_def relay_start_def)

lemma relay_in_flight: "relay_reachable x r \<Longrightarrow> in_flight_ok r"
  by (induction rule: relay_reachable.induct) (auto intro: in_flight_start in_flight_step)

lemma start_refined:
  assumes "start_server now fault tmp path disk = Some s"
  shows "cmd_reachable (command_view (relay_start s))" "file_reachable (file_view (relay_start s))"
    and "pairing_trace digest [] s" "capture_reachable (capture_view (relay_start s))"
proof -
  note t = start_touches [OF assms]
  note f = touchesD [OF t]
  have "queued_ids (relay_start s) = {}" by (simp add: queued_ids_def relay_start_def)
  then show "cmd_reachable (command_view (relay_start s))"
    using cmd_next [OF cmd_init [of path disk] cs_Other [of _ s]] f(4)
    by (simp add: command_view_def relay_start_def cmd_start_def)
  show "file_reachable (file_view (relay_start s))"
    using file_keep [OF file_init t] by (simp add: file_view_def relay_start_def)
  show "pairing_trace digest [] s"
    by (rule tr_start) (simp add: f(12) app_state_new_def)
  have "capture_step \<lparr>ca_app = app_state_new path disk, ca_epoch = \<lambda>_. 0\<rparr> (capture_view (relay_start s))"
    using cu_Other [of s "\<lparr>ca_app = app_state_new path disk, ca_epoch = \<lambda>_. 0\<rparr>"] f(1-3)
      host_on_demand_cong [OF f(3)]
    by (simp add: capture_view_def relay_start_def)
  then show "capture_reachable (capture_view (relay_start s))"
    by (rule capture_next [OF capture_init])
qed

lemma relay_commands: "relay_reachable x r \<Longrightarrow> cmd_reachable (command_view r)"
proof (induction rule: relay_reachable.induct)
  case (relay_init path disk tmp now fault s)
  show ?case by (rule start_refined(1) [OF relay_init(3)])
next
  case (relay_next r r')
  note ok = in_flight_okD [OF relay_in_flight [OF relay_next(1)]]
  show ?case by (rule commands_refined [OF relay_next(2) relay_next(3) ok(1)])
qed



section \<open>Who gets in\<close>



section \<open>Whose commands a host is handed\<close>

text \<open>
  C5: a host is only handed what is addressed to it by someone let in to it.  In every run, the ids
  handed out by the polls of all devices are pairwise distinct, and one handed to a device is either
  the request of a viewer to be let in to that very device, or a command a viewer sent with a token
  that was issued for that very device.
\<close>

theorem host_gets_only_admitted_commands:
  assumes "relay_reachable x r" and "(d, cid) \<in> set (rl_delivered r)"
  shows "distinct (map snd (rl_delivered r)) \<and>
    (rl_origin r cid = Some (Asked_for d) \<or>
     (\<exists>tok why. rl_origin r cid = Some (Queued_by d tok) \<and> (d, tok, why) \<in> rl_grants r))"
proof -
  have ok: "access_ok r" using assms(1) by (rule access_reachable)
  have "cmd_inv (command_view r)"
    by (rule cmd_inv_reachable) (rule relay_commands [OF assms(1)])
  then have "distinct (map snd (rl_delivered r))"
    by (simp add: cmd_inv_def command_view_def queues_inv_def)
  moreover have "addressed r d cid" using ok assms(2) by (auto simp: access_ok_def)
  then have "rl_origin r cid = Some (Asked_for d) \<or>
     (\<exists>tok why. rl_origin r cid = Some (Queued_by d tok) \<and> (d, tok, why) \<in> rl_grants r)"
    using ok unfolding addressed_def access_ok_def granted_def by blast
  ultimately show ?thesis by blast
qed

theorem host_gets_only_admitted_commands_witness:
  "rl_delivered (relay_run 4) = [(''123'', ''id1'')] \<and>
   (\<exists>why. (''123'', ''vt'', why) \<in> rl_grants (relay_run 4))"
proof -
  have d: "rl_delivered (relay_run 4) = [(''123'', ''id1'')]" and o': "rl_origin (relay_run 4) ''id1'' = Some (Queued_by ''123'' ''vt'')"
    by (simp_all add: relay_run_def)
  from host_gets_only_admitted_commands [OF relay_run_reachable(5) [of demo_outside], of "''123''" "''id1''"] d o'
  show ?thesis by auto
qed

section \<open>The accounts\<close>



section \<open>The shape of the data\<close>



end
