(* ===== verification/Spec2Isabelle.thy ===== *)
theory Spec2Isabelle
  imports Account_Props Capture_Audience Command_Props File_Props Preview_Props Cleanup_Props Wake_Props
    Pairing_Props Websocket_Props Debug_State Key_File Framing_Props Nat_Punch Session_Host Bridge_Local
    Video Endpoints Server_Main Relay_Props
begin

text \<open>
  Verification of rdesk, a remote desktop: the relay server and the protocol code under \<open>src/crates\<close>.

  \<^bold>\<open>The program.\<close>  A host shares its screen, a viewer watches and controls it, and both talk to a relay
  (\<open>crates/rdesk_server\<close>) over HTTP and web sockets.  The relay keeps registrations, viewer sessions,
  leases of the screen, the latest frame of each host, queues of commands, files in transit and user
  accounts in concurrent maps shared by all handlers (\<open>AppState\<close> in \<open>main.rs\<close>).  Its sub-system
  \<open>wake\<close> lets a computer of an account start another one: \<open>wake/model.rs\<close> is the data,
  \<open>wake/store.rs\<close> the account database, \<open>wake/routes.rs\<close> the endpoints, \<open>wake/pairing.rs\<close> the pairing
  of a new computer with the consent of a phone.  Beside the relay stand the libraries for a direct
  connection: session keys and login hashes (\<open>rdesk_crypto\<close>), framing of messages (\<open>rdesk_common\<close>,
  \<open>rdesk_net/src/quic\<close>), address discovery and hole punching (\<open>rdesk_net/src/p2p\<close>), the life cycle
  of a session, capture and codec (\<open>rdesk_core\<close>), and the bridge to the user interface
  (\<open>rdesk_bridge\<close>).

  \<^bold>\<open>How it is modelled.\<close>  A handler is a function from the reading of the clock, the fresh tokens it
  draws, its request and the state to its response and the new state.  Code between two suspension
  points is one step; a handler that suspends is split there, or takes what the others do meanwhile as
  a function argument.  Every early return is a branch.  Sections under a lock are one step.  Where a
  property speaks about interleavings there is an inductive step relation over these functions and an
  invariant proved by rule induction.  Maps are duplicate-free association lists (\<open>Prelude\<close>), \<open>u8\<close> to
  \<open>u64\<close> are words, clock readings are natural numbers (exact below 2 to the 63), strings are lists of
  bytes in UTF-8.

  \<^bold>\<open>The theories.\<close>
  \<^item> \<open>Prelude\<close>, \<open>Endian\<close>, \<open>Rust_Str\<close>: maps and the contracts \<open>hash_map\<close> and \<open>expiring_map\<close>, byte order
    with its round trips, the string functions of the standard library that the code calls.
  \<^item> \<open>Relay_State\<close>, \<open>Relay_Auth\<close> (\<open>main.rs\<close>): the state, the requests, the three credential checks.
  \<^item> \<open>Screen_Lease\<close>, \<open>Frames\<close>, \<open>Websockets\<close> (\<open>main.rs\<close>): who is watching, upload and fetch of frames,
    the sockets.  \<open>Capture_Props\<close> and \<open>Websocket_Props\<close> state what each operation does;
    \<open>Capture_Audience\<close> composes all of them, with registration and the sweep, into one transition
    system and shows that a frame captured on demand is served only to its audience.
  \<^item> \<open>Commands\<close>, \<open>Command_Props\<close> (\<open>main.rs\<close>): a viewer's command, the host's long poll, the answer:
    delivered at most once, in order, always answered.
  \<^item> \<open>Files\<close>, \<open>File_Props\<close> (\<open>main.rs\<close>): files in transit within a byte budget; safe names.
  \<^item> \<open>Previews\<close>, \<open>Preview_Props\<close> (\<open>main.rs\<close>): registration of a host and how a viewer gets in.
  \<^item> \<open>Cleanup\<close>, \<open>Cleanup_Props\<close> (\<open>main.rs\<close>): the sweep removes exactly what has expired.
  \<^item> \<open>Wake_Model\<close>, \<open>Pairing_Model\<close>: the data of remote wake and of pairing.
  \<^item> \<open>Wake_Store\<close>, \<open>Accounts\<close>, \<open>Account_Props\<close> (\<open>wake/store.rs\<close>, \<open>main.rs\<close>): the account database with
    a fault possible at every step of a write; accounts, sessions, restart.
  \<^item> \<open>Wake_Routes\<close>, \<open>Wake_Props\<close> (\<open>wake/routes.rs\<close>): the endpoints; accounts stay well formed, requests
    move only along their life cycle and are authorised at most once.
  \<^item> \<open>Pairing_Routes\<close>, \<open>Pairing_Props\<close> (\<open>wake/pairing.rs\<close>): the endpoints; a computer enters an account
    only with both devices' proofs, tables and counters are bounded, guessing is cut off.
  \<^item> \<open>Sha256\<close>, \<open>Login_Auth\<close> (\<open>session_key.rs\<close>, \<open>auth.rs\<close>): both implementations of SHA-256 with the
    FIPS test vector, their equivalence under any chunking of the input (the locale
    \<open>incremental_hash\<close>), HMAC, HKDF, the login hash.
  \<^item> \<open>Noise\<close>, \<open>Key_File\<close> (\<open>noise.rs\<close>, \<open>keypair.rs\<close>): the two drivers of the Noise XX handshake as programs
    over a network, which complete in any schedule; key pairs and their file.
  \<^item> \<open>Framing\<close>, \<open>Framing_Props\<close> (\<open>bytes_codec.rs\<close>, \<open>quic/stream.rs\<close>): three framings as instances of one
    contract, the locale \<open>framing\<close>: whatever the chunks of the transport, the messages arrive in order.
  \<^item> \<open>Stun\<close>, \<open>Nat_Punch\<close> (\<open>p2p/stun.rs\<close>, \<open>nat_detect.rs\<close>, \<open>hole_punch.rs\<close>): requests and responses,
    classification, the probe loop over the events of its \<open>select!\<close>.
  \<^item> \<open>Session\<close>, \<open>Session_Host\<close> (\<open>session.rs\<close>, \<open>server.rs\<close>): the state machine of a session, its use by
    several tasks, and the host object.
  \<^item> \<open>Client_Bridge\<close> (\<open>client.rs\<close>, \<open>rdesk_bridge\<close>, chat, clipboard, files), \<open>Video\<close> (\<open>capture/desktop.rs\<close>,
    \<open>codec/vpx.rs\<close>): input only reaches an active session, frames survive the codec.  \<open>Bridge_Local\<close>
    (\<open>api/chat.rs\<close>, \<open>api/file_transfer.rs\<close>, \<open>input.rs\<close>) is the bridge over the local helpers.
  \<^item> \<open>Local_Files\<close>, \<open>Platform\<close>, \<open>Identity\<close> (\<open>platform.rs\<close>, \<open>device_id.rs\<close>, \<open>password.rs\<close>, \<open>config.rs\<close> and the
    bridge over them): the files of an installation with a fault possible in every call; ids are well
    formed and stay, settings and passwords are changed independently.
  \<^item> \<open>Endpoints\<close> (\<open>quic/client.rs\<close>, \<open>quic/server.rs\<close>, \<open>relay/client.rs\<close>, \<open>rendezvous/client.rs\<close>): how the two
    ends of a connection are configured, what they agree on, and that TLS authenticates neither.
  \<^item> \<open>Debug_State\<close> (\<open>main.rs\<close>): what the debugging endpoint shows and what it does not.
  \<^item> \<open>Relay_System\<close>: the relay as a whole, one step relation with all handlers over the shared state and
    the handlers in flight.  \<open>Relay_Footprint\<close> says which part of the state each handler may change,
    \<open>Relay_Refines\<close> and \<open>Relay_Flight\<close> that each component sees a run of its own system,
    \<open>Relay_Access\<close>, \<open>Relay_Accounts\<close> and \<open>Relay_Typed\<close> carry the invariants of access, of the accounts and
    of the tables, \<open>Relay_Props\<close> states the properties, and \<open>Relay_Run\<close> is a run they are applied to.
  \<^item> \<open>Routes\<close>, \<open>Server_Main\<close> (\<open>main\<close>, \<open>routes\<close>): the routing table, no two entries of which can match one
    path; start-up, which gives a relay, and the background task, each tick of which is a piece of a run.

  \<^bold>\<open>Termination and fuel.\<close>  Loops are structural or have a measure.  The long polls run against a
  clock that each sleep moves by at least one tick, so the deadline bounds them
  (\<open>poll_host_command_bound\<close> gives the number of turns).  \<open>drain\<close> in \<open>Framing\<close> takes the length of the
  buffer as fuel; every frame consumes at least its prefix, and the locale proves that this is enough.

  \<^bold>\<open>Parameters.\<close>  Argon2, the random generator, the SHA-256 of the \<open>sha2\<close> crate used by pairing, the
  handshake states of \<open>snow\<close>, the scalar multiplication of \<open>x25519-dalek\<close>, LZ4, JSON and the outcomes of
  operating-system calls are arguments.  What is used of them is stated as a hypothesis of the theorem
  that needs it.

  \<^bold>\<open>Not modelled.\<close>  Logging; module declarations, re-exports and the build script; plain accessors of
  objects (the fields of the records stand for them); reading JSON and query strings, the matching of
  paths, and the transport below a socket or a stream, which are libraries.
\<close>

end
